theory Spec2Isabelle
  imports Main
begin

section \<open>Data model\<close>

text \<open>
  The tables of \<^verbatim>\<open>src/db/schema.ts\<close> and the types of \<^verbatim>\<open>src/types/index.ts\<close>.
  A \<^verbatim>\<open>uuid\<close> primary key with \<^verbatim>\<open>defaultRandom()\<close> is a number drawn from a counter
  kept with the tables, so that every inserted row gets an identifier no other row has.
  A \<^verbatim>\<open>timestamp\<close> is the number of milliseconds of \<^verbatim>\<open>Date.getTime()\<close>. A nullable column
  is an \<open>option\<close>. A string is a list of characters, and the limit of a \<^verbatim>\<open>varchar\<close> column
  is a limit on their number. The \<^verbatim>\<open>metadata\<close> column of \<^verbatim>\<open>oauth_providers\<close>, which no code
  writes, is left out.
\<close>

type_synonym uuid = nat
type_synonym timestamp = int

datatype user_status = Active | Suspended | Deleted
datatype oauth_provider = Google | Facebook | Apple
datatype token_type = EmailVerification | PasswordReset

text \<open>
  A token handed to a client is a string. Two kinds of strings occur: the compact form of
  a JSON web token, which HS256 makes a function of the signing secret and of the claims
  (\<open>Jwt secret claims\<close>), and every other string (\<open>Plain\<close>), such as the hexadecimal
  output of \<^verbatim>\<open>generateToken\<close>. The SHA-256 digest of \<^verbatim>\<open>hashToken\<close> and the bcrypt hash
  of a password are kept symbolic in the same way: a digest is named by the text it was
  computed from, a password hash by its salt and its plaintext. No operation of the model
  takes a digest or a password hash apart.
\<close>

datatype jwt_type = Access | Refresh

record jwt_claims =
  jwt_userId :: uuid
  jwt_email :: "string option"
  jwt_type :: jwt_type
  jwt_iat :: int
  jwt_exp :: int
  jwt_iss :: string
  jwt_aud :: string

datatype token = Jwt string jwt_claims | Plain string

datatype digest = Sha256 token

datatype password_hash = Bcrypt string string

record device_info =
  userAgent :: "string option"
  ip :: "string option"
  platform :: "string option"
  browser :: "string option"

record user_row =
  u_id :: uuid
  u_email :: "string option"
  u_emailVerified :: bool
  u_passwordHash :: "password_hash option"
  u_displayName :: "string option"
  u_avatarUrl :: "string option"
  u_phoneNumber :: "string option"
  u_status :: user_status
  u_createdAt :: timestamp
  u_updatedAt :: timestamp
  u_lastLoginAt :: "timestamp option"

record oauth_row =
  op_id :: uuid
  op_userId :: uuid
  op_provider :: oauth_provider
  op_providerUserId :: string
  op_providerEmail :: "string option"
  op_accessToken :: "string option"
  op_refreshToken :: "string option"
  op_tokenExpiresAt :: "timestamp option"
  op_createdAt :: timestamp
  op_updatedAt :: timestamp

record refresh_row =
  rt_id :: uuid
  rt_userId :: uuid
  rt_tokenHash :: digest
  rt_deviceInfo :: device_info
  rt_expiresAt :: timestamp
  rt_createdAt :: timestamp
  rt_revokedAt :: "timestamp option"

record verification_row =
  vt_id :: uuid
  vt_userId :: uuid
  vt_token :: token
  vt_tokenType :: token_type
  vt_expiresAt :: timestamp
  vt_usedAt :: "timestamp option"
  vt_createdAt :: timestamp

datatype AuditEventType =
    REGISTER | LOGIN | LOGOUT | LOGIN_FAILED | PASSWORD_RESET_REQUEST | PASSWORD_RESET
  | EMAIL_VERIFY | OAUTH_LINK | OAUTH_UNLINK | TOKEN_REFRESH | PROFILE_UPDATE
  | ACCOUNT_SUSPEND | ACCOUNT_DELETE

record audit_row =
  al_id :: uuid
  al_userId :: "uuid option"
  al_eventType :: AuditEventType
  al_ipAddress :: "string option"
  al_userAgent :: "string option"
  al_metadata :: "(string \<times> string) list"
  al_success :: bool
  al_createdAt :: timestamp

text \<open>
  The mails handed to \<^verbatim>\<open>emailService\<close>. A failed delivery is caught and logged by every
  caller and changes nothing else, so the model records the hand-over only.
\<close>

datatype mail =
    VerificationEmail "string option" token
  | PasswordResetEmail "string option" token
  | WelcomeEmail "string option" "string option"

record state =
  users :: "user_row list"
  oauthProviders :: "oauth_row list"
  refreshTokens :: "refresh_row list"
  verificationTokens :: "verification_row list"
  authAuditLog :: "audit_row list"
  outbox :: "mail list"
  nextId :: uuid

text \<open>
  The error classes of \<^verbatim>\<open>src/types/index.ts\<close>, each with its message. \<open>DatabaseError\<close>
  is the error the driver throws when the database refuses a statement: an insert that
  violates a unique index, a value too long for its column. \<open>Error\<close> is a plain JavaScript
  \<^verbatim>\<open>Error\<close>.
\<close>

datatype app_error =
    ValidationError string
  | UnauthorizedError string
  | ForbiddenError string
  | NotFoundError string
  | ConflictError string
  | TooManyRequestsError string
  | DatabaseError string
  | Error string

text \<open>
  The expiry settings of the configuration are strings such as \<^verbatim>\<open>'15m'\<close> and
  \<^verbatim>\<open>'30d'\<close>; they are kept as a number with its unit.
\<close>

datatype span = Seconds int | Minutes int | Hours int | Days int

record jwt_config =
  secret :: string
  accessTokenExpiry :: span
  refreshTokenExpiry :: span

record OAuthProfile =
  p_provider :: oauth_provider
  p_providerId :: string
  p_email :: string
  p_displayName :: "string option"
  p_avatarUrl :: "string option"
  p_accessToken :: string
  p_refreshToken :: "string option"
  p_expiresAt :: "timestamp option"

record RegisterDto =
  rd_email :: string
  rd_password :: string
  rd_displayName :: "string option"

record LoginDto =
  ld_email :: string
  ld_password :: string

record TokenPair =
  tp_accessToken :: token
  tp_refreshToken :: token
  tp_expiresIn :: span

record user_view =
  uv_id :: uuid
  uv_email :: "string option"
  uv_displayName :: "string option"
  uv_emailVerified :: bool
  uv_avatarUrl :: "string option"

record register_view =
  rv_id :: uuid
  rv_email :: "string option"
  rv_displayName :: "string option"
  rv_emailVerified :: bool

record refresh_result =
  res_accessToken :: token
  res_refreshToken :: token
  res_tokenType :: string
  res_expiresIn :: span

record login_result = refresh_result +
  res_user :: user_view

record oauth_result = login_result +
  res_isNewUser :: bool


section \<open>Primitives\<close>

subsection \<open>JavaScript idioms\<close>

text \<open>
  \<^verbatim>\<open>x || null\<close> on an optional string: the empty string is falsy and becomes \<^verbatim>\<open>null\<close>
  as well.
\<close>

fun or_null :: "string option \<Rightarrow> string option" where
  "or_null None = None"
| "or_null (Some v) = (if v = [] then None else Some v)"

text \<open>\<^verbatim>\<open>deviceInfo?.ip\<close> and \<^verbatim>\<open>deviceInfo?.userAgent\<close> on an optional argument.\<close>

fun opt_ip :: "device_info option \<Rightarrow> string option" where
  "opt_ip None = None"
| "opt_ip (Some d) = ip d"

fun opt_userAgent :: "device_info option \<Rightarrow> string option" where
  "opt_userAgent None = None"
| "opt_userAgent (Some d) = userAgent d"

text \<open>\<^verbatim>\<open>deviceInfo || {}\<close>.\<close>

fun device_or_empty :: "device_info option \<Rightarrow> device_info" where
  "device_or_empty None = \<lparr>userAgent = None, ip = None, platform = None, browser = None\<rparr>"
| "device_or_empty (Some d) = d"

text \<open>\<^verbatim>\<open>errors.join(', ')\<close>.\<close>

fun join :: "string \<Rightarrow> string list \<Rightarrow> string" where
  "join sep [] = []"
| "join sep [x] = x"
| "join sep (x # y # ys) = x @ sep @ join sep (y # ys)"

subsection \<open>src/utils/crypto.ts\<close>

definition hashToken :: "token \<Rightarrow> digest" where
  "hashToken t = Sha256 t"

text \<open>
  \<^verbatim>\<open>generateToken()\<close> returns the hexadecimal form of 32 random bytes. The draw is an
  argument \<open>rnd\<close> of every operation that calls it.
\<close>

definition generateToken :: "string \<Rightarrow> token" where
  "generateToken rnd = Plain rnd"

subsection \<open>src/utils/jwt.ts\<close>

fun span_seconds :: "span \<Rightarrow> int" where
  "span_seconds (Seconds n) = n"
| "span_seconds (Minutes n) = n * 60"
| "span_seconds (Hours n) = n * 60 * 60"
| "span_seconds (Days n) = n * 24 * 60 * 60"

text \<open>
  \<^verbatim>\<open>jwt.sign(payload, secret, {expiresIn, issuer, audience})\<close> adds the claims
  \<^verbatim>\<open>iat = floor(Date.now() / 1000)\<close> and \<^verbatim>\<open>exp = iat + expiresIn\<close>, both in seconds.
\<close>

definition generateAccessToken :: "jwt_config \<Rightarrow> timestamp \<Rightarrow> uuid \<Rightarrow> string option \<Rightarrow> token" where
  "generateAccessToken cfg now userId email =
     Jwt (secret cfg)
       \<lparr>jwt_userId = userId, jwt_email = email, jwt_type = Access,
        jwt_iat = now div 1000,
        jwt_exp = now div 1000 + span_seconds (accessTokenExpiry cfg),
        jwt_iss = ''auth-system'', jwt_aud = ''auth-system-api''\<rparr>"

definition generateRefreshToken :: "jwt_config \<Rightarrow> timestamp \<Rightarrow> uuid \<Rightarrow> string option \<Rightarrow> token" where
  "generateRefreshToken cfg now userId email =
     Jwt (secret cfg)
       \<lparr>jwt_userId = userId, jwt_email = email, jwt_type = Refresh,
        jwt_iat = now div 1000,
        jwt_exp = now div 1000 + span_seconds (refreshTokenExpiry cfg),
        jwt_iss = ''auth-system'', jwt_aud = ''auth-system-api''\<rparr>"

definition generateTokenPair :: "jwt_config \<Rightarrow> timestamp \<Rightarrow> uuid \<Rightarrow> string option \<Rightarrow> TokenPair" where
  "generateTokenPair cfg now userId email =
     \<lparr>tp_accessToken = generateAccessToken cfg now userId email,
      tp_refreshToken = generateRefreshToken cfg now userId email,
      tp_expiresIn = accessTokenExpiry cfg\<rparr>"

record JwtPayload =
  jp_userId :: uuid
  jp_email :: "string option"
  jp_type :: jwt_type

text \<open>
  \<^verbatim>\<open>jwt.verify(token, secret, {issuer, audience})\<close> checks, in this order, the form and the
  signature (\<^verbatim>\<open>JsonWebTokenError\<close>), the expiry \<^verbatim>\<open>now >= exp\<close> (\<^verbatim>\<open>TokenExpiredError\<close>),
  the audience and the issuer (\<^verbatim>\<open>JsonWebTokenError\<close>).
\<close>

definition verifyToken :: "jwt_config \<Rightarrow> timestamp \<Rightarrow> token \<Rightarrow> app_error + JwtPayload" where
  "verifyToken cfg now t =
     (case t of
        Plain _ \<Rightarrow> Inl (UnauthorizedError ''Invalid token'')
      | Jwt k c \<Rightarrow>
          if k \<noteq> secret cfg then Inl (UnauthorizedError ''Invalid token'')
          else if jwt_exp c \<le> now div 1000 then Inl (UnauthorizedError ''Token has expired'')
          else if jwt_aud c \<noteq> ''auth-system-api'' then Inl (UnauthorizedError ''Invalid token'')
          else if jwt_iss c \<noteq> ''auth-system'' then Inl (UnauthorizedError ''Invalid token'')
          else Inr \<lparr>jp_userId = jwt_userId c, jp_email = jwt_email c, jp_type = jwt_type c\<rparr>)"

subsection \<open>src/utils/password.ts\<close>

text \<open>
  Modelled from the spec: \<^verbatim>\<open>src/utils/password.ts\<close> is not among the sources; only its
  tests are. \<^verbatim>\<open>hashPassword\<close> is a salted hash, the fresh salt being the argument
  \<open>salt\<close>; \<^verbatim>\<open>verifyPassword\<close> accepts the plaintext the hash was made from.
\<close>

definition hashPassword :: "string \<Rightarrow> string \<Rightarrow> password_hash" where
  "hashPassword salt plaintext = Bcrypt salt plaintext"

fun verifyPassword :: "string \<Rightarrow> password_hash \<Rightarrow> bool" where
  "verifyPassword plaintext (Bcrypt salt p) = (plaintext = p)"

definition is_upper :: "char \<Rightarrow> bool" where
  "is_upper c = (65 \<le> (of_char c :: nat) \<and> (of_char c :: nat) \<le> 90)"

definition is_lower :: "char \<Rightarrow> bool" where
  "is_lower c = (97 \<le> (of_char c :: nat) \<and> (of_char c :: nat) \<le> 122)"

definition is_digit :: "char \<Rightarrow> bool" where
  "is_digit c = (48 \<le> (of_char c :: nat) \<and> (of_char c :: nat) \<le> 57)"

definition is_symbol :: "char \<Rightarrow> bool" where
  "is_symbol c = (\<not> is_upper c \<and> \<not> is_lower c \<and> \<not> is_digit c)"

record password_validation =
  valid :: bool
  errors :: "string list"

text \<open>
  Modelled from the spec: the rule set of \<^verbatim>\<open>validatePasswordStrength\<close> (at least 8
  characters, an upper-case letter, a lower-case letter, a digit, a symbol, every violation
  reported), with the messages of \<^verbatim>\<open>password.test.ts\<close>. A symbol is taken to be any
  character that is neither an ASCII letter nor a digit.
\<close>

definition validatePasswordStrength :: "string \<Rightarrow> password_validation" where
  "validatePasswordStrength password =
     (let errs =
        (if length password < 8 then [''Password must be at least 8 characters long''] else []) @
        (if list_ex is_upper password then []
         else [''Password must contain at least one uppercase letter'']) @
        (if list_ex is_lower password then []
         else [''Password must contain at least one lowercase letter'']) @
        (if list_ex is_digit password then []
         else [''Password must contain at least one number'']) @
        (if list_ex is_symbol password then []
         else [''Password must contain at least one special character''])
      in \<lparr>valid = (errs = []), errors = errs\<rparr>)"


section \<open>The store\<close>

text \<open>
  A \<^verbatim>\<open>select ... limit 1\<close> is \<open>find\<close>: the first row that matches. The unique indexes
  of the schema (see \<open>wf\<close> below) leave at most one row to match in each such query of the
  service, so the order of the rows does not matter. An \<^verbatim>\<open>update ... where\<close> maps over the
  table. An insert appends a row with a fresh identifier, unless the database refuses it
  and the driver throws: a value is too long for its column, or a unique index already
  holds the value. The service looks for an email and for a provider and subject just
  before it inserts them, so only a value that is cut to the length of its column can
  collide there. A one-time token collides should \<^verbatim>\<open>generateToken\<close> draw a stored value
  again. A refresh token collides more easily: a signed refresh token is a function of the
  account and of the second of the call, so the hash of a second token signed for an
  account within the same second is already stored.
\<close>

text \<open>
  A \<^verbatim>\<open>varchar(n)\<close> column takes a value of at most \<open>n\<close> characters. PostgreSQL refuses a
  longer one with the error \<^verbatim>\<open>value too long for type character varying(n)\<close>, unless all
  the characters after the \<open>n\<close>-th are spaces: those it cuts off, as the SQL standard asks,
  and stores the first \<open>n\<close>. So \<open>varchar_ok n v\<close> says that the column takes \<open>v\<close>, and
  \<open>varchar n v\<close> is what it then holds; for a value of at most \<open>n\<close> characters that is \<open>v\<close>
  itself. The hash of a refresh token and a one-time token are 64 hexadecimal digits, and
  the hash of a password is shorter still, so only the columns written from the arguments
  of a call can overflow.
\<close>

definition varchar_ok :: "nat \<Rightarrow> string \<Rightarrow> bool" where
  "varchar_ok n v \<longleftrightarrow> list_all (\<lambda>c. c = CHR '' '') (drop n v)"

definition varchar :: "nat \<Rightarrow> string \<Rightarrow> string" where
  "varchar n v = take n v"

fun varchar_ok_null :: "nat \<Rightarrow> string option \<Rightarrow> bool" where
  "varchar_ok_null n None = True"
| "varchar_ok_null n (Some v) = varchar_ok n v"

text \<open>
  The insert into \<^verbatim>\<open>users\<close> with \<^verbatim>\<open>returning()\<close>: the columns that \<^verbatim>\<open>register\<close> and
  \<^verbatim>\<open>handleOAuthCallback\<close> give, the others at their defaults. It returns the row as stored.
\<close>

definition insert_users ::
    "string \<Rightarrow> bool \<Rightarrow> password_hash option \<Rightarrow> string option \<Rightarrow> string option \<Rightarrow> timestamp \<Rightarrow>
     state \<Rightarrow> app_error + state \<times> user_row" where
  "insert_users email emailVerified passwordHash displayName avatarUrl now s =
     (if \<not> varchar_ok 255 email \<or> \<not> varchar_ok_null 255 displayName
      then Inl (DatabaseError ''value too long for type character varying(255)'')
      else if list_ex (\<lambda>u. u_email u = Some (varchar 255 email)) (users s)
      then Inl (DatabaseError ''duplicate key value violates unique constraint on email'')
      else
        let newUser = \<lparr>u_id = nextId s, u_email = Some (varchar 255 email),
                       u_emailVerified = emailVerified, u_passwordHash = passwordHash,
                       u_displayName = map_option (varchar 255) displayName,
                       u_avatarUrl = avatarUrl, u_phoneNumber = None, u_status = Active,
                       u_createdAt = now, u_updatedAt = now, u_lastLoginAt = None\<rparr>
        in Inr (s\<lparr>users := users s @ [newUser], nextId := Suc (nextId s)\<rparr>, newUser))"

definition insert_refreshTokens ::
    "uuid \<Rightarrow> digest \<Rightarrow> device_info \<Rightarrow> timestamp \<Rightarrow> timestamp \<Rightarrow> state \<Rightarrow> app_error + state" where
  "insert_refreshTokens userId tokenHash deviceInfo expiresAt now s =
     (if list_ex (\<lambda>r. rt_tokenHash r = tokenHash) (refreshTokens s)
      then Inl (DatabaseError ''duplicate key value violates unique constraint on token_hash'')
      else Inr (s\<lparr>refreshTokens := refreshTokens s @
                  [\<lparr>rt_id = nextId s, rt_userId = userId, rt_tokenHash = tokenHash,
                    rt_deviceInfo = deviceInfo, rt_expiresAt = expiresAt,
                    rt_createdAt = now, rt_revokedAt = None\<rparr>],
                nextId := Suc (nextId s)\<rparr>))"

definition insert_verificationTokens ::
    "uuid \<Rightarrow> token \<Rightarrow> token_type \<Rightarrow> timestamp \<Rightarrow> timestamp \<Rightarrow> state \<Rightarrow> app_error + state" where
  "insert_verificationTokens userId tok tokenType expiresAt now s =
     (if list_ex (\<lambda>r. vt_token r = tok) (verificationTokens s)
      then Inl (DatabaseError ''duplicate key value violates unique constraint on token'')
      else Inr (s\<lparr>verificationTokens := verificationTokens s @
                  [\<lparr>vt_id = nextId s, vt_userId = userId, vt_token = tok,
                    vt_tokenType = tokenType, vt_expiresAt = expiresAt,
                    vt_usedAt = None, vt_createdAt = now\<rparr>],
                nextId := Suc (nextId s)\<rparr>))"

definition revoke_where :: "(refresh_row \<Rightarrow> bool) \<Rightarrow> timestamp \<Rightarrow> state \<Rightarrow> state" where
  "revoke_where P now s =
     s\<lparr>refreshTokens :=
         map (\<lambda>r. if P r then r\<lparr>rt_revokedAt := Some now\<rparr> else r) (refreshTokens s)\<rparr>"

definition mark_used :: "uuid \<Rightarrow> timestamp \<Rightarrow> state \<Rightarrow> state" where
  "mark_used tid now s =
     s\<lparr>verificationTokens :=
         map (\<lambda>r. if vt_id r = tid then r\<lparr>vt_usedAt := Some now\<rparr> else r) (verificationTokens s)\<rparr>"

definition update_users :: "uuid \<Rightarrow> (user_row \<Rightarrow> user_row) \<Rightarrow> state \<Rightarrow> state" where
  "update_users uid f s = s\<lparr>users := map (\<lambda>u. if u_id u = uid then f u else u) (users s)\<rparr>"

definition send :: "mail \<Rightarrow> state \<Rightarrow> state" where
  "send m s = s\<lparr>outbox := outbox s @ [m]\<rparr>"

text \<open>
  \<^verbatim>\<open>AuthService.logAuditEvent\<close>: the insert into the audit log. The database refuses the
  row when its user id is that of no account or its address is too long for the column;
  the error is caught there and only logged, so the caller goes on either way, without the
  row.
\<close>

definition logAuditEvent ::
    "uuid option \<Rightarrow> AuditEventType \<Rightarrow> string option \<Rightarrow> string option \<Rightarrow>
     (string \<times> string) list \<Rightarrow> bool \<Rightarrow> timestamp \<Rightarrow> state \<Rightarrow> state" where
  "logAuditEvent userId eventType ipAddress userAgent' metadata success now s =
     (if (case userId of None \<Rightarrow> False | Some i \<Rightarrow> \<not> list_ex (\<lambda>u. u_id u = i) (users s)) \<or>
         \<not> varchar_ok_null 45 (or_null ipAddress)
      then s
      else
        s\<lparr>authAuditLog := authAuditLog s @
            [\<lparr>al_id = nextId s, al_userId = userId, al_eventType = eventType,
              al_ipAddress = map_option (varchar 45) (or_null ipAddress),
              al_userAgent = or_null userAgent',
              al_metadata = metadata, al_success = success, al_createdAt = now\<rparr>],
          nextId := Suc (nextId s)\<rparr>)"

fun provider_name :: "oauth_provider \<Rightarrow> string" where
  "provider_name Google = ''google''"
| "provider_name Facebook = ''facebook''"
| "provider_name Apple = ''apple''"

definition days30 :: int where
  "days30 = 30 * 24 * 60 * 60 * 1000"

section \<open>AuthService (src/services/authService.ts)\<close>

text \<open>
  Every operation takes the clock reading \<open>now\<close> of the call and the store, and returns
  the store it leaves behind with either the error it throws or the value it returns. The
  readings of the clock within one call (\<^verbatim>\<open>new Date()\<close>, \<^verbatim>\<open>Date.now()\<close>) are taken to be
  that one reading. No operation runs in a transaction, so the writes made before a throw
  stay.
\<close>

definition to_view :: "user_row \<Rightarrow> user_view" where
  "to_view u = \<lparr>uv_id = u_id u, uv_email = u_email u, uv_displayName = u_displayName u,
               uv_emailVerified = u_emailVerified u, uv_avatarUrl = u_avatarUrl u\<rparr>"

definition register ::
    "timestamp \<Rightarrow> string \<Rightarrow> string \<Rightarrow> RegisterDto \<Rightarrow> device_info option \<Rightarrow> state \<Rightarrow>
     state \<times> (app_error + register_view \<times> string)" where
  "register now salt rnd data deviceInfo s =
     (let passwordValidation = validatePasswordStrength (rd_password data) in
      if \<not> valid passwordValidation
      then (s, Inl (ValidationError (join '', '' (errors passwordValidation))))
      else
        case find (\<lambda>u. u_email u = Some (rd_email data)) (users s) of
          Some existingUser \<Rightarrow> (s, Inl (ConflictError ''User with this email already exists''))
        | None \<Rightarrow>
            let passwordHash = hashPassword salt (rd_password data)
            in (case insert_users (rd_email data) False (Some passwordHash)
                       (or_null (rd_displayName data)) None now s of
                  Inl e \<Rightarrow> (s, Inl e)
                | Inr (s1, newUser) \<Rightarrow>
                    let verificationToken = generateToken rnd;
                        expiresAt = now + 24 * 60 * 60 * 1000
                    in (case insert_verificationTokens (u_id newUser) verificationToken
                               EmailVerification expiresAt now s1 of
                          Inl e \<Rightarrow> (s1, Inl e)
                        | Inr s2 \<Rightarrow>
                            let s3 = send (VerificationEmail (u_email newUser) verificationToken) s2;
                                s4 = logAuditEvent (Some (u_id newUser)) REGISTER
                                       (opt_ip deviceInfo) (opt_userAgent deviceInfo) [] True now s3
                            in (s4, Inr (\<lparr>rv_id = u_id newUser, rv_email = u_email newUser,
                                           rv_displayName = u_displayName newUser,
                                           rv_emailVerified = u_emailVerified newUser\<rparr>,
                                         ''Registration successful. Please check your email to verify your account.'')))))"

text \<open>
  The tail shared by \<^verbatim>\<open>login\<close> and \<^verbatim>\<open>handleOAuthCallback\<close>: sign a token pair, store the
  hash of the refresh token with a 30-day expiry, update the last login, log \<^verbatim>\<open>LOGIN\<close>.
\<close>

definition issue_tokens ::
    "jwt_config \<Rightarrow> timestamp \<Rightarrow> user_row \<Rightarrow> device_info option \<Rightarrow> (string \<times> string) list \<Rightarrow>
     state \<Rightarrow> state \<times> (app_error + login_result)" where
  "issue_tokens cfg now usr deviceInfo metadata s =
     (let tokens = generateTokenPair cfg now (u_id usr) (u_email usr);
          refreshTokenHash = hashToken (tp_refreshToken tokens);
          expiresAt = now + days30
      in case insert_refreshTokens (u_id usr) refreshTokenHash (device_or_empty deviceInfo)
                expiresAt now s of
           Inl e \<Rightarrow> (s, Inl e)
         | Inr s1 \<Rightarrow>
             let s2 = update_users (u_id usr) (\<lambda>u. u\<lparr>u_lastLoginAt := Some now\<rparr>) s1;
                 s3 = logAuditEvent (Some (u_id usr)) LOGIN (opt_ip deviceInfo)
                        (opt_userAgent deviceInfo) metadata True now s2
             in (s3, Inr \<lparr>res_accessToken = tp_accessToken tokens,
                          res_refreshToken = tp_refreshToken tokens,
                          res_tokenType = ''Bearer'', res_expiresIn = tp_expiresIn tokens,
                          res_user = to_view usr\<rparr>))"

definition login ::
    "jwt_config \<Rightarrow> timestamp \<Rightarrow> LoginDto \<Rightarrow> device_info option \<Rightarrow> state \<Rightarrow>
     state \<times> (app_error + login_result)" where
  "login cfg now data deviceInfo s =
     (let not_found =
            (logAuditEvent None LOGIN_FAILED (opt_ip deviceInfo) (opt_userAgent deviceInfo)
               [(''email'', ld_email data), (''reason'', ''user_not_found'')] False now s,
             Inl (UnauthorizedError ''Invalid email or password''))
      in case find (\<lambda>u. u_email u = Some (ld_email data)) (users s) of
           None \<Rightarrow> not_found
         | Some usr \<Rightarrow>
             (case u_passwordHash usr of
                None \<Rightarrow> not_found
              | Some passwordHash \<Rightarrow>
                  if \<not> verifyPassword (ld_password data) passwordHash
                  then (logAuditEvent (Some (u_id usr)) LOGIN_FAILED (opt_ip deviceInfo)
                          (opt_userAgent deviceInfo) [(''reason'', ''invalid_password'')]
                          False now s,
                        Inl (UnauthorizedError ''Invalid email or password''))
                  else if u_status usr \<noteq> Active
                  then (s, Inl (UnauthorizedError ''Account is not active''))
                  else issue_tokens cfg now usr deviceInfo [] s))"


definition refreshAccessToken ::
    "jwt_config \<Rightarrow> timestamp \<Rightarrow> token \<Rightarrow> device_info option \<Rightarrow> state \<Rightarrow>
     state \<times> (app_error + refresh_result)" where
  "refreshAccessToken cfg now rawToken deviceInfo s =
     (let tokenHash = hashToken rawToken in
      case find (\<lambda>r. rt_tokenHash r = tokenHash \<and> rt_expiresAt r > now) (refreshTokens s) of
        None \<Rightarrow> (s, Inl (UnauthorizedError ''Invalid or expired refresh token''))
      | Some tok \<Rightarrow>
          if rt_revokedAt tok \<noteq> None
          then (s, Inl (UnauthorizedError ''Invalid or expired refresh token''))
          else
            (case find (\<lambda>u. u_id u = rt_userId tok) (users s) of
               None \<Rightarrow> (s, Inl (UnauthorizedError ''User not found or inactive''))
             | Some usr \<Rightarrow>
                 if u_status usr \<noteq> Active
                 then (s, Inl (UnauthorizedError ''User not found or inactive''))
                 else
                   let tokens = generateTokenPair cfg now (u_id usr) (u_email usr);
                       s1 = revoke_where (\<lambda>r. rt_id r = rt_id tok) now s;
                       newTokenHash = hashToken (tp_refreshToken tokens);
                       expiresAt = now + days30
                   in (case insert_refreshTokens (u_id usr) newTokenHash
                              (device_or_empty deviceInfo) expiresAt now s1 of
                         Inl e \<Rightarrow> (s1, Inl e)
                       | Inr s2 \<Rightarrow>
                           (logAuditEvent (Some (u_id usr)) TOKEN_REFRESH (opt_ip deviceInfo)
                              (opt_userAgent deviceInfo) [] True now s2,
                            Inr \<lparr>res_accessToken = tp_accessToken tokens,
                                 res_refreshToken = tp_refreshToken tokens,
                                 res_tokenType = ''Bearer'',
                                 res_expiresIn = tp_expiresIn tokens\<rparr>))))"

definition logout ::
    "timestamp \<Rightarrow> token \<Rightarrow> uuid \<Rightarrow> device_info option \<Rightarrow> state \<Rightarrow> state \<times> (app_error + string)" where
  "logout now rawToken userId deviceInfo s =
     (let tokenHash = hashToken rawToken;
          s1 = revoke_where (\<lambda>r. rt_tokenHash r = tokenHash \<and> rt_userId r = userId) now s;
          s2 = logAuditEvent (Some userId) LOGOUT (opt_ip deviceInfo) (opt_userAgent deviceInfo)
                 [] True now s1
      in (s2, Inr ''Logged out successfully''))"

definition verifyEmail ::
    "timestamp \<Rightarrow> token \<Rightarrow> state \<Rightarrow> state \<times> (app_error + string)" where
  "verifyEmail now tok s =
     (case find (\<lambda>r. vt_token r = tok \<and> vt_tokenType r = EmailVerification \<and> vt_expiresAt r > now)
             (verificationTokens s) of
        None \<Rightarrow> (s, Inl (ValidationError ''Invalid or expired verification token''))
      | Some verificationToken \<Rightarrow>
          if vt_usedAt verificationToken \<noteq> None
          then (s, Inl (ValidationError ''Invalid or expired verification token''))
          else
            let s1 = update_users (vt_userId verificationToken)
                       (\<lambda>u. u\<lparr>u_emailVerified := True\<rparr>) s;
                s2 = mark_used (vt_id verificationToken) now s1
            in (case find (\<lambda>u. u_id u = vt_userId verificationToken) (users s2) of
                  None \<Rightarrow> (s2, Inr ''Email verified successfully'')
                | Some usr \<Rightarrow>
                    let s3 = send (WelcomeEmail (u_email usr) (or_null (u_displayName usr))) s2;
                        s4 = logAuditEvent (Some (u_id usr)) EMAIL_VERIFY None None [] True now s3
                    in (s4, Inr ''Email verified successfully'')))"

definition requestPasswordReset ::
    "timestamp \<Rightarrow> string \<Rightarrow> string \<Rightarrow> device_info option \<Rightarrow> state \<Rightarrow>
     state \<times> (app_error + string)" where
  "requestPasswordReset now rnd email deviceInfo s =
     (case find (\<lambda>u. u_email u = Some email) (users s) of
        None \<Rightarrow> (s, Inr ''If the email exists, a password reset link has been sent'')
      | Some usr \<Rightarrow>
          let resetToken = generateToken rnd;
              expiresAt = now + 60 * 60 * 1000
          in (case insert_verificationTokens (u_id usr) resetToken PasswordReset expiresAt now s of
                Inl e \<Rightarrow> (s, Inl e)
              | Inr s1 \<Rightarrow>
                  let s2 = send (PasswordResetEmail (u_email usr) resetToken) s1;
                      s3 = logAuditEvent (Some (u_id usr)) PASSWORD_RESET_REQUEST
                             (opt_ip deviceInfo) (opt_userAgent deviceInfo) [] True now s2
                  in (s3, Inr ''If the email exists, a password reset link has been sent'')))"

definition resetPassword ::
    "timestamp \<Rightarrow> string \<Rightarrow> token \<Rightarrow> string \<Rightarrow> device_info option \<Rightarrow> state \<Rightarrow>
     state \<times> (app_error + string)" where
  "resetPassword now salt tok newPassword deviceInfo s =
     (let passwordValidation = validatePasswordStrength newPassword in
      if \<not> valid passwordValidation
      then (s, Inl (ValidationError (join '', '' (errors passwordValidation))))
      else
        case find (\<lambda>r. vt_token r = tok \<and> vt_tokenType r = PasswordReset \<and> vt_expiresAt r > now)
               (verificationTokens s) of
          None \<Rightarrow> (s, Inl (ValidationError ''Invalid or expired reset token''))
        | Some resetToken \<Rightarrow>
            if vt_usedAt resetToken \<noteq> None
            then (s, Inl (ValidationError ''Invalid or expired reset token''))
            else
              let passwordHash = hashPassword salt newPassword;
                  s1 = update_users (vt_userId resetToken)
                         (\<lambda>u. u\<lparr>u_passwordHash := Some passwordHash\<rparr>) s;
                  s2 = mark_used (vt_id resetToken) now s1;
                  s3 = revoke_where (\<lambda>r. rt_userId r = vt_userId resetToken) now s2;
                  s4 = logAuditEvent (Some (vt_userId resetToken)) PASSWORD_RESET
                         (opt_ip deviceInfo) (opt_userAgent deviceInfo) [] True now s3
              in (s4, Inr ''Password reset successfully''))"


text \<open>
  \<^verbatim>\<open>update(oauthProviders).set({accessToken, refreshToken, tokenExpiresAt})\<close>: the query
  builder leaves out of the statement every key whose value is \<^verbatim>\<open>undefined\<close>, so an absent
  \<^verbatim>\<open>refreshToken\<close> or \<^verbatim>\<open>expiresAt\<close> of the profile keeps the stored value.
\<close>

definition set_oauth_tokens :: "OAuthProfile \<Rightarrow> oauth_row \<Rightarrow> oauth_row" where
  "set_oauth_tokens profile r =
     r\<lparr>op_accessToken := Some (p_accessToken profile),
       op_refreshToken := (case p_refreshToken profile of
                             None \<Rightarrow> op_refreshToken r | Some v \<Rightarrow> Some v),
       op_tokenExpiresAt := (case p_expiresAt profile of
                               None \<Rightarrow> op_tokenExpiresAt r | Some v \<Rightarrow> Some v)\<rparr>"

definition update_oauthProviders :: "uuid \<Rightarrow> OAuthProfile \<Rightarrow> state \<Rightarrow> state" where
  "update_oauthProviders rid profile s =
     s\<lparr>oauthProviders :=
         map (\<lambda>r. if op_id r = rid then set_oauth_tokens profile r else r) (oauthProviders s)\<rparr>"

definition insert_oauthProviders ::
    "uuid \<Rightarrow> OAuthProfile \<Rightarrow> timestamp \<Rightarrow> state \<Rightarrow> app_error + state" where
  "insert_oauthProviders userId profile now s =
     (if \<not> varchar_ok 255 (p_providerId profile) \<or> \<not> varchar_ok 255 (p_email profile)
      then Inl (DatabaseError ''value too long for type character varying(255)'')
      else if list_ex (\<lambda>r. op_provider r = p_provider profile \<and>
                            op_providerUserId r = varchar 255 (p_providerId profile))
                (oauthProviders s)
      then Inl (DatabaseError ''duplicate key value violates unique constraint idx_oauth_provider'')
      else
        Inr (s\<lparr>oauthProviders := oauthProviders s @
                 [\<lparr>op_id = nextId s, op_userId = userId, op_provider = p_provider profile,
                   op_providerUserId = varchar 255 (p_providerId profile),
                   op_providerEmail = Some (varchar 255 (p_email profile)),
                   op_accessToken = Some (p_accessToken profile),
                   op_refreshToken = p_refreshToken profile,
                   op_tokenExpiresAt = p_expiresAt profile,
                   op_createdAt = now, op_updatedAt = now\<rparr>],
               nextId := Suc (nextId s)\<rparr>))"

text \<open>
  The first half of \<^verbatim>\<open>handleOAuthCallback\<close> (the \<^verbatim>\<open>if (existingProvider) ... else ...\<close>
  block): it leaves the resolved user, if any, and the flag \<^verbatim>\<open>isNewUser\<close>, unless one of
  its inserts throws. \<open>find_or_create_user\<close> is the inner \<^verbatim>\<open>if (existingUser) ... else ...\<close>.
\<close>

definition find_or_create_user ::
    "timestamp \<Rightarrow> OAuthProfile \<Rightarrow> device_info option \<Rightarrow> state \<Rightarrow>
     state \<times> (app_error + user_row \<times> bool)" where
  "find_or_create_user now profile deviceInfo s =
     (case find (\<lambda>u. u_email u = Some (p_email profile)) (users s) of
        Some existingUser \<Rightarrow> (s, Inr (existingUser, False))
      | None \<Rightarrow>
          (case insert_users (p_email profile) True None (or_null (p_displayName profile))
                  (or_null (p_avatarUrl profile)) now s of
             Inl e \<Rightarrow> (s, Inl e)
           | Inr (s1, newUser) \<Rightarrow>
               (logAuditEvent (Some (u_id newUser)) REGISTER (opt_ip deviceInfo)
                  (opt_userAgent deviceInfo)
                  [(''provider'', provider_name (p_provider profile))] True now s1,
                Inr (newUser, True))))"

definition resolve_user ::
    "timestamp \<Rightarrow> OAuthProfile \<Rightarrow> device_info option \<Rightarrow> state \<Rightarrow>
     state \<times> (app_error + user_row option \<times> bool)" where
  "resolve_user now profile deviceInfo s =
     (case find (\<lambda>r. op_provider r = p_provider profile \<and>
                      op_providerUserId r = p_providerId profile) (oauthProviders s) of
        Some existingProvider \<Rightarrow>
          (update_oauthProviders (op_id existingProvider) profile s,
           Inr (find (\<lambda>u. u_id u = op_userId existingProvider) (users s), False))
      | None \<Rightarrow>
          (case find_or_create_user now profile deviceInfo s of
             (s2, Inl e) \<Rightarrow> (s2, Inl e)
           | (s2, Inr (usr, isNew)) \<Rightarrow>
               (case insert_oauthProviders (u_id usr) profile now s2 of
                  Inl e \<Rightarrow> (s2, Inl e)
                | Inr s3 \<Rightarrow>
                    (logAuditEvent (Some (u_id usr)) OAUTH_LINK (opt_ip deviceInfo)
                       (opt_userAgent deviceInfo)
                       [(''provider'', provider_name (p_provider profile))] True now s3,
                     Inr (Some usr, isNew)))))"

definition handleOAuthCallback ::
    "jwt_config \<Rightarrow> timestamp \<Rightarrow> OAuthProfile \<Rightarrow> device_info option \<Rightarrow> state \<Rightarrow>
     state \<times> (app_error + oauth_result)" where
  "handleOAuthCallback cfg now profile deviceInfo s =
     (case resolve_user now profile deviceInfo s of
        (s1, Inl e) \<Rightarrow> (s1, Inl e)
      | (s1, Inr (None, isNew)) \<Rightarrow> (s1, Inl (Error ''Failed to create or find user''))
      | (s1, Inr (Some usr, isNew)) \<Rightarrow>
          (case issue_tokens cfg now usr deviceInfo
                  [(''provider'', provider_name (p_provider profile))] s1 of
             (s2, Inl e) \<Rightarrow> (s2, Inl e)
           | (s2, Inr r) \<Rightarrow>
               (s2, Inr \<lparr>res_accessToken = res_accessToken r,
                         res_refreshToken = res_refreshToken r,
                         res_tokenType = res_tokenType r, res_expiresIn = res_expiresIn r,
                         res_user = res_user r, res_isNewUser = isNew\<rparr>)))"

text \<open>
  \<^verbatim>\<open>removeOAuthProvider\<close> returns \<^verbatim>\<open>false\<close> when the identity is not linked.
\<close>

definition removeOAuthProvider ::
    "timestamp \<Rightarrow> oauth_provider \<Rightarrow> string \<Rightarrow> device_info option \<Rightarrow> state \<Rightarrow> state \<times> bool" where
  "removeOAuthProvider now provider providerUserId deviceInfo s =
     (case find (\<lambda>r. op_provider r = provider \<and> op_providerUserId r = providerUserId)
             (oauthProviders s) of
        None \<Rightarrow> (s, False)
      | Some existingProvider \<Rightarrow>
          let s1 = s\<lparr>oauthProviders :=
                       filter (\<lambda>r. op_id r \<noteq> op_id existingProvider) (oauthProviders s)\<rparr>;
              s2 = logAuditEvent (Some (op_userId existingProvider)) OAUTH_UNLINK
                     (opt_ip deviceInfo) (opt_userAgent deviceInfo)
                     [(''provider'', provider_name provider), (''providerUserId'', providerUserId)]
                     True now s1
          in (s2, True))"

subsection \<open>The profile update of src/controllers/authController.ts\<close>

text \<open>
  The one write to the store outside the service. Only the fields present in the request
  are set; the query builder throws when none is, and the database when a value is too
  long for its column.
\<close>

definition updateProfile ::
    "uuid \<Rightarrow> string option \<Rightarrow> string option \<Rightarrow> string option \<Rightarrow> state \<Rightarrow>
     state \<times> (app_error + user_row option)" where
  "updateProfile userId displayName phoneNumber avatarUrl s =
     (if displayName = None \<and> phoneNumber = None \<and> avatarUrl = None
      then (s, Inl (Error ''No values to set''))
      else if \<not> varchar_ok_null 255 displayName
      then (s, Inl (DatabaseError ''value too long for type character varying(255)''))
      else if \<not> varchar_ok_null 50 phoneNumber
      then (s, Inl (DatabaseError ''value too long for type character varying(50)''))
      else
        let s1 = update_users userId
                   (\<lambda>u. u\<lparr>u_displayName := (case displayName of
                                                 None \<Rightarrow> u_displayName u
                                               | Some v \<Rightarrow> Some (varchar 255 v)),
                           u_phoneNumber := (case phoneNumber of
                                                 None \<Rightarrow> u_phoneNumber u
                                               | Some v \<Rightarrow> Some (varchar 50 v)),
                           u_avatarUrl := (case avatarUrl of
                                               None \<Rightarrow> u_avatarUrl u | Some v \<Rightarrow> Some v)\<rparr>) s
        in (s1, Inr (find (\<lambda>u. u_id u = userId) (users s1))))"


section \<open>Runs of the system\<close>

text \<open>
  Every call that writes to the store, with its arguments. The signing configuration is
  process-wide and the same for a whole run.
\<close>

datatype operation =
    Register timestamp string string RegisterDto "device_info option"
  | Login timestamp LoginDto "device_info option"
  | RefreshAccessToken timestamp token "device_info option"
  | Logout timestamp token uuid "device_info option"
  | VerifyEmail timestamp token
  | RequestPasswordReset timestamp string string "device_info option"
  | ResetPassword timestamp string token string "device_info option"
  | HandleOAuthCallback timestamp OAuthProfile "device_info option"
  | RemoveOAuthProvider timestamp oauth_provider string "device_info option"
  | UpdateProfile uuid "string option" "string option" "string option"

fun exec :: "jwt_config \<Rightarrow> operation \<Rightarrow> state \<Rightarrow> state" where
  "exec cfg (Register now salt rnd data d) s = fst (register now salt rnd data d s)"
| "exec cfg (Login now data d) s = fst (login cfg now data d s)"
| "exec cfg (RefreshAccessToken now t d) s = fst (refreshAccessToken cfg now t d s)"
| "exec cfg (Logout now t uid d) s = fst (logout now t uid d s)"
| "exec cfg (VerifyEmail now t) s = fst (verifyEmail now t s)"
| "exec cfg (RequestPasswordReset now rnd email d) s = fst (requestPasswordReset now rnd email d s)"
| "exec cfg (ResetPassword now salt t pw d) s = fst (resetPassword now salt t pw d s)"
| "exec cfg (HandleOAuthCallback now p d) s = fst (handleOAuthCallback cfg now p d s)"
| "exec cfg (RemoveOAuthProvider now p pid d) s = fst (removeOAuthProvider now p pid d s)"
| "exec cfg (UpdateProfile uid dn ph av) s = fst (updateProfile uid dn ph av s)"

fun run :: "jwt_config \<Rightarrow> operation list \<Rightarrow> state \<Rightarrow> state" where
  "run cfg [] s = s"
| "run cfg (x # xs) s = run cfg xs (exec cfg x s)"

definition init :: state where
  "init = \<lparr>users = [], oauthProviders = [], refreshTokens = [], verificationTokens = [],
           authAuditLog = [], outbox = [], nextId = 0\<rparr>"

subsection \<open>The constraints of the schema\<close>

text \<open>
  The unique indexes: \<^verbatim>\<open>users.email\<close> (among the rows that have one),
  \<^verbatim>\<open>oauth_providers (provider, provider_user_id)\<close>, \<^verbatim>\<open>refresh_tokens.token_hash\<close> and
  \<^verbatim>\<open>verification_tokens.token\<close>.
\<close>

definition oauth_key :: "oauth_row \<Rightarrow> oauth_provider \<times> string" where
  "oauth_key r = (op_provider r, op_providerUserId r)"

definition wf_unique :: "state \<Rightarrow> bool" where
  "wf_unique s \<longleftrightarrow>
     distinct (filter (\<lambda>e. e \<noteq> None) (map u_email (users s))) \<and>
     distinct (map oauth_key (oauthProviders s)) \<and>
     distinct (map rt_tokenHash (refreshTokens s)) \<and>
     distinct (map vt_token (verificationTokens s))"

text \<open>The primary keys: distinct in each table, and all drawn from the counter.\<close>

definition wf_ids :: "state \<Rightarrow> bool" where
  "wf_ids s \<longleftrightarrow>
     distinct (map u_id (users s)) \<and> list_all (\<lambda>r. u_id r < nextId s) (users s) \<and>
     distinct (map op_id (oauthProviders s)) \<and>
     list_all (\<lambda>r. op_id r < nextId s) (oauthProviders s) \<and>
     distinct (map rt_id (refreshTokens s)) \<and>
     list_all (\<lambda>r. rt_id r < nextId s) (refreshTokens s) \<and>
     distinct (map vt_id (verificationTokens s)) \<and>
     list_all (\<lambda>r. vt_id r < nextId s) (verificationTokens s)"

text \<open>The foreign keys to \<^verbatim>\<open>users.id\<close>.\<close>

definition wf_refs :: "state \<Rightarrow> bool" where
  "wf_refs s \<longleftrightarrow>
     list_all (\<lambda>r. op_userId r \<in> set (map u_id (users s))) (oauthProviders s) \<and>
     list_all (\<lambda>r. rt_userId r \<in> set (map u_id (users s))) (refreshTokens s) \<and>
     list_all (\<lambda>r. vt_userId r \<in> set (map u_id (users s))) (verificationTokens s)"

definition wf :: "state \<Rightarrow> bool" where
  "wf s \<longleftrightarrow> wf_unique s \<and> wf_ids s \<and> wf_refs s"

text \<open>The length limits of the \<^verbatim>\<open>varchar\<close> columns that the calls write from their arguments.\<close>

fun fits :: "nat \<Rightarrow> string option \<Rightarrow> bool" where
  "fits n None = True"
| "fits n (Some v) = (length v \<le> n)"

definition wf_cols :: "state \<Rightarrow> bool" where
  "wf_cols s \<longleftrightarrow>
     list_all (\<lambda>u. fits 255 (u_email u) \<and> fits 255 (u_displayName u) \<and>
                   fits 50 (u_phoneNumber u)) (users s) \<and>
     list_all (\<lambda>r. length (op_providerUserId r) \<le> 255 \<and> fits 255 (op_providerEmail r))
       (oauthProviders s) \<and>
     list_all (\<lambda>a. fits 45 (al_ipAddress a)) (authAuditLog s)"


subsection \<open>How the token tables change\<close>

text \<open>
  The ways a call changes the table of refresh tokens: a set of rows is revoked, or a row
  with a hash that no row has is added. Rows are never deleted and a revocation is never
  undone.
\<close>

inductive rt_step :: "refresh_row list \<Rightarrow> refresh_row list \<Rightarrow> bool" where
  rt_same: "rt_step rows rows"
| rt_revoke: "rt_step rows (map (\<lambda>r. if P r then r\<lparr>rt_revokedAt := Some n\<rparr> else r) rows)"
| rt_add: "rt_tokenHash r \<notin> rt_tokenHash ` set rows \<Longrightarrow> rt_revokedAt r = None \<Longrightarrow>
           rt_step rows (rows @ [r])"
| rt_trans: "rt_step a b \<Longrightarrow> rt_step b c \<Longrightarrow> rt_step a c"

text \<open>
  The same for the one-time tokens: a row is marked used, or a row with a token that no
  row has is added.
\<close>

inductive vt_step :: "verification_row list \<Rightarrow> verification_row list \<Rightarrow> bool" where
  vt_same: "vt_step rows rows"
| vt_use: "vt_step rows (map (\<lambda>r. if vt_id r = i then r\<lparr>vt_usedAt := Some n\<rparr> else r) rows)"
| vt_add: "vt_token r \<notin> vt_token ` set rows \<Longrightarrow> vt_usedAt r = None \<Longrightarrow>
           vt_step rows (rows @ [r])"
| vt_trans: "vt_step a b \<Longrightarrow> vt_step b c \<Longrightarrow> vt_step a c"

text \<open>A hash is revoked when the table has a row for it and every such row is revoked.\<close>

definition revoked_hash :: "digest \<Rightarrow> refresh_row list \<Rightarrow> bool" where
  "revoked_hash h rows \<longleftrightarrow>
     list_ex (\<lambda>r. rt_tokenHash r = h) rows \<and>
     list_all (\<lambda>r. rt_tokenHash r = h \<longrightarrow> rt_revokedAt r \<noteq> None) rows"



text \<open>The columns that the constraints of the schema speak about.\<close>

definition keys ::
    "state \<Rightarrow> (uuid list \<times> string option list) \<times>
              (uuid list \<times> (oauth_provider \<times> string) list \<times> uuid list) \<times>
              (uuid list \<times> digest list \<times> uuid list) \<times>
              (uuid list \<times> token list \<times> uuid list)" where
  "keys s =
     ((map u_id (users s), map u_email (users s)),
      (map op_id (oauthProviders s), map oauth_key (oauthProviders s),
       map op_userId (oauthProviders s)),
      (map rt_id (refreshTokens s), map rt_tokenHash (refreshTokens s),
       map rt_userId (refreshTokens s)),
      (map vt_id (verificationTokens s), map vt_token (verificationTokens s),
       map vt_userId (verificationTokens s)))"

section \<open>Example data\<close>

definition ex_cfg :: jwt_config where
  "ex_cfg = \<lparr>secret = ''test-secret'', accessTokenExpiry = Minutes 15,
             refreshTokenExpiry = Days 30\<rparr>"

definition ex_register :: operation where
  "ex_register = Register 0 ''salt'' ''c0ffee''
     \<lparr>rd_email = ''a@x.com'', rd_password = ''Passw0rd!'', rd_displayName = Some ''Ann''\<rparr> None"

definition ex_login :: operation where
  "ex_login = Login 1000 \<lparr>ld_email = ''a@x.com'', ld_password = ''Passw0rd!''\<rparr> None"

text \<open>The store after a registration and a login, and the refresh token of that login.\<close>

definition ex_state :: state where
  "ex_state = run ex_cfg [ex_register, ex_login] init"

definition ex_token :: token where
  "ex_token = generateRefreshToken ex_cfg 1000 0 (Some ''a@x.com'')"

definition ex_login2 :: operation where
  "ex_login2 = Login 7000 \<lparr>ld_email = ''a@x.com'', ld_password = ''Passw0rd!''\<rparr> None"

text \<open>Two assertions of the same Google identity, with the email of the registered account.\<close>

definition ex_google :: OAuthProfile where
  "ex_google = \<lparr>p_provider = Google, p_providerId = ''g-1'', p_email = ''a@x.com'',
                p_displayName = Some ''Ann'', p_avatarUrl = None, p_accessToken = ''at-1'',
                p_refreshToken = Some ''rt-1'', p_expiresAt = None\<rparr>"

definition ex_google2 :: OAuthProfile where
  "ex_google2 = ex_google\<lparr>p_accessToken := ''at-2'', p_refreshToken := None\<rparr>"

definition ex_oauth1 :: "state \<times> (app_error + oauth_result)" where
  "ex_oauth1 = handleOAuthCallback ex_cfg 2000 ex_google None ex_state"

definition ex_oauth2 :: "state \<times> (app_error + oauth_result)" where
  "ex_oauth2 = handleOAuthCallback ex_cfg 3000 ex_google2 None (fst ex_oauth1)"

text \<open>A password reset is requested after the login, then carried out.\<close>

definition ex_reset_state :: state where
  "ex_reset_state = run ex_cfg [RequestPasswordReset 2000 ''beef'' ''a@x.com'' None] ex_state"

definition ex_reset :: "state \<times> (app_error + string)" where
  "ex_reset = resetPassword 3000 ''pepper'' (Plain ''beef'') ''N3w-Passw0rd'' None ex_reset_state"


text \<open>
  An assertion of a Facebook identity with the email of the registered account, and one
  of an Apple identity with an email that no account has.
\<close>

definition ex_facebook :: OAuthProfile where
  "ex_facebook = \<lparr>p_provider = Facebook, p_providerId = ''f-9'', p_email = ''a@x.com'',
                  p_displayName = Some ''Ann'', p_avatarUrl = None, p_accessToken = ''at-f'',
                  p_refreshToken = None, p_expiresAt = None\<rparr>"

definition ex_apple :: OAuthProfile where
  "ex_apple = \<lparr>p_provider = Apple, p_providerId = ''a-3'', p_email = ''b@y.com'',
               p_displayName = None, p_avatarUrl = None, p_accessToken = ''at-a'',
               p_refreshToken = None, p_expiresAt = None\<rparr>"

definition ex_linked :: "state \<times> (app_error + oauth_result)" where
  "ex_linked = handleOAuthCallback ex_cfg 2000 ex_facebook None ex_state"

definition ex_created :: "state \<times> (app_error + oauth_result)" where
  "ex_created = handleOAuthCallback ex_cfg 2000 ex_apple None ex_state"

text \<open>
  Two assertions without an email, as the passport strategies and the Firebase controller
  build them (\<^verbatim>\<open>email: profile.emails?.[0]?.value || ''\<close>), from two providers.
\<close>

definition ex_anon_google :: OAuthProfile where
  "ex_anon_google = \<lparr>p_provider = Google, p_providerId = ''g-7'', p_email = [],
                     p_displayName = Some ''Bob'', p_avatarUrl = None, p_accessToken = ''at-g'',
                     p_refreshToken = None, p_expiresAt = None\<rparr>"

definition ex_anon_facebook :: OAuthProfile where
  "ex_anon_facebook = \<lparr>p_provider = Facebook, p_providerId = ''f-8'', p_email = [],
                       p_displayName = Some ''Eve'', p_avatarUrl = None,
                       p_accessToken = ''at-e'', p_refreshToken = None, p_expiresAt = None\<rparr>"

definition ex_anon1 :: "state \<times> (app_error + oauth_result)" where
  "ex_anon1 = handleOAuthCallback ex_cfg 1000 ex_anon_google None init"

definition ex_anon2 :: "state \<times> (app_error + oauth_result)" where
  "ex_anon2 = handleOAuthCallback ex_cfg 5000 ex_anon_facebook None (fst ex_anon1)"

text \<open>The store of the example with the account suspended.\<close>

definition ex_suspended :: state where
  "ex_suspended = ex_state\<lparr>users := map (\<lambda>u. u\<lparr>u_status := Suspended\<rparr>) (users ex_state)\<rparr>"

text \<open>
  The same registration and login where \<^verbatim>\<open>JWT_REFRESH_TOKEN_EXPIRY\<close> is set to seven days.
\<close>

definition ex_cfg7 :: jwt_config where
  "ex_cfg7 = ex_cfg\<lparr>refreshTokenExpiry := Days 7\<rparr>"

definition ex_state7 :: state where
  "ex_state7 = run ex_cfg7 [ex_register, ex_login] init"

definition ex_token7 :: token where
  "ex_token7 = generateRefreshToken ex_cfg7 1000 0 (Some ''a@x.com'')"

text \<open>The configuration after the signing secret has been changed.\<close>

definition ex_rotated :: jwt_config where
  "ex_rotated = ex_cfg\<lparr>secret := ''rotated-secret''\<rparr>"

text \<open>
  The Facebook assertion is submitted for the suspended account, and once more half a
  second later.
\<close>

definition ex_suspended1 :: "state \<times> (app_error + oauth_result)" where
  "ex_suspended1 = handleOAuthCallback ex_cfg 2000 ex_facebook None ex_suspended"

definition ex_suspended2 :: "state \<times> (app_error + oauth_result)" where
  "ex_suspended2 = handleOAuthCallback ex_cfg 2500 ex_facebook None (fst ex_suspended1)"

text \<open>
  The Facebook assertion arrives half a second after the login of the example. A second
  Facebook assertion has a subject of 256 characters.
\<close>

definition ex_hasty :: "state \<times> (app_error + oauth_result)" where
  "ex_hasty = handleOAuthCallback ex_cfg 1500 ex_facebook None ex_state"

definition ex_long_subject :: OAuthProfile where
  "ex_long_subject = ex_facebook\<lparr>p_providerId := replicate 256 (CHR ''9'')\<rparr>"

definition ex_refused :: "state \<times> (app_error + oauth_result)" where
  "ex_refused = handleOAuthCallback ex_cfg 2000 ex_long_subject None ex_state"

text \<open>The first Google assertion is submitted once more, 0.7 seconds after the first time.\<close>

definition ex_oauth_again :: "state \<times> (app_error + oauth_result)" where
  "ex_oauth_again = handleOAuthCallback ex_cfg 2700 ex_google None (fst ex_oauth1)"

section \<open>Lemmas\<close>

subsection \<open>Queries\<close>

lemma find_SomeD2: "find P xs = Some x \<Longrightarrow> P x \<and> x \<in> set xs"
  by (induction xs) (auto split: if_splits)

lemma find_unique:
  "distinct (map f xs) \<Longrightarrow> find P xs = Some x \<Longrightarrow> y \<in> set xs \<Longrightarrow> f y = f x \<Longrightarrow> y = x"
  using find_SomeD2[of P xs x] by (auto simp: distinct_map inj_on_def)

lemma find_None_notin:
  "find (\<lambda>x. f x = v) xs = None \<Longrightarrow> v \<notin> set (map f xs)"
  by (auto simp: find_None_iff)

lemma find_Some_in: "find P xs = Some x \<Longrightarrow> f x \<in> set (map f xs)"
  using find_SomeD2[of P xs x] by simp

lemma find_distinct:
  "distinct (map f xs) \<Longrightarrow> x \<in> set xs \<Longrightarrow> find (\<lambda>r. f r = f x) xs = Some x"
  by (induction xs) (auto simp: image_iff)

lemma filter_distinct:
  "distinct (map f xs) \<Longrightarrow> x \<in> set xs \<Longrightarrow> filter (\<lambda>r. f r = f x) xs = [x]"
proof (induction xs)
  case Nil
  then show ?case by simp
next
  case (Cons a xs)
  show ?case
  proof (cases "a = x")
    case True
    with Cons.prems have "filter (\<lambda>r. f r = f x) xs = []"
      by (auto simp: filter_empty_conv image_iff)
    with True show ?thesis by simp
  next
    case False
    with Cons show ?thesis by (auto simp: image_iff)
  qed
qed

lemma map_by_id:
  "distinct (map f xs) \<Longrightarrow> x \<in> set xs \<Longrightarrow>
   map (\<lambda>r. if f r = f x then g r else r) xs = map (\<lambda>r. if r = x then g r else r) xs"
  by (auto simp: distinct_map inj_on_def)


lemma find_the_one:
  "x \<in> set xs \<Longrightarrow> P x \<Longrightarrow> (\<forall>y\<in>set xs. P y \<longrightarrow> y = x) \<Longrightarrow> find P xs = Some x"
proof (induction xs)
  case Nil
  then show ?case by simp
next
  case (Cons a xs)
  show ?case
  proof (cases "P a")
    case True
    with Cons.prems have "a = x" by simp
    with True show ?thesis by simp
  next
    case False
    with Cons.prems have "x \<in> set xs" by auto
    moreover from Cons.prems have "\<forall>y\<in>set xs. P y \<longrightarrow> y = x" by simp
    ultimately have "find P xs = Some x" using Cons.IH Cons.prems(2) by blast
    with False show ?thesis by simp
  qed
qed

text \<open>
  A query by a unique column does not depend on the order in which the table returns its
  rows.
\<close>

lemma find_order_irrelevant:
  assumes "distinct (map f xs)" and "set ys = set xs"
  shows "find (\<lambda>r. f r = v \<and> Q r) ys = find (\<lambda>r. f r = v \<and> Q r) xs"
proof (cases "\<exists>x\<in>set xs. f x = v \<and> Q x")
  case False
  then have "find (\<lambda>r. f r = v \<and> Q r) xs = None"
    unfolding find_None_iff by blast
  moreover from False assms(2) have "find (\<lambda>r. f r = v \<and> Q r) ys = None"
    unfolding find_None_iff by blast
  ultimately show ?thesis by simp
next
  case True
  then obtain x where x: "x \<in> set xs" "f x = v \<and> Q x" by blast
  have inj: "inj_on f (set xs)" using assms(1) by (simp add: distinct_map)
  have one: "\<forall>y\<in>set xs. (f y = v \<and> Q y) \<longrightarrow> y = x"
  proof (intro ballI impI)
    fix y assume y: "y \<in> set xs" "f y = v \<and> Q y"
    with x have "f y = f x" by simp
    with inj y(1) x(1) show "y = x" by (simp add: inj_on_def)
  qed
  have "find (\<lambda>r. f r = v \<and> Q r) xs = Some x"
    using x(1) x(2) one by (rule find_the_one)
  moreover have "find (\<lambda>r. f r = v \<and> Q r) ys = Some x"
  proof (rule find_the_one)
    show "x \<in> set ys" using x(1) assms(2) by simp
    show "f x = v \<and> Q x" by (rule x(2))
    show "\<forall>y\<in>set ys. (f y = v \<and> Q y) \<longrightarrow> y = x" using one assms(2) by simp
  qed
  ultimately show ?thesis by simp
qed

subsection \<open>What the store operations leave alone\<close>

lemma revoke_where_frame [simp]:
  "users (revoke_where P n s) = users s"
  "oauthProviders (revoke_where P n s) = oauthProviders s"
  "verificationTokens (revoke_where P n s) = verificationTokens s"
  "authAuditLog (revoke_where P n s) = authAuditLog s"
  "outbox (revoke_where P n s) = outbox s"
  "nextId (revoke_where P n s) = nextId s"
  by (simp_all add: revoke_where_def)

lemma mark_used_frame [simp]:
  "users (mark_used i n s) = users s"
  "oauthProviders (mark_used i n s) = oauthProviders s"
  "refreshTokens (mark_used i n s) = refreshTokens s"
  "authAuditLog (mark_used i n s) = authAuditLog s"
  "outbox (mark_used i n s) = outbox s"
  "nextId (mark_used i n s) = nextId s"
  by (simp_all add: mark_used_def)

lemma update_users_frame [simp]:
  "oauthProviders (update_users i f s) = oauthProviders s"
  "refreshTokens (update_users i f s) = refreshTokens s"
  "verificationTokens (update_users i f s) = verificationTokens s"
  "authAuditLog (update_users i f s) = authAuditLog s"
  "outbox (update_users i f s) = outbox s"
  "nextId (update_users i f s) = nextId s"
  by (simp_all add: update_users_def)

lemma send_frame [simp]:
  "users (send m s) = users s"
  "oauthProviders (send m s) = oauthProviders s"
  "refreshTokens (send m s) = refreshTokens s"
  "verificationTokens (send m s) = verificationTokens s"
  "authAuditLog (send m s) = authAuditLog s"
  "nextId (send m s) = nextId s"
  by (simp_all add: send_def)

lemma logAuditEvent_frame [simp]:
  "users (logAuditEvent a b c d e g n s) = users s"
  "oauthProviders (logAuditEvent a b c d e g n s) = oauthProviders s"
  "refreshTokens (logAuditEvent a b c d e g n s) = refreshTokens s"
  "verificationTokens (logAuditEvent a b c d e g n s) = verificationTokens s"
  "outbox (logAuditEvent a b c d e g n s) = outbox s"
  by (simp_all add: logAuditEvent_def)

lemma update_oauthProviders_frame [simp]:
  "users (update_oauthProviders i p s) = users s"
  "refreshTokens (update_oauthProviders i p s) = refreshTokens s"
  "verificationTokens (update_oauthProviders i p s) = verificationTokens s"
  "authAuditLog (update_oauthProviders i p s) = authAuditLog s"
  "outbox (update_oauthProviders i p s) = outbox s"
  "nextId (update_oauthProviders i p s) = nextId s"
  by (simp_all add: update_oauthProviders_def)

lemma varchar_fit: "length v \<le> n \<Longrightarrow> varchar_ok n v \<and> varchar n v = v"
  by (simp add: varchar_ok_def varchar_def)

lemma varchar_length: "length (varchar n v) \<le> n"
  by (simp add: varchar_def)

lemma fits_varchar: "fits n (map_option (varchar n) v)"
  by (cases v) (simp_all add: varchar_length)

lemma insert_users_Inr:
  "insert_users em ev ph dn av n s = Inr (s', usr) \<longleftrightarrow>
     (varchar_ok 255 em \<and> varchar_ok_null 255 dn \<and>
      Some (varchar 255 em) \<notin> u_email ` set (users s) \<and>
      usr = \<lparr>u_id = nextId s, u_email = Some (varchar 255 em),
              u_emailVerified = ev, u_passwordHash = ph,
              u_displayName = map_option (varchar 255) dn,
              u_avatarUrl = av, u_phoneNumber = None, u_status = Active,
              u_createdAt = n, u_updatedAt = n, u_lastLoginAt = None\<rparr> \<and>
      s' = s\<lparr>users := users s @ [usr], nextId := Suc (nextId s)\<rparr>)"
proof -
  have "list_ex (\<lambda>u. u_email u = Some (varchar 255 em)) (users s) \<longleftrightarrow>
        Some (varchar 255 em) \<in> u_email ` set (users s)"
    unfolding list_ex_iff by force
  then show ?thesis by (auto simp: insert_users_def Let_def)
qed

lemma insert_oauthProviders_Inr:
  "insert_oauthProviders u p n s = Inr s' \<longleftrightarrow>
     (varchar_ok 255 (p_providerId p) \<and> varchar_ok 255 (p_email p) \<and>
      (p_provider p, varchar 255 (p_providerId p)) \<notin> oauth_key ` set (oauthProviders s) \<and>
      s' = s\<lparr>oauthProviders := oauthProviders s @
                 [\<lparr>op_id = nextId s, op_userId = u, op_provider = p_provider p,
                   op_providerUserId = varchar 255 (p_providerId p),
                   op_providerEmail = Some (varchar 255 (p_email p)),
                   op_accessToken = Some (p_accessToken p),
                   op_refreshToken = p_refreshToken p,
                   op_tokenExpiresAt = p_expiresAt p,
                   op_createdAt = n, op_updatedAt = n\<rparr>],
               nextId := Suc (nextId s)\<rparr>)"
proof -
  have "list_ex (\<lambda>r. op_provider r = p_provider p \<and>
                      op_providerUserId r = varchar 255 (p_providerId p)) (oauthProviders s) \<longleftrightarrow>
        (p_provider p, varchar 255 (p_providerId p)) \<in> oauth_key ` set (oauthProviders s)"
    unfolding list_ex_iff by (force simp: oauth_key_def)
  then show ?thesis by (auto simp: insert_oauthProviders_def)
qed

lemma nextId_logAuditEvent: "nextId s \<le> nextId (logAuditEvent a b c d e g n s)"
  by (simp add: logAuditEvent_def)

subsection \<open>The table of refresh tokens along a run\<close>

lemma insert_refreshTokens_Inr:
  "insert_refreshTokens u h d e n s = Inr s' \<longleftrightarrow>
     (h \<notin> rt_tokenHash ` set (refreshTokens s) \<and>
      s' = s\<lparr>refreshTokens := refreshTokens s @
                  [\<lparr>rt_id = nextId s, rt_userId = u, rt_tokenHash = h,
                    rt_deviceInfo = d, rt_expiresAt = e,
                    rt_createdAt = n, rt_revokedAt = None\<rparr>],
                nextId := Suc (nextId s)\<rparr>)"
  by (auto simp: insert_refreshTokens_def list_ex_iff)

lemma insert_verificationTokens_Inr:
  "insert_verificationTokens u t ty e n s = Inr s' \<longleftrightarrow>
     (t \<notin> vt_token ` set (verificationTokens s) \<and>
      s' = s\<lparr>verificationTokens := verificationTokens s @
                  [\<lparr>vt_id = nextId s, vt_userId = u, vt_token = t,
                    vt_tokenType = ty, vt_expiresAt = e,
                    vt_usedAt = None, vt_createdAt = n\<rparr>],
                nextId := Suc (nextId s)\<rparr>)"
  by (auto simp: insert_verificationTokens_def list_ex_iff)

lemma rt_step_revoke_where: "rt_step (refreshTokens s) (refreshTokens (revoke_where P n s))"
  by (simp add: revoke_where_def rt_revoke)

lemma rt_step_insert:
  "insert_refreshTokens u h d e n s = Inr s' \<Longrightarrow> rt_step (refreshTokens s) (refreshTokens s')"
  by (simp add: insert_refreshTokens_Inr rt_add)

lemma rt_step_issue: "rt_step (refreshTokens s) (refreshTokens (fst (issue_tokens cfg now usr d m s)))"
proof (cases "insert_refreshTokens (u_id usr)
                (hashToken (tp_refreshToken (generateTokenPair cfg now (u_id usr) (u_email usr))))
                (device_or_empty d) (now + days30) now s")
  case (Inl e)
  then show ?thesis by (simp add: issue_tokens_def Let_def rt_same)
next
  case (Inr s1)
  then show ?thesis by (simp add: issue_tokens_def Let_def rt_step_insert)
qed

lemma rt_step_login: "rt_step (refreshTokens s) (refreshTokens (fst (login cfg now data d s)))"
  by (simp add: login_def Let_def rt_same rt_step_issue split: option.split)

lemma rt_step_refresh:
  "rt_step (refreshTokens s) (refreshTokens (fst (refreshAccessToken cfg now t d s)))"
proof -
  have ins: "rt_step (refreshTokens s)
               (refreshTokens (fst (case insert_refreshTokens u h dv e now (revoke_where P now s) of
                    Inl err \<Rightarrow> (revoke_where P now s, Inl err)
                  | Inr s2 \<Rightarrow> (logAuditEvent a b c g m ok now s2, Inr res))))" for u h dv e P a b c g m ok res
  proof (cases "insert_refreshTokens u h dv e now (revoke_where P now s)")
    case (Inl err)
    then show ?thesis by (simp add: rt_step_revoke_where)
  next
    case (Inr s2)
    then show ?thesis
      using rt_trans[OF rt_step_revoke_where rt_step_insert[OF Inr]] by simp
  qed
  show ?thesis
    by (simp add: refreshAccessToken_def Let_def rt_same ins split: option.split)
qed

lemma rt_step_logout: "rt_step (refreshTokens s) (refreshTokens (fst (logout now t uid d s)))"
  by (simp add: logout_def Let_def rt_step_revoke_where)

lemma rt_step_register: "rt_step (refreshTokens s) (refreshTokens (fst (register now salt rnd data d s)))"
  by (auto simp: register_def Let_def rt_same insert_verificationTokens_Inr insert_users_Inr
      split: option.split sum.split)

lemma rt_step_verifyEmail: "rt_step (refreshTokens s) (refreshTokens (fst (verifyEmail now t s)))"
  by (simp add: verifyEmail_def Let_def rt_same split: option.split)

lemma rt_step_requestPasswordReset:
  "rt_step (refreshTokens s) (refreshTokens (fst (requestPasswordReset now rnd email d s)))"
  by (auto simp: requestPasswordReset_def Let_def rt_same insert_verificationTokens_Inr
      split: option.split sum.split)

lemma rt_step_resetPassword:
  "rt_step (refreshTokens s) (refreshTokens (fst (resetPassword now salt t pw d s)))"
  using rt_step_revoke_where[of "mark_used i n (update_users j f s)" for i n j f]
  by (simp add: resetPassword_def Let_def rt_same split: option.split)

lemma find_or_create_user_rt:
  "refreshTokens (fst (find_or_create_user now p d s)) = refreshTokens s"
  by (auto simp: find_or_create_user_def insert_users_Inr split: option.split sum.split)

lemma resolve_user_rt: "refreshTokens (fst (resolve_user now p d s)) = refreshTokens s"
  using find_or_create_user_rt[of now p d s]
  by (auto simp: resolve_user_def insert_oauthProviders_Inr
      split: option.split sum.split prod.split)

lemma rt_step_handleOAuthCallback:
  "rt_step (refreshTokens s) (refreshTokens (fst (handleOAuthCallback cfg now p d s)))"
proof (cases "resolve_user now p d s")
  case (Pair s1 res)
  have rt: "refreshTokens s1 = refreshTokens s"
    using resolve_user_rt[of now p d s] Pair by simp
  show ?thesis
  proof (cases res)
    case (Inl e)
    with Pair rt show ?thesis by (simp add: handleOAuthCallback_def rt_same)
  next
    case (Inr fi)
    obtain found isNew where fi: "fi = (found, isNew)" by (cases fi) auto
    show ?thesis
    proof (cases found)
      case None
      with Pair Inr fi rt show ?thesis by (simp add: handleOAuthCallback_def rt_same)
    next
      case (Some usr)
      have "rt_step (refreshTokens s1)
              (refreshTokens (fst (issue_tokens cfg now usr d
                  [(''provider'', provider_name (p_provider p))] s1)))"
        by (rule rt_step_issue)
      then show ?thesis using Pair Inr fi Some rt
        by (auto simp: handleOAuthCallback_def split: prod.split sum.split)
    qed
  qed
qed

lemma rt_step_removeOAuthProvider:
  "rt_step (refreshTokens s) (refreshTokens (fst (removeOAuthProvider now p pid d s)))"
  by (simp add: removeOAuthProvider_def Let_def rt_same split: option.split)

lemma rt_step_updateProfile:
  "rt_step (refreshTokens s) (refreshTokens (fst (updateProfile uid dn ph av s)))"
  by (simp add: updateProfile_def Let_def rt_same)

lemma rt_step_exec: "rt_step (refreshTokens s) (refreshTokens (exec cfg x s))"
  by (cases x)
     (simp_all add: rt_step_register rt_step_login rt_step_refresh rt_step_logout
        rt_step_verifyEmail rt_step_requestPasswordReset rt_step_resetPassword
        rt_step_handleOAuthCallback rt_step_removeOAuthProvider rt_step_updateProfile)

lemma rt_step_run: "rt_step (refreshTokens s) (refreshTokens (run cfg xs s))"
proof (induction xs arbitrary: s)
  case Nil
  show ?case by (simp add: rt_same)
next
  case (Cons x xs)
  show ?case using rt_trans[OF rt_step_exec Cons.IH] by simp
qed

subsection \<open>The table of one-time tokens along a run\<close>


lemma vt_step_insert:
  "insert_verificationTokens u t ty e n s = Inr s' \<Longrightarrow>
   vt_step (verificationTokens s) (verificationTokens s')"
  by (simp add: insert_verificationTokens_Inr vt_add)

lemma vt_issue: "verificationTokens (fst (issue_tokens cfg now usr d m s)) = verificationTokens s"
  by (auto simp: issue_tokens_def Let_def insert_refreshTokens_Inr split: sum.split)








lemma find_or_create_user_vt:
  "verificationTokens (fst (find_or_create_user now p d s)) = verificationTokens s"
  by (auto simp: find_or_create_user_def insert_users_Inr split: option.split sum.split)

lemma resolve_user_vt: "verificationTokens (fst (resolve_user now p d s)) = verificationTokens s"
  using find_or_create_user_vt[of now p d s]
  by (auto simp: resolve_user_def insert_oauthProviders_Inr
      split: option.split sum.split prod.split)






subsection \<open>The constraints of the schema hold in every run\<close>

lemma wf_alt:
  "wf s \<longleftrightarrow>
     distinct (filter (\<lambda>e. e \<noteq> None) (map u_email (users s))) \<and>
     distinct (map oauth_key (oauthProviders s)) \<and>
     distinct (map rt_tokenHash (refreshTokens s)) \<and>
     distinct (map vt_token (verificationTokens s)) \<and>
     distinct (map u_id (users s)) \<and> (\<forall>i\<in>set (map u_id (users s)). i < nextId s) \<and>
     distinct (map op_id (oauthProviders s)) \<and>
     (\<forall>i\<in>set (map op_id (oauthProviders s)). i < nextId s) \<and>
     distinct (map rt_id (refreshTokens s)) \<and>
     (\<forall>i\<in>set (map rt_id (refreshTokens s)). i < nextId s) \<and>
     distinct (map vt_id (verificationTokens s)) \<and>
     (\<forall>i\<in>set (map vt_id (verificationTokens s)). i < nextId s) \<and>
     set (map op_userId (oauthProviders s)) \<subseteq> set (map u_id (users s)) \<and>
     set (map rt_userId (refreshTokens s)) \<subseteq> set (map u_id (users s)) \<and>
     set (map vt_userId (verificationTokens s)) \<subseteq> set (map u_id (users s))"
  unfolding wf_def wf_unique_def wf_ids_def wf_refs_def list_all_iff by auto

lemma wf_keys:
  assumes "wf s" and "keys s' = keys s" and "nextId s \<le> nextId s'"
  shows "wf s'"
proof -
  from assms(2) have eqs:
    "map u_id (users s') = map u_id (users s)"
    "map u_email (users s') = map u_email (users s)"
    "map op_id (oauthProviders s') = map op_id (oauthProviders s)"
    "map oauth_key (oauthProviders s') = map oauth_key (oauthProviders s)"
    "map op_userId (oauthProviders s') = map op_userId (oauthProviders s)"
    "map rt_id (refreshTokens s') = map rt_id (refreshTokens s)"
    "map rt_tokenHash (refreshTokens s') = map rt_tokenHash (refreshTokens s)"
    "map rt_userId (refreshTokens s') = map rt_userId (refreshTokens s)"
    "map vt_id (verificationTokens s') = map vt_id (verificationTokens s)"
    "map vt_token (verificationTokens s') = map vt_token (verificationTokens s)"
    "map vt_userId (verificationTokens s') = map vt_userId (verificationTokens s)"
    by (simp_all add: keys_def)
  from assms(1) have w: "wf s" .
  show ?thesis
    unfolding wf_alt eqs using w[unfolded wf_alt] assms(3) by (meson less_le_trans)
qed

lemma keys_revoke_where [simp]: "keys (revoke_where P n s) = keys s"
  by (simp add: keys_def revoke_where_def comp_def if_distrib)

lemma keys_mark_used [simp]: "keys (mark_used i n s) = keys s"
  by (simp add: keys_def mark_used_def comp_def if_distrib)

lemma keys_send [simp]: "keys (send m s) = keys s"
  by (simp add: keys_def)

lemma keys_logAuditEvent [simp]: "keys (logAuditEvent a b c d e g n s) = keys s"
  by (simp add: keys_def)

lemma keys_update_oauthProviders [simp]: "keys (update_oauthProviders i p s) = keys s"
  by (simp add: keys_def update_oauthProviders_def set_oauth_tokens_def oauth_key_def
      comp_def if_distrib)

lemma keys_update_users:
  "(\<And>u. u_id (f u) = u_id u \<and> u_email (f u) = u_email u) \<Longrightarrow>
   keys (update_users i f s) = keys s"
  by (simp add: keys_def update_users_def comp_def if_distrib)

lemma wf_insert_refresh:
  "wf s \<Longrightarrow> insert_refreshTokens u h d e n s = Inr s' \<Longrightarrow> u \<in> set (map u_id (users s)) \<Longrightarrow> wf s'"
  by (auto simp: wf_alt insert_refreshTokens_Inr less_Suc_eq dest: bspec)

lemma wf_insert_vt:
  "wf s \<Longrightarrow> insert_verificationTokens u t ty e n s = Inr s' \<Longrightarrow>
   u \<in> set (map u_id (users s)) \<Longrightarrow> wf s'"
  by (auto simp: wf_alt insert_verificationTokens_Inr less_Suc_eq dest: bspec)

lemma wf_insert_oauth:
  "wf s \<Longrightarrow> insert_oauthProviders u p n s = Inr s' \<Longrightarrow> u \<in> set (map u_id (users s)) \<Longrightarrow>
   wf s'"
  by (auto simp: wf_alt insert_oauthProviders_Inr oauth_key_def less_Suc_eq dest: bspec)

lemma wf_insert_user:
  "wf s \<Longrightarrow> insert_users em ev ph dn av n s = Inr (s', usr) \<Longrightarrow>
   wf s' \<and> u_id usr \<in> set (map u_id (users s'))"
  by (auto simp: wf_alt insert_users_Inr less_Suc_eq dest: bspec)

lemma wf_delete_oauth:
  "wf s \<Longrightarrow> wf (s\<lparr>oauthProviders := filter P (oauthProviders s)\<rparr>)"
  by (auto simp: wf_alt distinct_map_filter)

lemma wf_log: "wf s \<Longrightarrow> wf (logAuditEvent a b c d e g n s)"
  by (rule wf_keys[of s]) (simp_all add: nextId_logAuditEvent)

lemma wf_send: "wf s \<Longrightarrow> wf (send m s)"
  by (rule wf_keys[of s]) simp_all

lemma wf_revoke: "wf s \<Longrightarrow> wf (revoke_where P n s)"
  by (rule wf_keys[of s]) simp_all

lemma wf_mark: "wf s \<Longrightarrow> wf (mark_used i n s)"
  by (rule wf_keys[of s]) simp_all

lemma wf_update_users:
  "wf s \<Longrightarrow> (\<And>u. u_id (f u) = u_id u \<and> u_email (f u) = u_email u) \<Longrightarrow> wf (update_users i f s)"
  by (rule wf_keys[of s]) (simp_all add: keys_update_users)

lemma wf_update_oauth: "wf s \<Longrightarrow> wf (update_oauthProviders i p s)"
  by (rule wf_keys[of s]) simp_all

lemma users_issue:
  "map u_id (users (fst (issue_tokens cfg now usr d m s))) = map u_id (users s)"
  by (auto simp: issue_tokens_def Let_def insert_refreshTokens_Inr update_users_def
      split: sum.split)

lemma wf_issue:
  assumes "wf s" and "u_id usr \<in> set (map u_id (users s))"
  shows "wf (fst (issue_tokens cfg now usr d m s))"
proof (cases "insert_refreshTokens (u_id usr)
                (hashToken (tp_refreshToken (generateTokenPair cfg now (u_id usr) (u_email usr))))
                (device_or_empty d) (now + days30) now s")
  case (Inl e)
  with assms show ?thesis by (simp add: issue_tokens_def Let_def)
next
  case (Inr s1)
  from wf_insert_refresh[OF assms(1) Inr assms(2)] have "wf s1" .
  then have "wf (logAuditEvent (Some (u_id usr)) LOGIN (opt_ip d) (opt_userAgent d) m True now
                  (update_users (u_id usr) (\<lambda>u. u\<lparr>u_lastLoginAt := Some now\<rparr>) s1))"
    by (intro wf_log wf_update_users) simp_all
  with Inr show ?thesis by (simp add: issue_tokens_def Let_def)
qed

lemma wf_login: "wf s \<Longrightarrow> wf (fst (login cfg now data d s))"
  by (auto simp: login_def Let_def wf_log intro!: wf_issue find_Some_in split: option.split)


lemma wf_register: "wf s \<Longrightarrow> wf (fst (register now salt rnd data d s))"
proof -
  assume w: "wf s"
  show ?thesis
  proof (cases "valid (validatePasswordStrength (rd_password data)) \<and>
                find (\<lambda>u. u_email u = Some (rd_email data)) (users s) = None")
    case False
    with w show ?thesis by (auto simp: register_def Let_def split: option.split)
  next
    case True
    show ?thesis
    proof (cases "insert_users (rd_email data) False (Some (hashPassword salt (rd_password data)))
                    (or_null (rd_displayName data)) None now s")
      case (Inl e)
      with True w show ?thesis by (simp add: register_def Let_def)
    next
      case (Inr su)
      obtain s1 usr where su: "su = (s1, usr)" by (cases su) auto
      from wf_insert_user[OF w Inr[unfolded su]]
      have w1: "wf s1" and mem: "u_id usr \<in> set (map u_id (users s1))" by simp_all
      show ?thesis
      proof (cases "insert_verificationTokens (u_id usr) (generateToken rnd) EmailVerification
                      (now + 24 * 60 * 60 * 1000) now s1")
        case (Inl e)
        with True Inr su w1 show ?thesis by (simp add: register_def Let_def)
      next
        case Inr2: (Inr s2)
        from wf_insert_vt[OF w1 Inr2 mem] have "wf s2" .
        with True Inr su Inr2 show ?thesis by (simp add: register_def Let_def wf_log wf_send)
      qed
    qed
  qed
qed

lemma wf_refresh: "wf s \<Longrightarrow> wf (fst (refreshAccessToken cfg now t d s))"
proof -
  assume w: "wf s"
  have ins: "wf (fst (case insert_refreshTokens (u_id usr) h dv e now (revoke_where P now s) of
                    Inl err \<Rightarrow> (revoke_where P now s, Inl err)
                  | Inr s2 \<Rightarrow> (logAuditEvent a b c g m ok now s2, Inr res)))"
    if "u_id usr \<in> set (map u_id (users s))" for usr h dv e P a b c g m ok res
  proof (cases "insert_refreshTokens (u_id usr) h dv e now (revoke_where P now s)")
    case (Inl err)
    then show ?thesis using w by (simp add: wf_revoke)
  next
    case (Inr s2)
    from wf_insert_refresh[OF wf_revoke[OF w] Inr] that have "wf s2" by simp
    with Inr show ?thesis by (simp add: wf_log)
  qed
  show ?thesis
    using w by (auto simp: refreshAccessToken_def Let_def intro!: ins find_Some_in split: option.split)
qed

lemma wf_logout: "wf s \<Longrightarrow> wf (fst (logout now t uid d s))"
  by (simp add: logout_def Let_def wf_log wf_revoke)

lemma wf_verifyEmail: "wf s \<Longrightarrow> wf (fst (verifyEmail now t s))"
  by (auto simp: verifyEmail_def Let_def split: option.split
      intro!: wf_log wf_send wf_mark wf_update_users)

lemma wf_requestPasswordReset: "wf s \<Longrightarrow> wf (fst (requestPasswordReset now rnd email d s))"
proof -
  assume w: "wf s"
  show ?thesis
  proof (cases "find (\<lambda>u. u_email u = Some email) (users s)")
    case None
    with w show ?thesis by (simp add: requestPasswordReset_def)
  next
    case (Some usr)
    show ?thesis
    proof (cases "insert_verificationTokens (u_id usr) (generateToken rnd) PasswordReset
                    (now + 60 * 60 * 1000) now s")
      case (Inl e)
      with Some w show ?thesis by (simp add: requestPasswordReset_def Let_def)
    next
      case (Inr s1)
      from wf_insert_vt[OF w Inr find_Some_in[OF Some]] have "wf s1" .
      with Some Inr show ?thesis by (simp add: requestPasswordReset_def Let_def wf_log wf_send)
    qed
  qed
qed

lemma wf_resetPassword: "wf s \<Longrightarrow> wf (fst (resetPassword now salt t pw d s))"
  by (auto simp: resetPassword_def Let_def split: option.split
      intro!: wf_log wf_revoke wf_mark wf_update_users)

lemma wf_removeOAuthProvider: "wf s \<Longrightarrow> wf (fst (removeOAuthProvider now p pid d s))"
  by (auto simp: removeOAuthProvider_def Let_def split: option.split
      intro!: wf_log wf_delete_oauth)

lemma wf_updateProfile: "wf s \<Longrightarrow> wf (fst (updateProfile uid dn ph av s))"
  by (auto simp: updateProfile_def Let_def intro!: wf_update_users)

subsection \<open>The branches of the reconciliation\<close>

lemma resolve_linked:
  assumes "find (\<lambda>r. op_provider r = p_provider p \<and> op_providerUserId r = p_providerId p)
             (oauthProviders s) = Some e"
  shows "resolve_user now p d s =
           (update_oauthProviders (op_id e) p s,
            Inr (find (\<lambda>u. u_id u = op_userId e) (users s), False))"
  using assms by (simp add: resolve_user_def)

lemma resolve_unlinked:
  assumes "find (\<lambda>r. op_provider r = p_provider p \<and> op_providerUserId r = p_providerId p)
             (oauthProviders s) = None"
    and "find_or_create_user now p d s = (s2, Inr (usr, isNew))"
  shows "resolve_user now p d s =
           (case insert_oauthProviders (u_id usr) p now s2 of
              Inl e \<Rightarrow> (s2, Inl e)
            | Inr s3 \<Rightarrow>
                (logAuditEvent (Some (u_id usr)) OAUTH_LINK (opt_ip d) (opt_userAgent d)
                   [(''provider'', provider_name (p_provider p))] True now s3,
                 Inr (Some usr, isNew)))"
  using assms by (simp add: resolve_user_def)

lemma resolve_unlinked_failed:
  assumes "find (\<lambda>r. op_provider r = p_provider p \<and> op_providerUserId r = p_providerId p)
             (oauthProviders s) = None"
    and "find_or_create_user now p d s = (s2, Inl e)"
  shows "resolve_user now p d s = (s2, Inl e)"
  using assms by (simp add: resolve_user_def)

lemma find_or_create_existing:
  assumes "find (\<lambda>u. u_email u = Some (p_email p)) (users s) = Some usr"
  shows "find_or_create_user now p d s = (s, Inr (usr, False))"
  using assms by (simp add: find_or_create_user_def)

lemma find_or_create_new:
  assumes "find (\<lambda>u. u_email u = Some (p_email p)) (users s) = None"
  shows "find_or_create_user now p d s =
           (case insert_users (p_email p) True None (or_null (p_displayName p))
                   (or_null (p_avatarUrl p)) now s of
              Inl e \<Rightarrow> (s, Inl e)
            | Inr (s1, newUser) \<Rightarrow>
                (logAuditEvent (Some (u_id newUser)) REGISTER (opt_ip d) (opt_userAgent d)
                   [(''provider'', provider_name (p_provider p))] True now s1,
                 Inr (newUser, True)))"
  using assms by (simp add: find_or_create_user_def)

lemma handle_resolved:
  assumes "resolve_user now p d s = (s1, Inr (Some usr, isNew))"
  shows "handleOAuthCallback cfg now p d s =
           (case issue_tokens cfg now usr d [(''provider'', provider_name (p_provider p))] s1 of
              (s2, Inl e) \<Rightarrow> (s2, Inl e)
            | (s2, Inr r) \<Rightarrow>
                (s2, Inr \<lparr>res_accessToken = res_accessToken r,
                          res_refreshToken = res_refreshToken r,
                          res_tokenType = res_tokenType r, res_expiresIn = res_expiresIn r,
                          res_user = res_user r, res_isNewUser = isNew\<rparr>))"
  using assms by (simp add: handleOAuthCallback_def)

lemma handle_unresolved:
  assumes "resolve_user now p d s = (s1, Inr (None, isNew))"
  shows "handleOAuthCallback cfg now p d s = (s1, Inl (Error ''Failed to create or find user''))"
  using assms by (simp add: handleOAuthCallback_def)

lemma handle_failed:
  assumes "resolve_user now p d s = (s1, Inl e)"
  shows "handleOAuthCallback cfg now p d s = (s1, Inl e)"
  using assms by (simp add: handleOAuthCallback_def)

lemma handle_state:
  assumes "resolve_user now p d s = (s1, Inr (Some usr, isNew))"
  shows "fst (handleOAuthCallback cfg now p d s) =
         fst (issue_tokens cfg now usr d [(''provider'', provider_name (p_provider p))] s1)"
  unfolding handle_resolved[OF assms] by (auto split: prod.split sum.split)

text \<open>Every outcome of the reconciliation is one of these three.\<close>

lemma resolve_cases:
  obtains (failed) s1 e where "resolve_user now p d s = (s1, Inl e)"
  | (unresolved) s1 isNew where "resolve_user now p d s = (s1, Inr (None, isNew))"
  | (resolved) s1 usr isNew where "resolve_user now p d s = (s1, Inr (Some usr, isNew))"
proof (cases "resolve_user now p d s")
  case (Pair s1 res)
  show ?thesis
  proof (cases res)
    case (Inl e)
    with Pair failed show ?thesis by simp
  next
    case (Inr fi)
    obtain found isNew where fi: "fi = (found, isNew)" by (cases fi) auto
    show ?thesis
    proof (cases found)
      case None
      with Pair Inr fi unresolved show ?thesis by simp
    next
      case (Some usr)
      with Pair Inr fi resolved show ?thesis by simp
    qed
  qed
qed

lemma key_find_None:
  "find (\<lambda>r. op_provider r = pr \<and> op_providerUserId r = pid) rows = None \<Longrightarrow>
   (pr, pid) \<notin> set (map oauth_key rows)"
  by (auto simp: find_None_iff oauth_key_def)

lemma wf_find_or_create:
  assumes w: "wf s" and r: "find_or_create_user now p d s = (s2, res)"
  shows "wf s2 \<and> (\<forall>usr isNew. res = Inr (usr, isNew) \<longrightarrow> u_id usr \<in> set (map u_id (users s2)))"
proof (cases "find (\<lambda>u. u_email u = Some (p_email p)) (users s)")
  case (Some usr)
  from r find_or_create_existing[OF Some, of now d] have "s2 = s" "res = Inr (usr, False)"
    by simp_all
  with w find_Some_in[OF Some, of u_id] show ?thesis by simp
next
  case None
  note r' = r[unfolded find_or_create_new[OF None]]
  show ?thesis
  proof (cases "insert_users (p_email p) True None (or_null (p_displayName p))
                   (or_null (p_avatarUrl p)) now s")
    case (Inl e)
    with r' w show ?thesis by auto
  next
    case (Inr su)
    obtain s1 usr where su: "su = (s1, usr)" by (cases su) auto
    from wf_insert_user[OF w Inr[unfolded su]]
    have w1: "wf s1" and mem: "u_id usr \<in> set (map u_id (users s1))" by simp_all
    from r' Inr su have "s2 = logAuditEvent (Some (u_id usr)) REGISTER (opt_ip d) (opt_userAgent d)
                   [(''provider'', provider_name (p_provider p))] True now s1"
      and "res = Inr (usr, True)" by simp_all
    with w1 mem show ?thesis by (simp add: wf_log)
  qed
qed

lemma wf_resolve:
  assumes w: "wf s" and r: "resolve_user now p d s = (s1, res)"
  shows "wf s1 \<and>
         (\<forall>usr isNew. res = Inr (Some usr, isNew) \<longrightarrow> u_id usr \<in> set (map u_id (users s1)))"
proof (cases "find (\<lambda>r. op_provider r = p_provider p \<and> op_providerUserId r = p_providerId p)
             (oauthProviders s)")
  case (Some e)
  from r resolve_linked[OF Some, of now d] have s1: "s1 = update_oauthProviders (op_id e) p s"
    and f: "res = Inr (find (\<lambda>u. u_id u = op_userId e) (users s), False)" by simp_all
  from f have "\<forall>usr isNew. res = Inr (Some usr, isNew) \<longrightarrow> u_id usr \<in> set (map u_id (users s1))"
    using s1 find_Some_in[of "\<lambda>u. u_id u = op_userId e" "users s" _ u_id] by auto
  with w s1 show ?thesis by (simp add: wf_update_oauth)
next
  case None
  obtain s2 res2 where foc: "find_or_create_user now p d s = (s2, res2)"
    by (cases "find_or_create_user now p d s") auto
  from wf_find_or_create[OF w foc] have w2: "wf s2"
    and mem2: "\<forall>usr isNew. res2 = Inr (usr, isNew) \<longrightarrow> u_id usr \<in> set (map u_id (users s2))"
    by simp_all
  show ?thesis
  proof (cases res2)
    case (Inl e)
    with r resolve_unlinked_failed[OF None foc[unfolded Inl]] w2 show ?thesis by auto
  next
    case (Inr ui)
    obtain usr isNew where ui: "ui = (usr, isNew)" by (cases ui) auto
    from mem2 Inr ui have mem: "u_id usr \<in> set (map u_id (users s2))" by simp
    note r' = r[unfolded resolve_unlinked[OF None foc[unfolded Inr ui]]]
    show ?thesis
    proof (cases "insert_oauthProviders (u_id usr) p now s2")
      case (Inl e)
      with r' w2 show ?thesis by auto
    next
      case Inr2: (Inr s3)
      from wf_insert_oauth[OF w2 Inr2 mem] have w3: "wf s3" .
      from Inr2 have "users s3 = users s2" by (simp add: insert_oauthProviders_Inr)
      with r' Inr2 w3 mem show ?thesis by (auto simp: wf_log)
    qed
  qed
qed

lemma wf_handleOAuthCallback: "wf s \<Longrightarrow> wf (fst (handleOAuthCallback cfg now p d s))"
proof -
  assume w: "wf s"
  show ?thesis
  proof (cases rule: resolve_cases[of now p d s])
    case (failed s1 e)
    with wf_resolve[OF w failed] show ?thesis by (simp add: handle_failed)
  next
    case (unresolved s1 isNew)
    with wf_resolve[OF w unresolved] show ?thesis by (simp add: handle_unresolved)
  next
    case (resolved s1 usr isNew)
    from wf_resolve[OF w resolved] show ?thesis
      unfolding handle_state[OF resolved] by (intro wf_issue) simp_all
  qed
qed

lemma wf_exec: "wf s \<Longrightarrow> wf (exec cfg x s)"
  by (cases x)
     (simp_all add: wf_register wf_login wf_refresh wf_logout wf_verifyEmail
        wf_requestPasswordReset wf_resetPassword wf_handleOAuthCallback
        wf_removeOAuthProvider wf_updateProfile)

lemma wf_run: "wf s \<Longrightarrow> wf (run cfg xs s)"
  by (induction xs arbitrary: s) (simp_all add: wf_exec)

lemma wf_init: "wf init"
  by (simp add: wf_alt init_def)

lemma wf_reachable: "wf (run cfg xs init)"
  by (rule wf_run[OF wf_init])

subsection \<open>What the reconciliation returns and stores\<close>

lemma key_pred: "(\<lambda>r. op_provider r = a \<and> op_providerUserId r = b) = (\<lambda>r. oauth_key r = (a, b))"
  by (auto simp: oauth_key_def)

lemma oauth_issue [simp]:
  "oauthProviders (fst (issue_tokens cfg now usr d m s)) = oauthProviders s"
  by (auto simp: issue_tokens_def Let_def insert_refreshTokens_Inr split: sum.split)

lemma issue_result:
  "issue_tokens cfg now usr d m s = (s2, Inr r) \<Longrightarrow>
   res_user r = to_view usr \<and>
   res_refreshToken r = generateRefreshToken cfg now (u_id usr) (u_email usr) \<and>
   res_accessToken r = generateAccessToken cfg now (u_id usr) (u_email usr)"
  by (auto simp: issue_tokens_def Let_def generateTokenPair_def split: sum.splits)

lemma handle_result:
  assumes r: "resolve_user now p d s = (s1, Inr (Some usr, isNew))"
    and h: "handleOAuthCallback cfg now p d s = (s2, Inr x)"
  shows "res_user x = to_view usr \<and> res_isNewUser x = isNew \<and>
         res_refreshToken x = generateRefreshToken cfg now (u_id usr) (u_email usr) \<and>
         res_accessToken x = generateAccessToken cfg now (u_id usr) (u_email usr)"
proof (cases "issue_tokens cfg now usr d [(''provider'', provider_name (p_provider p))] s1")
  case (Pair s3 res)
  show ?thesis
  proof (cases res)
    case (Inl e)
    with h Pair show ?thesis unfolding handle_resolved[OF r] by simp
  next
    case (Inr y)
    with Pair issue_result[of cfg now usr d _ s1 s3 y] h show ?thesis
      unfolding handle_resolved[OF r] by auto
  qed
qed

lemma find_email:
  "distinct (filter (\<lambda>e. e \<noteq> None) (map u_email xs)) \<Longrightarrow> a \<in> set xs \<Longrightarrow>
   u_email a = Some e \<Longrightarrow> find (\<lambda>u. u_email u = Some e) xs = Some a"
proof (induction xs)
  case Nil
  then show ?case by simp
next
  case (Cons x xs)
  show ?case
  proof (cases "x = a")
    case True
    with Cons.prems show ?thesis by simp
  next
    case False
    with Cons.prems have mem: "a \<in> set xs" by simp
    have "u_email x \<noteq> Some e"
    proof
      assume "u_email x = Some e"
      with Cons.prems(1) have "Some e \<notin> set (filter (\<lambda>e. e \<noteq> None) (map u_email xs))"
        by simp
      with mem Cons.prems(3) show False by (force simp: image_iff)
    qed
    moreover from Cons.prems(1) have "distinct (filter (\<lambda>e. e \<noteq> None) (map u_email xs))"
      by (simp split: if_splits)
    ultimately show ?thesis using Cons.IH mem Cons.prems(3) by simp
  qed
qed

lemma users_issue_cases:
  "users (fst (issue_tokens cfg now usr d m s)) = users s \<or>
   users (fst (issue_tokens cfg now usr d m s)) =
     map (\<lambda>u. if u_id u = u_id usr then u\<lparr>u_lastLoginAt := Some now\<rparr> else u) (users s)"
  by (auto simp: issue_tokens_def Let_def insert_refreshTokens_Inr update_users_def
      split: sum.split)

lemma find_None_email:
  "Some e \<notin> set (map u_email xs) \<Longrightarrow> find (\<lambda>u. u_email u = Some e) xs = None"
  by (auto simp: find_None_iff image_iff)

lemma find_None_key:
  "(a, b) \<notin> set (map oauth_key rows) \<Longrightarrow>
   find (\<lambda>r. op_provider r = a \<and> op_providerUserId r = b) rows = None"
  by (auto simp: find_None_iff image_iff oauth_key_def)

lemma issue_ok:
  assumes "hashToken (generateRefreshToken cfg now (u_id usr) (u_email usr))
             \<notin> rt_tokenHash ` set (refreshTokens s)"
  shows "issue_tokens cfg now usr d m s =
           (logAuditEvent (Some (u_id usr)) LOGIN (opt_ip d) (opt_userAgent d) m True now
              (update_users (u_id usr) (\<lambda>u. u\<lparr>u_lastLoginAt := Some now\<rparr>)
                 (s\<lparr>refreshTokens := refreshTokens s @
                       [\<lparr>rt_id = nextId s, rt_userId = u_id usr,
                         rt_tokenHash = hashToken (generateRefreshToken cfg now (u_id usr) (u_email usr)),
                         rt_deviceInfo = device_or_empty d,
                         rt_expiresAt = now + 30 * 24 * 60 * 60 * 1000,
                         rt_createdAt = now, rt_revokedAt = None\<rparr>],
                     nextId := Suc (nextId s)\<rparr>)),
            Inr \<lparr>res_accessToken = generateAccessToken cfg now (u_id usr) (u_email usr),
                 res_refreshToken = generateRefreshToken cfg now (u_id usr) (u_email usr),
                 res_tokenType = ''Bearer'', res_expiresIn = accessTokenExpiry cfg,
                 res_user = to_view usr\<rparr>)"
proof -
  from assms have "\<not> list_ex (\<lambda>r. rt_tokenHash r =
          hashToken (generateRefreshToken cfg now (u_id usr) (u_email usr))) (refreshTokens s)"
    unfolding list_ex_iff by (metis image_eqI)
  then show ?thesis
    by (simp add: issue_tokens_def Let_def insert_refreshTokens_def
        generateTokenPair_def days30_def)
qed

lemma issue_collision:
  assumes "hashToken (generateRefreshToken cfg now (u_id usr) (u_email usr))
             \<in> rt_tokenHash ` set (refreshTokens s)"
  shows "issue_tokens cfg now usr d m s =
           (s, Inl (DatabaseError ''duplicate key value violates unique constraint on token_hash''))"
proof -
  from assms have "list_ex (\<lambda>r. rt_tokenHash r =
          hashToken (generateRefreshToken cfg now (u_id usr) (u_email usr))) (refreshTokens s)"
    unfolding list_ex_iff by force
  then show ?thesis
    by (simp add: issue_tokens_def Let_def insert_refreshTokens_def generateTokenPair_def)
qed

lemma insert_oauth_ok:
  assumes "find (\<lambda>r. op_provider r = p_provider p \<and> op_providerUserId r = p_providerId p)
             (oauthProviders s) = None"
    and "length (p_providerId p) \<le> 255" and "length (p_email p) \<le> 255"
  shows "insert_oauthProviders u p n s =
           Inr (s\<lparr>oauthProviders := oauthProviders s @
                   [\<lparr>op_id = nextId s, op_userId = u, op_provider = p_provider p,
                     op_providerUserId = p_providerId p,
                     op_providerEmail = Some (p_email p),
                     op_accessToken = Some (p_accessToken p),
                     op_refreshToken = p_refreshToken p,
                     op_tokenExpiresAt = p_expiresAt p,
                     op_createdAt = n, op_updatedAt = n\<rparr>],
                 nextId := Suc (nextId s)\<rparr>)"
  using key_find_None[OF assms(1)] varchar_fit[OF assms(2)] varchar_fit[OF assms(3)]
  by (simp add: insert_oauthProviders_Inr)

lemma resolve_by_email:
  assumes "find (\<lambda>r. op_provider r = p_provider p \<and> op_providerUserId r = p_providerId p)
             (oauthProviders s) = None"
    and "find (\<lambda>u. u_email u = Some (p_email p)) (users s) = Some usr"
    and "length (p_providerId p) \<le> 255" and "length (p_email p) \<le> 255"
  shows "resolve_user now p d s =
           (logAuditEvent (Some (u_id usr)) OAUTH_LINK (opt_ip d) (opt_userAgent d)
              [(''provider'', provider_name (p_provider p))] True now
              (s\<lparr>oauthProviders := oauthProviders s @
                   [\<lparr>op_id = nextId s, op_userId = u_id usr, op_provider = p_provider p,
                     op_providerUserId = p_providerId p,
                     op_providerEmail = Some (p_email p),
                     op_accessToken = Some (p_accessToken p),
                     op_refreshToken = p_refreshToken p,
                     op_tokenExpiresAt = p_expiresAt p,
                     op_createdAt = now, op_updatedAt = now\<rparr>],
                 nextId := Suc (nextId s)\<rparr>),
            Inr (Some usr, False))"
  unfolding resolve_unlinked[OF assms(1) find_or_create_existing[OF assms(2)]]
  by (simp add: insert_oauth_ok[OF assms(1,3,4)])

lemma or_null_fits:
  "fits n v \<Longrightarrow> varchar_ok_null n (or_null v) \<and> map_option (varchar n) (or_null v) = or_null v"
  by (cases v) (simp_all add: varchar_fit)

lemma resolve_by_email_any:
  assumes "find (\<lambda>r. op_provider r = p_provider p \<and> op_providerUserId r = p_providerId p)
             (oauthProviders s) = None"
    and "find (\<lambda>u. u_email u = Some (p_email p)) (users s) = Some usr"
    and "resolve_user now p d s = (s1, res)"
  shows "users s1 = users s \<and> ((\<exists>e. res = Inl e) \<or> res = Inr (Some usr, False))"
proof (cases "insert_oauthProviders (u_id usr) p now s")
  case (Inl e)
  with assms(3) show ?thesis
    unfolding resolve_unlinked[OF assms(1) find_or_create_existing[OF assms(2)]] by auto
next
  case (Inr s3)
  then have "users s3 = users s" by (simp add: insert_oauthProviders_Inr)
  with Inr assms(3) show ?thesis
    unfolding resolve_unlinked[OF assms(1) find_or_create_existing[OF assms(2)]] by auto
qed

lemma resolve_new:
  assumes nokey: "find (\<lambda>r. op_provider r = p_provider p \<and> op_providerUserId r = p_providerId p)
             (oauthProviders s) = None"
    and noemail: "find (\<lambda>u. u_email u = Some (p_email p)) (users s) = None"
    and len: "length (p_providerId p) \<le> 255" "length (p_email p) \<le> 255"
      "fits 255 (p_displayName p)"
    and usr: "usr = \<lparr>u_id = nextId s, u_email = Some (p_email p),
                     u_emailVerified = True, u_passwordHash = None,
                     u_displayName = or_null (p_displayName p),
                     u_avatarUrl = or_null (p_avatarUrl p),
                     u_phoneNumber = None, u_status = Active,
                     u_createdAt = now, u_updatedAt = now, u_lastLoginAt = None\<rparr>"
  shows "\<exists>s1 row. resolve_user now p d s = (s1, Inr (Some usr, True)) \<and>
           users s1 = users s @ [usr] \<and> refreshTokens s1 = refreshTokens s \<and>
           oauthProviders s1 = oauthProviders s @ [row] \<and> op_userId row = nextId s \<and>
           oauth_key row = (p_provider p, p_providerId p) \<and>
           op_providerEmail row = Some (p_email p) \<and>
           op_accessToken row = Some (p_accessToken p) \<and>
           op_refreshToken row = p_refreshToken p \<and>
           op_tokenExpiresAt row = p_expiresAt p"
proof -
  let ?s0 = "s\<lparr>users := users s @ [usr], nextId := Suc (nextId s)\<rparr>"
  let ?s2 = "logAuditEvent (Some (u_id usr)) REGISTER (opt_ip d) (opt_userAgent d)
               [(''provider'', provider_name (p_provider p))] True now ?s0"
  from noemail have "Some (p_email p) \<notin> u_email ` set (users s)"
    using find_None_notin[of u_email "Some (p_email p)" "users s"] by simp
  with varchar_fit[OF len(2)] or_null_fits[OF len(3)]
  have iu: "insert_users (p_email p) True None (or_null (p_displayName p))
              (or_null (p_avatarUrl p)) now s = Inr (?s0, usr)"
    by (simp add: insert_users_Inr usr)
  have foc: "find_or_create_user now p d s = (?s2, Inr (usr, True))"
    unfolding find_or_create_new[OF noemail] iu by simp
  have nokey2: "find (\<lambda>r. op_provider r = p_provider p \<and> op_providerUserId r = p_providerId p)
             (oauthProviders ?s2) = None"
    using nokey by simp
  note io = insert_oauth_ok[OF nokey2 len(1,2), of "u_id usr" now]
  show ?thesis
    unfolding resolve_unlinked[OF nokey foc] io
    by (simp add: usr oauth_key_def)
qed

subsection \<open>The stored values fit their columns in every run\<close>

lemma wf_cols_alt:
  "wf_cols s \<longleftrightarrow>
     (\<forall>u\<in>set (users s). fits 255 (u_email u) \<and> fits 255 (u_displayName u) \<and>
                          fits 50 (u_phoneNumber u)) \<and>
     (\<forall>r\<in>set (oauthProviders s). length (op_providerUserId r) \<le> 255 \<and>
                                   fits 255 (op_providerEmail r)) \<and>
     (\<forall>a\<in>set (authAuditLog s). fits 45 (al_ipAddress a))"
  by (simp add: wf_cols_def list_all_iff)

lemma cols_same:
  "wf_cols s \<Longrightarrow> users s' = users s \<Longrightarrow> oauthProviders s' = oauthProviders s \<Longrightarrow>
   authAuditLog s' = authAuditLog s \<Longrightarrow> wf_cols s'"
  by (simp add: wf_cols_def)

lemma cols_log: "wf_cols s \<Longrightarrow> wf_cols (logAuditEvent a b c d e g n s)"
  by (auto simp: wf_cols_alt logAuditEvent_def fits_varchar)

lemma cols_send: "wf_cols s \<Longrightarrow> wf_cols (send m s)"
  by (rule cols_same[of s]) simp_all

lemma cols_revoke: "wf_cols s \<Longrightarrow> wf_cols (revoke_where P n s)"
  by (rule cols_same[of s]) simp_all

lemma cols_mark: "wf_cols s \<Longrightarrow> wf_cols (mark_used i n s)"
  by (rule cols_same[of s]) simp_all

lemma cols_update_users:
  assumes "wf_cols s"
    and "\<And>u. u_email (f u) = u_email u"
    and "\<And>u. fits 255 (u_displayName u) \<Longrightarrow> fits 255 (u_displayName (f u))"
    and "\<And>u. fits 50 (u_phoneNumber u) \<Longrightarrow> fits 50 (u_phoneNumber (f u))"
  shows "wf_cols (update_users i f s)"
  using assms by (auto simp: wf_cols_alt update_users_def)

lemma cols_update_oauth: "wf_cols s \<Longrightarrow> wf_cols (update_oauthProviders i p s)"
  by (auto simp: wf_cols_alt update_oauthProviders_def set_oauth_tokens_def)

lemma cols_insert_refresh:
  "wf_cols s \<Longrightarrow> insert_refreshTokens u h d e n s = Inr s' \<Longrightarrow> wf_cols s'"
  by (auto simp: insert_refreshTokens_Inr wf_cols_def)

lemma cols_insert_vt:
  "wf_cols s \<Longrightarrow> insert_verificationTokens u t ty e n s = Inr s' \<Longrightarrow> wf_cols s'"
  by (auto simp: insert_verificationTokens_Inr wf_cols_def)

lemma cols_insert_user:
  "wf_cols s \<Longrightarrow> insert_users em ev ph dn av n s = Inr (s', usr) \<Longrightarrow> wf_cols s'"
  by (auto simp: insert_users_Inr wf_cols_def varchar_length fits_varchar)

lemma cols_insert_oauth:
  "wf_cols s \<Longrightarrow> insert_oauthProviders u p n s = Inr s' \<Longrightarrow> wf_cols s'"
  by (auto simp: insert_oauthProviders_Inr wf_cols_def varchar_length)

lemma cols_issue: "wf_cols s \<Longrightarrow> wf_cols (fst (issue_tokens cfg now usr d m s))"
proof (cases "insert_refreshTokens (u_id usr)
                (hashToken (tp_refreshToken (generateTokenPair cfg now (u_id usr) (u_email usr))))
                (device_or_empty d) (now + days30) now s")
  case (Inl e)
  assume "wf_cols s"
  with Inl show ?thesis by (simp add: issue_tokens_def Let_def)
next
  case (Inr s1)
  assume "wf_cols s"
  from cols_insert_refresh[OF this Inr] have "wf_cols s1" .
  then have "wf_cols (logAuditEvent (Some (u_id usr)) LOGIN (opt_ip d) (opt_userAgent d) m True now
                  (update_users (u_id usr) (\<lambda>u. u\<lparr>u_lastLoginAt := Some now\<rparr>) s1))"
    by (intro cols_log cols_update_users) simp_all
  with Inr show ?thesis by (simp add: issue_tokens_def Let_def)
qed

lemma cols_login: "wf_cols s \<Longrightarrow> wf_cols (fst (login cfg now data d s))"
  by (auto simp: login_def Let_def cols_log cols_issue split: option.split)

lemma cols_register: "wf_cols s \<Longrightarrow> wf_cols (fst (register now salt rnd data d s))"
proof -
  assume w: "wf_cols s"
  show ?thesis
  proof (cases "valid (validatePasswordStrength (rd_password data)) \<and>
                find (\<lambda>u. u_email u = Some (rd_email data)) (users s) = None")
    case False
    with w show ?thesis by (auto simp: register_def Let_def split: option.split)
  next
    case True
    show ?thesis
    proof (cases "insert_users (rd_email data) False (Some (hashPassword salt (rd_password data)))
                    (or_null (rd_displayName data)) None now s")
      case (Inl e)
      with True w show ?thesis by (simp add: register_def Let_def)
    next
      case (Inr su)
      obtain s1 usr where su: "su = (s1, usr)" by (cases su) auto
      from cols_insert_user[OF w Inr[unfolded su]] have w1: "wf_cols s1" .
      show ?thesis
      proof (cases "insert_verificationTokens (u_id usr) (generateToken rnd) EmailVerification
                      (now + 24 * 60 * 60 * 1000) now s1")
        case (Inl e)
        with True Inr su w1 show ?thesis by (simp add: register_def Let_def)
      next
        case Inr2: (Inr s2)
        from cols_insert_vt[OF w1 Inr2] have "wf_cols s2" .
        with True Inr su Inr2 show ?thesis by (simp add: register_def Let_def cols_log cols_send)
      qed
    qed
  qed
qed

lemma cols_refresh: "wf_cols s \<Longrightarrow> wf_cols (fst (refreshAccessToken cfg now t d s))"
proof -
  assume w: "wf_cols s"
  have ins: "wf_cols (fst (case insert_refreshTokens u h dv e now (revoke_where P now s) of
                    Inl err \<Rightarrow> (revoke_where P now s, Inl err)
                  | Inr s2 \<Rightarrow> (logAuditEvent a b c g m ok now s2, Inr res)))"
    for u h dv e P a b c g m ok res
  proof (cases "insert_refreshTokens u h dv e now (revoke_where P now s)")
    case (Inl err)
    then show ?thesis using w by (simp add: cols_revoke)
  next
    case (Inr s2)
    from cols_insert_refresh[OF cols_revoke[OF w] Inr] have "wf_cols s2" .
    with Inr show ?thesis by (simp add: cols_log)
  qed
  show ?thesis
    using w by (auto simp: refreshAccessToken_def Let_def intro!: ins split: option.split)
qed

lemma cols_logout: "wf_cols s \<Longrightarrow> wf_cols (fst (logout now t uid d s))"
  by (simp add: logout_def Let_def cols_log cols_revoke)

lemma cols_verifyEmail: "wf_cols s \<Longrightarrow> wf_cols (fst (verifyEmail now t s))"
  by (auto simp: verifyEmail_def Let_def split: option.split
      intro!: cols_log cols_send cols_mark cols_update_users)

lemma cols_requestPasswordReset:
  "wf_cols s \<Longrightarrow> wf_cols (fst (requestPasswordReset now rnd email d s))"
proof -
  assume w: "wf_cols s"
  show ?thesis
  proof (cases "find (\<lambda>u. u_email u = Some email) (users s)")
    case None
    with w show ?thesis by (simp add: requestPasswordReset_def)
  next
    case (Some usr)
    show ?thesis
    proof (cases "insert_verificationTokens (u_id usr) (generateToken rnd) PasswordReset
                    (now + 60 * 60 * 1000) now s")
      case (Inl e)
      with Some w show ?thesis by (simp add: requestPasswordReset_def Let_def)
    next
      case (Inr s1)
      from cols_insert_vt[OF w Inr] have "wf_cols s1" .
      with Some Inr show ?thesis by (simp add: requestPasswordReset_def Let_def cols_log cols_send)
    qed
  qed
qed

lemma cols_resetPassword: "wf_cols s \<Longrightarrow> wf_cols (fst (resetPassword now salt t pw d s))"
  by (auto simp: resetPassword_def Let_def split: option.split
      intro!: cols_log cols_revoke cols_mark cols_update_users)

lemma cols_find_or_create:
  "wf_cols s \<Longrightarrow> wf_cols (fst (find_or_create_user now p d s))"
  by (auto simp: find_or_create_user_def cols_log split: option.split sum.split
      dest: cols_insert_user)

lemma cols_resolve: "wf_cols s \<Longrightarrow> wf_cols (fst (resolve_user now p d s))"
proof -
  assume w: "wf_cols s"
  show ?thesis
  proof (cases "find (\<lambda>r. op_provider r = p_provider p \<and> op_providerUserId r = p_providerId p)
             (oauthProviders s)")
    case (Some e)
    with w show ?thesis by (simp add: resolve_linked cols_update_oauth)
  next
    case None
    obtain s2 res2 where foc: "find_or_create_user now p d s = (s2, res2)"
      by (cases "find_or_create_user now p d s") auto
    from cols_find_or_create[OF w, of now p d] foc have w2: "wf_cols s2" by simp
    show ?thesis
    proof (cases res2)
      case (Inl e)
      with resolve_unlinked_failed[OF None foc[unfolded Inl]] w2 show ?thesis by simp
    next
      case (Inr ui)
      obtain usr isNew where ui: "ui = (usr, isNew)" by (cases ui) auto
      show ?thesis unfolding resolve_unlinked[OF None foc[unfolded Inr ui]]
        using w2 by (auto simp: cols_log split: sum.split dest: cols_insert_oauth)
    qed
  qed
qed

lemma cols_handleOAuthCallback:
  "wf_cols s \<Longrightarrow> wf_cols (fst (handleOAuthCallback cfg now p d s))"
proof -
  assume w: "wf_cols s"
  show ?thesis
  proof (cases rule: resolve_cases[of now p d s])
    case (failed s1 e)
    with cols_resolve[OF w, of now p d] show ?thesis by (simp add: handle_failed)
  next
    case (unresolved s1 isNew)
    with cols_resolve[OF w, of now p d] show ?thesis by (simp add: handle_unresolved)
  next
    case (resolved s1 usr isNew)
    with cols_resolve[OF w, of now p d] show ?thesis
      unfolding handle_state[OF resolved] by (intro cols_issue) simp
  qed
qed

lemma cols_removeOAuthProvider:
  "wf_cols s \<Longrightarrow> wf_cols (fst (removeOAuthProvider now p pid d s))"
proof (cases "find (\<lambda>r. op_provider r = p \<and> op_providerUserId r = pid) (oauthProviders s)")
  case None
  assume "wf_cols s"
  with None show ?thesis by (simp add: removeOAuthProvider_def)
next
  case (Some e)
  assume "wf_cols s"
  then have "wf_cols (s\<lparr>oauthProviders := filter (\<lambda>r. op_id r \<noteq> op_id e) (oauthProviders s)\<rparr>)"
    by (auto simp: wf_cols_alt)
  with Some show ?thesis by (simp add: removeOAuthProvider_def Let_def cols_log)
qed

lemma cols_updateProfile: "wf_cols s \<Longrightarrow> wf_cols (fst (updateProfile uid dn ph av s))"
  by (auto simp: updateProfile_def Let_def varchar_length intro!: cols_update_users
      split: option.split)

lemma cols_exec: "wf_cols s \<Longrightarrow> wf_cols (exec cfg x s)"
  by (cases x)
     (simp_all add: cols_register cols_login cols_refresh cols_logout cols_verifyEmail
        cols_requestPasswordReset cols_resetPassword cols_handleOAuthCallback
        cols_removeOAuthProvider cols_updateProfile)

lemma cols_run: "wf_cols s \<Longrightarrow> wf_cols (run cfg xs s)"
  by (induction xs arbitrary: s) (simp_all add: cols_exec)

lemma cols_init: "wf_cols init"
  by (simp add: wf_cols_def init_def)

lemma email_fits:
  "wf_cols s \<Longrightarrow> find (\<lambda>u. u_email u = Some e) (users s) = Some usr \<Longrightarrow> length e \<le> 255"
  using find_SomeD2[of "\<lambda>u. u_email u = Some e" "users s" usr]
  by (auto simp: wf_cols_alt)

subsection \<open>What one reconciliation adds to the store\<close>

lemma find_map_id:
  "(\<And>u. u_id (f u) = u_id u) \<Longrightarrow>
   find (\<lambda>u. u_id u = i) (map f xs) = map_option f (find (\<lambda>u. u_id u = i) xs)"
  by (induction xs) simp_all

lemma issue_success_users:
  assumes "issue_tokens cfg now usr d m s = (s', Inr x)"
  shows "users s' = map (\<lambda>u. if u_id u = u_id usr then u\<lparr>u_lastLoginAt := Some now\<rparr> else u) (users s)"
  using assms
  by (auto simp: issue_tokens_def Let_def insert_refreshTokens_Inr update_users_def
      split: sum.splits)

lemma find_or_create_member:
  assumes "find_or_create_user now p d s = (s2, Inr (usr, isNew))"
  shows "usr \<in> set (users s2)"
proof (cases "find (\<lambda>u. u_email u = Some (p_email p)) (users s)")
  case (Some a)
  from assms find_or_create_existing[OF Some, of now d] find_SomeD2[OF Some]
  show ?thesis by simp
next
  case None
  from assms show ?thesis unfolding find_or_create_new[OF None]
    by (auto simp: insert_users_Inr split: sum.splits)
qed

lemma resolve_member:
  assumes "resolve_user now p d s = (s1, Inr (Some usr, isNew))"
  shows "usr \<in> set (users s1)"
proof (cases "find (\<lambda>r. op_provider r = p_provider p \<and> op_providerUserId r = p_providerId p)
             (oauthProviders s)")
  case (Some e)
  from assms resolve_linked[OF Some, of now d]
  have "find (\<lambda>u. u_id u = op_userId e) (users s) = Some usr" "users s1 = users s" by auto
  with find_SomeD2[of "\<lambda>u. u_id u = op_userId e" "users s" usr] show ?thesis by simp
next
  case None
  obtain s2 res2 where foc: "find_or_create_user now p d s = (s2, res2)"
    by (cases "find_or_create_user now p d s") auto
  show ?thesis
  proof (cases res2)
    case (Inl e)
    with assms resolve_unlinked_failed[OF None foc[unfolded Inl]] show ?thesis by simp
  next
    case (Inr ui)
    obtain u isN where ui: "ui = (u, isN)" by (cases ui) auto
    note foc' = foc[unfolded Inr ui]
    from find_or_create_member[OF foc'] have "u \<in> set (users s2)" .
    with assms show ?thesis unfolding resolve_unlinked[OF None foc']
      by (auto simp: insert_oauthProviders_Inr split: sum.splits)
  qed
qed

lemma resolve_row:
  assumes "resolve_user now p d s = (s1, Inr (Some usr, isNew))"
    and "length (p_providerId p) \<le> 255"
  shows "\<exists>row\<in>set (oauthProviders s1).
           oauth_key row = (p_provider p, p_providerId p) \<and> op_userId row = u_id usr"
proof (cases "find (\<lambda>r. op_provider r = p_provider p \<and> op_providerUserId r = p_providerId p)
             (oauthProviders s)")
  case (Some e)
  from find_SomeD2[OF Some] have e: "e \<in> set (oauthProviders s)"
    "oauth_key e = (p_provider p, p_providerId p)" by (simp_all add: oauth_key_def)
  from assms(1) resolve_linked[OF Some, of now d]
  have f: "find (\<lambda>u. u_id u = op_userId e) (users s) = Some usr"
    and s1: "s1 = update_oauthProviders (op_id e) p s" by auto
  from find_SomeD2[OF f] have "u_id usr = op_userId e" by simp
  moreover have "set_oauth_tokens p e \<in> set (oauthProviders s1)"
    unfolding s1 using e(1) by (force simp: update_oauthProviders_def)
  moreover have "oauth_key (set_oauth_tokens p e) = (p_provider p, p_providerId p)"
    "op_userId (set_oauth_tokens p e) = op_userId e"
    using e(2) by (simp_all add: oauth_key_def set_oauth_tokens_def)
  ultimately show ?thesis by auto
next
  case None
  obtain s2 res2 where foc: "find_or_create_user now p d s = (s2, res2)"
    by (cases "find_or_create_user now p d s") auto
  show ?thesis
  proof (cases res2)
    case (Inl e)
    with assms resolve_unlinked_failed[OF None foc[unfolded Inl]] show ?thesis by simp
  next
    case (Inr ui)
    obtain u isN where ui: "ui = (u, isN)" by (cases ui) auto
    note foc' = foc[unfolded Inr ui]
    from assms(1) varchar_fit[OF assms(2)] show ?thesis
      unfolding resolve_unlinked[OF None foc']
      by (auto simp: insert_oauthProviders_Inr oauth_key_def split: sum.splits)
  qed
qed

text \<open>
  After a call that returns, and for a subject that fits its column, the identity is
  linked to the account that the call returned.
\<close>

lemma linked_after:
  assumes w: "wf s" and h: "handleOAuthCallback cfg now p d s = (s1, Inr x)"
    and len: "length (p_providerId p) \<le> 255"
  shows "\<exists>row owner. row \<in> set (oauthProviders s1) \<and>
           oauth_key row = (p_provider p, p_providerId p) \<and>
           op_userId row = uv_id (res_user x) \<and>
           find (\<lambda>u. u_id u = op_userId row) (users s1) = Some owner \<and>
           to_view owner = res_user x"
proof (cases rule: resolve_cases[of now p d s])
  case (failed s0 e)
  with h show ?thesis by (simp add: handle_failed)
next
  case (unresolved s0 isNew)
  with h show ?thesis by (simp add: handle_unresolved)
next
  case (resolved s0 usr isNew)
  from handle_result[OF resolved h] have rx: "res_user x = to_view usr" by simp
  from wf_resolve[OF w resolved] have w0: "wf s0" by simp
  from resolve_member[OF resolved] have mem: "usr \<in> set (users s0)" .
  from w0 have "distinct (map u_id (users s0))" by (simp add: wf_alt)
  from find_distinct[OF this mem]
  have f0: "find (\<lambda>u. u_id u = u_id usr) (users s0) = Some usr" .
  obtain s2 res where i: "issue_tokens cfg now usr d
        [(''provider'', provider_name (p_provider p))] s0 = (s2, res)"
    by (cases "issue_tokens cfg now usr d [(''provider'', provider_name (p_provider p))] s0") auto
  from h i obtain y where res: "res = Inr y" and s2: "s2 = s1"
    unfolding handle_resolved[OF resolved] by (cases res) auto
  from issue_success_users[OF i[unfolded res]] s2
  have us: "users s1 =
        map (\<lambda>u. if u_id u = u_id usr then u\<lparr>u_lastLoginAt := Some now\<rparr> else u) (users s0)"
    by simp
  have f1: "find (\<lambda>u. u_id u = u_id usr) (users s1) = Some (usr\<lparr>u_lastLoginAt := Some now\<rparr>)"
    unfolding us by (subst find_map_id) (simp_all add: f0)
  from handle_state[OF resolved, of cfg] h have o: "oauthProviders s1 = oauthProviders s0"
    by simp
  from resolve_row[OF resolved len] o obtain row where
    "row \<in> set (oauthProviders s1)" "oauth_key row = (p_provider p, p_providerId p)"
    "op_userId row = u_id usr" by auto
  with f1 rx show ?thesis
    by (intro exI[of _ row] exI[of _ "usr\<lparr>u_lastLoginAt := Some now\<rparr>"])
       (simp add: to_view_def)
qed

text \<open>
  A reconciliation adds at most one account, with the email of the assertion as stored,
  and at most one linked identity, with its provider and its subject as stored; what it
  adds was not there.
\<close>

lemma find_or_create_adds:
  assumes "find_or_create_user now p d s = (s2, res)"
  shows "oauthProviders s2 = oauthProviders s \<and>
         (users s2 = users s \<or>
          (\<exists>u. users s2 = users s @ [u] \<and> u_email u = Some (varchar 255 (p_email p)) \<and>
               Some (varchar 255 (p_email p)) \<notin> u_email ` set (users s)))"
proof (cases "find (\<lambda>u. u_email u = Some (p_email p)) (users s)")
  case (Some a)
  from assms find_or_create_existing[OF Some, of now d] show ?thesis by simp
next
  case None
  from assms show ?thesis unfolding find_or_create_new[OF None]
    by (auto simp: insert_users_Inr split: sum.splits)
qed

lemma resolve_adds:
  assumes "resolve_user now p d s = (s1, res)"
  shows "(users s1 = users s \<or>
          (\<exists>u. users s1 = users s @ [u] \<and> u_email u = Some (varchar 255 (p_email p)) \<and>
               Some (varchar 255 (p_email p)) \<notin> u_email ` set (users s))) \<and>
         (map oauth_key (oauthProviders s1) = map oauth_key (oauthProviders s) \<or>
          (map oauth_key (oauthProviders s1) =
             map oauth_key (oauthProviders s) @ [(p_provider p, varchar 255 (p_providerId p))] \<and>
           (p_provider p, varchar 255 (p_providerId p)) \<notin> oauth_key ` set (oauthProviders s)))"
proof (cases "find (\<lambda>r. op_provider r = p_provider p \<and> op_providerUserId r = p_providerId p)
             (oauthProviders s)")
  case (Some e)
  from assms resolve_linked[OF Some, of now d]
  have "s1 = update_oauthProviders (op_id e) p s" by simp
  moreover have "map oauth_key (oauthProviders (update_oauthProviders (op_id e) p s)) =
                 map oauth_key (oauthProviders s)"
    using keys_update_oauthProviders[of "op_id e" p s] by (simp add: keys_def)
  ultimately show ?thesis by simp
next
  case None
  obtain s2 res2 where foc: "find_or_create_user now p d s = (s2, res2)"
    by (cases "find_or_create_user now p d s") auto
  note a = find_or_create_adds[OF foc]
  show ?thesis
  proof (cases res2)
    case (Inl e)
    with assms resolve_unlinked_failed[OF None foc[unfolded Inl]] a show ?thesis by auto
  next
    case (Inr ui)
    obtain u isN where ui: "ui = (u, isN)" by (cases ui) auto
    note r = assms[unfolded resolve_unlinked[OF None foc[unfolded Inr ui]]]
    show ?thesis
    proof (cases "insert_oauthProviders (u_id u) p now s2")
      case (Inl e)
      with r a show ?thesis by auto
    next
      case Inr2: (Inr s3)
      from Inr2 a have "users s3 = users s2"
        "map oauth_key (oauthProviders s3) =
           map oauth_key (oauthProviders s) @ [(p_provider p, varchar 255 (p_providerId p))]"
        "(p_provider p, varchar 255 (p_providerId p)) \<notin> oauth_key ` set (oauthProviders s)"
        by (simp_all add: insert_oauthProviders_Inr oauth_key_def)
      with r Inr2 a show ?thesis by auto
    qed
  qed
qed

lemma email_issue:
  "map u_email (users (fst (issue_tokens cfg now usr d m s))) = map u_email (users s)"
  by (auto simp: issue_tokens_def Let_def insert_refreshTokens_Inr update_users_def
      split: sum.split)

lemma handle_adds:
  assumes "handleOAuthCallback cfg now p d s = (s', r)"
  shows "(map u_email (users s') = map u_email (users s) \<or>
          (map u_email (users s') = map u_email (users s) @ [Some (varchar 255 (p_email p))] \<and>
           Some (varchar 255 (p_email p)) \<notin> set (map u_email (users s)))) \<and>
         (map oauth_key (oauthProviders s') = map oauth_key (oauthProviders s) \<or>
          (map oauth_key (oauthProviders s') =
             map oauth_key (oauthProviders s) @ [(p_provider p, varchar 255 (p_providerId p))] \<and>
           (p_provider p, varchar 255 (p_providerId p)) \<notin> set (map oauth_key (oauthProviders s))))"
proof -
  obtain s1 res where rs: "resolve_user now p d s = (s1, res)"
    by (cases "resolve_user now p d s") auto
  have "map u_email (users s') = map u_email (users s1) \<and> oauthProviders s' = oauthProviders s1"
  proof (cases rule: resolve_cases[of now p d s])
    case (failed s0 e)
    from handle_failed[OF failed, of cfg] assms rs failed show ?thesis by auto
  next
    case (unresolved s0 isNew)
    from handle_unresolved[OF unresolved, of cfg] assms rs unresolved show ?thesis by auto
  next
    case (resolved s0 usr isNew)
    from handle_state[OF resolved, of cfg] assms rs resolved show ?thesis
      by (auto simp: email_issue)
  qed
  with resolve_adds[OF rs] show ?thesis by auto
qed

lemma at_most_one:
  assumes "xs1 = xs \<or> (xs1 = xs @ [v] \<and> v \<notin> set xs)"
    and "xs2 = xs1 \<or> (xs2 = xs1 @ [v] \<and> v \<notin> set xs1)"
  shows "length xs2 \<le> Suc (length xs)"
  using assms by auto

subsection \<open>Refreshing and revoking\<close>

lemma revoked_hash_iff:
  "revoked_hash h rows \<longleftrightarrow> h \<in> rt_tokenHash ` set rows \<and>
     (\<forall>r\<in>set rows. rt_tokenHash r = h \<longrightarrow> rt_revokedAt r \<noteq> None)"
  by (auto simp: revoked_hash_def list_ex_iff list_all_iff)

lemma map_hash_revoke:
  "map rt_tokenHash (map (\<lambda>r. if P r then r\<lparr>rt_revokedAt := Some n\<rparr> else r) rows) =
   map rt_tokenHash rows"
  by (induction rows) auto

lemma set_hash_revoke:
  "rt_tokenHash ` set (map (\<lambda>r. if P r then r\<lparr>rt_revokedAt := Some n\<rparr> else r) rows) =
   rt_tokenHash ` set rows"
  using map_hash_revoke[of P n rows] by (metis set_map)

lemma revoke_where_hashes:
  "rt_tokenHash ` set (refreshTokens (revoke_where P n s)) = rt_tokenHash ` set (refreshTokens s)"
  unfolding revoke_where_def using set_hash_revoke[of P n "refreshTokens s"] by simp

lemma revoke_where_rows:
  "refreshTokens (revoke_where P n s) =
   map (\<lambda>r. if P r then r\<lparr>rt_revokedAt := Some n\<rparr> else r) (refreshTokens s)"
  by (simp add: revoke_where_def)

lemma list_all_revoke:
  "list_all (\<lambda>r. rt_tokenHash r = h \<longrightarrow> rt_revokedAt r \<noteq> None) rows \<Longrightarrow>
   list_all (\<lambda>r. rt_tokenHash r = h \<longrightarrow> rt_revokedAt r \<noteq> None)
     (map (\<lambda>r. if P r then r\<lparr>rt_revokedAt := Some n\<rparr> else r) rows)"
  by (induction rows) auto

lemma revoked_hash_map:
  "revoked_hash h rows \<Longrightarrow>
   revoked_hash h (map (\<lambda>r. if P r then r\<lparr>rt_revokedAt := Some n\<rparr> else r) rows)"
  unfolding revoked_hash_def list_ex_iff
  using set_hash_revoke[of P n rows] list_all_revoke[of h rows P n]
  by (metis (no_types, lifting) image_iff)

lemma revoked_hash_step: "rt_step rows rows' \<Longrightarrow> revoked_hash h rows \<Longrightarrow> revoked_hash h rows'"
proof (induction rule: rt_step.induct)
  case (rt_add r rows)
  then show ?case by (auto simp: revoked_hash_iff)
qed (auto simp: revoked_hash_map)

lemma refresh_revoked_hash:
  assumes "revoked_hash (hashToken t) (refreshTokens s)"
  shows "refreshAccessToken cfg now t d s =
           (s, Inl (UnauthorizedError ''Invalid or expired refresh token''))"
proof (cases "find (\<lambda>r. rt_tokenHash r = hashToken t \<and> rt_expiresAt r > now) (refreshTokens s)")
  case None
  then show ?thesis by (simp add: refreshAccessToken_def)
next
  case (Some tok)
  from find_SomeD2[OF Some] assms have "rt_revokedAt tok \<noteq> None"
    by (auto simp: revoked_hash_iff)
  with Some show ?thesis by (auto simp: refreshAccessToken_def)
qed

lemma refresh_success:
  assumes ok: "refreshAccessToken cfg now t d s = (s', Inr res)"
  shows "\<exists>old usr. find (\<lambda>r. rt_tokenHash r = hashToken t \<and> rt_expiresAt r > now) (refreshTokens s) = Some old \<and>
           rt_revokedAt old = None \<and>
           find (\<lambda>u. u_id u = rt_userId old) (users s) = Some usr \<and> u_status usr = Active \<and>
           res_refreshToken res = generateRefreshToken cfg now (u_id usr) (u_email usr) \<and>
           hashToken (res_refreshToken res) \<notin> rt_tokenHash ` set (refreshTokens s) \<and>
           refreshTokens s' =
             map (\<lambda>r. if rt_id r = rt_id old then r\<lparr>rt_revokedAt := Some now\<rparr> else r) (refreshTokens s) @
             [\<lparr>rt_id = nextId s, rt_userId = rt_userId old,
               rt_tokenHash = hashToken (res_refreshToken res),
               rt_deviceInfo = device_or_empty d, rt_expiresAt = now + 30 * 24 * 60 * 60 * 1000,
               rt_createdAt = now, rt_revokedAt = None\<rparr>]"
proof (cases "find (\<lambda>r. rt_tokenHash r = hashToken t \<and> rt_expiresAt r > now) (refreshTokens s)")
  case None
  with ok show ?thesis by (simp add: refreshAccessToken_def)
next
  case (Some old)
  note old = Some
  show ?thesis
  proof (cases "find (\<lambda>u. u_id u = rt_userId old) (users s)")
    case None
    with ok old show ?thesis by (simp add: refreshAccessToken_def split: if_splits)
  next
    case (Some usr)
    have uid: "u_id usr = rt_userId old" using find_SomeD2[OF Some] by simp
    let ?h = "hashToken (generateRefreshToken cfg now (u_id usr) (u_email usr))"
    let ?s1 = "revoke_where (\<lambda>r. rt_id r = rt_id old) now s"
    from ok old Some have live: "rt_revokedAt old = None" and act: "u_status usr = Active"
      by (auto simp: refreshAccessToken_def split: if_splits)
    show ?thesis
    proof (cases "insert_refreshTokens (u_id usr) ?h (device_or_empty d) (now + days30) now ?s1")
      case (Inl e)
      with ok old Some live act show ?thesis
        by (simp add: refreshAccessToken_def Let_def generateTokenPair_def)
    next
      case (Inr s2)
      from ok old Some live act Inr
      have s': "s' = logAuditEvent (Some (u_id usr)) TOKEN_REFRESH (opt_ip d) (opt_userAgent d) [] True now s2"
        and res: "res_refreshToken res = generateRefreshToken cfg now (u_id usr) (u_email usr)"
        by (auto simp: refreshAccessToken_def Let_def generateTokenPair_def)
      from Inr have fresh: "?h \<notin> rt_tokenHash ` set (refreshTokens ?s1)"
        and s2: "refreshTokens s2 = refreshTokens ?s1 @
                  [\<lparr>rt_id = nextId ?s1, rt_userId = u_id usr, rt_tokenHash = ?h,
                    rt_deviceInfo = device_or_empty d, rt_expiresAt = now + days30,
                    rt_createdAt = now, rt_revokedAt = None\<rparr>]"
        by (simp_all add: insert_refreshTokens_Inr)
      have hashes: "rt_tokenHash ` set (refreshTokens ?s1) = rt_tokenHash ` set (refreshTokens s)"
        by (rule revoke_where_hashes)
      from fresh hashes have fresh': "?h \<notin> rt_tokenHash ` set (refreshTokens s)"
        by simp
      from s2 have s2': "refreshTokens s2 =
             map (\<lambda>r. if rt_id r = rt_id old then r\<lparr>rt_revokedAt := Some now\<rparr> else r) (refreshTokens s) @
             [\<lparr>rt_id = nextId s, rt_userId = u_id usr, rt_tokenHash = ?h,
               rt_deviceInfo = device_or_empty d, rt_expiresAt = now + days30,
               rt_createdAt = now, rt_revokedAt = None\<rparr>]"
        by (simp add: revoke_where_rows)
      show ?thesis
        using old live Some act res fresh' s2' s' uid
        by (simp add: days30_def)
    qed
  qed
qed

lemma refresh_accepts:
  assumes found: "find (\<lambda>r. rt_tokenHash r = hashToken t \<and> now < rt_expiresAt r) (refreshTokens s) = Some r"
    and live: "rt_revokedAt r = None"
    and usr: "find (\<lambda>u. u_id u = rt_userId r) (users s) = Some u" "u_status u = Active"
    and fresh: "hashToken (generateRefreshToken cfg now (u_id u) (u_email u))
                  \<notin> rt_tokenHash ` set (refreshTokens s)"
  shows "\<exists>s'. refreshAccessToken cfg now t d s =
           (s', Inr \<lparr>res_accessToken = generateAccessToken cfg now (u_id u) (u_email u),
                     res_refreshToken = generateRefreshToken cfg now (u_id u) (u_email u),
                     res_tokenType = ''Bearer'', res_expiresIn = accessTokenExpiry cfg\<rparr>)"
proof -
  let ?s1 = "revoke_where (\<lambda>x. rt_id x = rt_id r) now s"
  from fresh have "hashToken (generateRefreshToken cfg now (u_id u) (u_email u))
                  \<notin> rt_tokenHash ` set (refreshTokens ?s1)"
    by (simp add: revoke_where_hashes)
  then have "\<not> list_ex (\<lambda>x. rt_tokenHash x =
          hashToken (generateRefreshToken cfg now (u_id u) (u_email u))) (refreshTokens ?s1)"
    unfolding list_ex_iff by (metis image_eqI)
  then obtain s2 where "insert_refreshTokens (u_id u)
         (hashToken (generateRefreshToken cfg now (u_id u) (u_email u)))
         (device_or_empty d) (now + days30) now ?s1 = Inr s2"
    by (simp add: insert_refreshTokens_def)
  with found live usr show ?thesis
    by (simp add: refreshAccessToken_def Let_def generateTokenPair_def)
qed


lemma revoked_after_refresh:
  assumes d: "distinct (map rt_tokenHash (refreshTokens s))"
    and ok: "refreshAccessToken cfg now t dv s = (s', Inr res)"
  shows "revoked_hash (hashToken t) (refreshTokens s')"
proof -
  from refresh_success[OF ok] obtain old usr where
    old: "find (\<lambda>r. rt_tokenHash r = hashToken t \<and> rt_expiresAt r > now) (refreshTokens s) = Some old"
    and fresh: "hashToken (res_refreshToken res) \<notin> rt_tokenHash ` set (refreshTokens s)"
    and rows: "refreshTokens s' =
             map (\<lambda>r. if rt_id r = rt_id old then r\<lparr>rt_revokedAt := Some now\<rparr> else r) (refreshTokens s) @
             [\<lparr>rt_id = nextId s, rt_userId = rt_userId old,
               rt_tokenHash = hashToken (res_refreshToken res),
               rt_deviceInfo = device_or_empty dv, rt_expiresAt = now + 30 * 24 * 60 * 60 * 1000,
               rt_createdAt = now, rt_revokedAt = None\<rparr>]"
    by blast
  from find_SomeD2[OF old] have mem: "old \<in> set (refreshTokens s)"
    and h: "rt_tokenHash old = hashToken t" by auto
  have only: "r = old" if "r \<in> set (refreshTokens s)" "rt_tokenHash r = hashToken t" for r
    using find_unique[OF d old that(1)] that(2) h by simp
  from mem h fresh have ne: "hashToken (res_refreshToken res) \<noteq> hashToken t"
    by (metis image_eqI)
  have ex: "hashToken t \<in> rt_tokenHash ` set (refreshTokens s')"
    unfolding rows using mem h set_hash_revoke[of "\<lambda>r. rt_id r = rt_id old" now "refreshTokens s"]
    by (metis (no_types, lifting) Un_iff image_Un image_eqI set_append)
  have all: "rt_revokedAt r \<noteq> None"
    if "r \<in> set (refreshTokens s')" "rt_tokenHash r = hashToken t" for r
  proof -
    from that ne rows obtain r0 where r0: "r0 \<in> set (refreshTokens s)"
      and r: "r = (if rt_id r0 = rt_id old then r0\<lparr>rt_revokedAt := Some now\<rparr> else r0)"
      by auto
    from r that(2) have "rt_tokenHash r0 = hashToken t" by (auto split: if_splits)
    with only r0 have "r0 = old" by simp
    with r show ?thesis by simp
  qed
  from ex all show ?thesis by (simp add: revoked_hash_iff)
qed


lemma revoked_hash_after_revoke:
  assumes d: "distinct (map rt_tokenHash rows)" and mem: "r \<in> set rows" and P: "P r"
  shows "revoked_hash (rt_tokenHash r)
           (map (\<lambda>r. if P r then r\<lparr>rt_revokedAt := Some n\<rparr> else r) rows)"
proof -
  let ?f = "\<lambda>r. if P r then r\<lparr>rt_revokedAt := Some n\<rparr> else r"
  have ex: "rt_tokenHash r \<in> rt_tokenHash ` set (map ?f rows)"
    using mem set_hash_revoke[of P n rows] by (metis image_eqI)
  have all: "rt_revokedAt r' \<noteq> None"
    if "r' \<in> set (map ?f rows)" "rt_tokenHash r' = rt_tokenHash r" for r'
  proof -
    from that(1) obtain r0 where r0: "r0 \<in> set rows" and r': "r' = ?f r0" by auto
    from r' that(2) have "rt_tokenHash r0 = rt_tokenHash r" by (auto split: if_splits)
    with d r0 mem have "r0 = r" by (auto simp: distinct_map inj_on_def)
    with r' P show ?thesis by simp
  qed
  from ex all show ?thesis unfolding revoked_hash_iff by blast
qed

lemma reset_success:
  assumes ok: "resetPassword now salt tok pw dv s = (s', Inr msg)"
  shows "\<exists>rt. find (\<lambda>r. vt_token r = tok \<and> vt_tokenType r = PasswordReset \<and> vt_expiresAt r > now)
                 (verificationTokens s) = Some rt \<and>
           vt_usedAt rt = None \<and> valid (validatePasswordStrength pw) \<and>
           users s' = map (\<lambda>u. if u_id u = vt_userId rt
                               then u\<lparr>u_passwordHash := Some (hashPassword salt pw)\<rparr> else u) (users s) \<and>
           verificationTokens s' =
             map (\<lambda>r. if vt_id r = vt_id rt then r\<lparr>vt_usedAt := Some now\<rparr> else r) (verificationTokens s) \<and>
           refreshTokens s' =
             map (\<lambda>r. if rt_userId r = vt_userId rt then r\<lparr>rt_revokedAt := Some now\<rparr> else r)
               (refreshTokens s)"
proof (cases "find (\<lambda>r. vt_token r = tok \<and> vt_tokenType r = PasswordReset \<and> vt_expiresAt r > now)
                 (verificationTokens s)")
  case None
  with ok show ?thesis by (simp add: resetPassword_def Let_def split: if_splits)
next
  case (Some rt)
  with ok show ?thesis
    by (auto simp: resetPassword_def Let_def revoke_where_def mark_used_def update_users_def
        split: if_splits)
qed


subsection \<open>What a successful call stores\<close>

lemma issue_success:
  assumes "issue_tokens cfg now usr d m s = (s', Inr x)"
  shows "refreshTokens s' = refreshTokens s @
           [\<lparr>rt_id = nextId s, rt_userId = u_id usr,
             rt_tokenHash = hashToken (res_refreshToken x),
             rt_deviceInfo = device_or_empty d,
             rt_expiresAt = now + 30 * 24 * 60 * 60 * 1000,
             rt_createdAt = now, rt_revokedAt = None\<rparr>] \<and>
         verificationTokens s' = verificationTokens s \<and> outbox s' = outbox s \<and>
         res_user x = to_view usr \<and>
         res_refreshToken x = generateRefreshToken cfg now (u_id usr) (u_email usr)"
proof (cases "insert_refreshTokens (u_id usr)
                (hashToken (tp_refreshToken (generateTokenPair cfg now (u_id usr) (u_email usr))))
                (device_or_empty d) (now + days30) now s")
  case (Inl e)
  with assms show ?thesis by (simp add: issue_tokens_def Let_def)
next
  case (Inr s1)
  with assms have "res_refreshToken x = tp_refreshToken (generateTokenPair cfg now (u_id usr) (u_email usr))"
    and "refreshTokens s' = refreshTokens s1" and "verificationTokens s' = verificationTokens s1"
    and "outbox s' = outbox s1" and "res_user x = to_view usr"
    by (auto simp: issue_tokens_def Let_def)
  with Inr show ?thesis
    by (simp add: insert_refreshTokens_Inr days30_def generateTokenPair_def)
qed

lemma signed_not_drawn: "generateRefreshToken cfg now i e \<noteq> generateToken rnd"
  by (simp add: generateRefreshToken_def generateToken_def)

lemma login_success:
  assumes "login cfg now data d s = (s', Inr x)"
  shows "refreshTokens s' = refreshTokens s @
           [\<lparr>rt_id = nextId s, rt_userId = uv_id (res_user x),
             rt_tokenHash = hashToken (res_refreshToken x),
             rt_deviceInfo = device_or_empty d,
             rt_expiresAt = now + 30 * 24 * 60 * 60 * 1000,
             rt_createdAt = now, rt_revokedAt = None\<rparr>] \<and>
         verificationTokens s' = verificationTokens s \<and> outbox s' = outbox s \<and>
         (\<forall>rnd. res_refreshToken x \<noteq> generateToken rnd)"
proof -
  from assms obtain usr where "issue_tokens cfg now usr d [] s = (s', Inr x)"
    by (auto simp: login_def Let_def split: option.splits if_splits)
  from issue_success[OF this] show ?thesis by (simp add: to_view_def signed_not_drawn)
qed

lemma find_or_create_user_outbox:
  "outbox (fst (find_or_create_user now p d s)) = outbox s"
  by (auto simp: find_or_create_user_def insert_users_Inr split: option.split sum.split)

lemma resolve_user_outbox: "outbox (fst (resolve_user now p d s)) = outbox s"
  using find_or_create_user_outbox[of now p d s]
  by (auto simp: resolve_user_def insert_oauthProviders_Inr
      split: option.split sum.split prod.split)

lemma oauth_success:
  assumes "handleOAuthCallback cfg now p d s = (s', Inr x)"
  shows "(\<exists>i. refreshTokens s' = refreshTokens s @
           [\<lparr>rt_id = i, rt_userId = uv_id (res_user x),
             rt_tokenHash = hashToken (res_refreshToken x),
             rt_deviceInfo = device_or_empty d,
             rt_expiresAt = now + 30 * 24 * 60 * 60 * 1000,
             rt_createdAt = now, rt_revokedAt = None\<rparr>]) \<and>
         verificationTokens s' = verificationTokens s \<and> outbox s' = outbox s \<and>
         (\<forall>rnd. res_refreshToken x \<noteq> generateToken rnd)"
proof (cases rule: resolve_cases[of now p d s])
  case (failed s1 e)
  with assms show ?thesis by (simp add: handle_failed)
next
  case (unresolved s1 isNew)
  with assms show ?thesis by (simp add: handle_unresolved)
next
  case (resolved s1 usr isNew)
  have fr: "refreshTokens s1 = refreshTokens s" "verificationTokens s1 = verificationTokens s"
    "outbox s1 = outbox s"
    using resolve_user_rt[of now p d s] resolve_user_vt[of now p d s]
      resolve_user_outbox[of now p d s] resolved by simp_all
  obtain s2 res where i: "issue_tokens cfg now usr d
        [(''provider'', provider_name (p_provider p))] s1 = (s2, res)"
    by (cases "issue_tokens cfg now usr d [(''provider'', provider_name (p_provider p))] s1") auto
  from assms i obtain y where res: "res = Inr y" and s2: "s2 = s'"
    and xy: "res_refreshToken x = res_refreshToken y" "res_user x = res_user y"
    unfolding handle_resolved[OF resolved] by (cases res) auto
  from issue_success[OF i[unfolded res]] fr s2 xy show ?thesis
    by (auto simp: to_view_def signed_not_drawn)
qed

lemma refresh_keeps:
  "verificationTokens (fst (refreshAccessToken cfg now t d s)) = verificationTokens s \<and>
   outbox (fst (refreshAccessToken cfg now t d s)) = outbox s"
  by (auto simp: refreshAccessToken_def Let_def insert_refreshTokens_Inr
      split: option.split sum.split)

lemma register_success:
  assumes "register now salt rnd data d s = (s', Inr v)"
  shows "\<exists>row. verificationTokens s' = verificationTokens s @ [row] \<and>
           vt_token row = generateToken rnd \<and> vt_tokenType row = EmailVerification \<and>
           vt_userId row = rv_id (fst v) \<and>
           vt_expiresAt row = now + 24 * 60 * 60 * 1000 \<and> vt_usedAt row = None \<and>
           outbox s' = outbox s @ [VerificationEmail (rv_email (fst v)) (generateToken rnd)] \<and>
           refreshTokens s' = refreshTokens s"
proof -
  from assms have ok: "valid (validatePasswordStrength (rd_password data))"
    "find (\<lambda>u. u_email u = Some (rd_email data)) (users s) = None"
    by (auto simp: register_def Let_def split: if_splits option.splits)
  show ?thesis
  proof (cases "insert_users (rd_email data) False (Some (hashPassword salt (rd_password data)))
                    (or_null (rd_displayName data)) None now s")
    case (Inl e)
    with assms ok show ?thesis by (simp add: register_def Let_def)
  next
    case (Inr su)
    obtain s1 usr where su: "su = (s1, usr)" by (cases su) auto
    from Inr su have fr: "verificationTokens s1 = verificationTokens s" "outbox s1 = outbox s"
      "refreshTokens s1 = refreshTokens s"
      by (simp_all add: insert_users_Inr)
    show ?thesis
    proof (cases "insert_verificationTokens (u_id usr) (generateToken rnd) EmailVerification
                      (now + 24 * 60 * 60 * 1000) now s1")
      case (Inl e)
      with assms ok Inr su show ?thesis by (simp add: register_def Let_def)
    next
      case Inr2: (Inr s2)
      with assms ok Inr su
      have "s' = logAuditEvent (Some (u_id usr)) REGISTER (opt_ip d) (opt_userAgent d) [] True now
                   (send (VerificationEmail (u_email usr) (generateToken rnd)) s2)"
        and "rv_id (fst v) = u_id usr" and "rv_email (fst v) = u_email usr"
        by (auto simp: register_def Let_def)
      with Inr2 fr show ?thesis by (simp add: insert_verificationTokens_Inr send_def)
    qed
  qed
qed

lemma request_success:
  assumes "requestPasswordReset now rnd email d s = (s', Inr m)"
    and "find (\<lambda>u. u_email u = Some email) (users s) = Some usr"
  shows "\<exists>row. verificationTokens s' = verificationTokens s @ [row] \<and>
           vt_token row = generateToken rnd \<and> vt_tokenType row = PasswordReset \<and>
           vt_userId row = u_id usr \<and>
           vt_expiresAt row = now + 60 * 60 * 1000 \<and> vt_usedAt row = None \<and>
           outbox s' = outbox s @ [PasswordResetEmail (Some email) (generateToken rnd)] \<and>
           refreshTokens s' = refreshTokens s"
proof (cases "insert_verificationTokens (u_id usr) (generateToken rnd) PasswordReset
                    (now + 60 * 60 * 1000) now s")
  case (Inl e)
  with assms show ?thesis by (simp add: requestPasswordReset_def Let_def)
next
  case (Inr s1)
  from find_SomeD2[OF assms(2)] have em: "u_email usr = Some email" by simp
  from Inr assms have "s' = logAuditEvent (Some (u_id usr)) PASSWORD_RESET_REQUEST
                             (opt_ip d) (opt_userAgent d) [] True now
                           (send (PasswordResetEmail (u_email usr) (generateToken rnd)) s1)"
    by (auto simp: requestPasswordReset_def Let_def)
  with Inr em show ?thesis by (simp add: insert_verificationTokens_Inr send_def)
qed

subsection \<open>What the column of one-time tokens holds along a run\<close>

text \<open>
  No call writes to the column of one-time tokens but \<^verbatim>\<open>register\<close> and
  \<^verbatim>\<open>requestPasswordReset\<close>, and what they write is the token they drew.
\<close>

lemma tokens_mark_used:
  "map vt_token (verificationTokens (mark_used i n s)) = map vt_token (verificationTokens s)"
  using keys_mark_used[of i n s] by (simp add: keys_def)

lemma tokens_register:
  "set (map vt_token (verificationTokens (fst (register now salt rnd data d s)))) \<subseteq>
   set (map vt_token (verificationTokens s)) \<union> range generateToken"
  by (auto simp: register_def Let_def insert_verificationTokens_Inr insert_users_Inr
      split: option.split sum.split)

lemma tokens_login:
  "verificationTokens (fst (login cfg now data d s)) = verificationTokens s"
  by (simp add: login_def Let_def vt_issue split: option.split)

lemma tokens_logout:
  "verificationTokens (fst (logout now t uid d s)) = verificationTokens s"
  by (simp add: logout_def Let_def)

lemma tokens_verifyEmail:
  "map vt_token (verificationTokens (fst (verifyEmail now t s))) =
   map vt_token (verificationTokens s)"
  by (simp add: verifyEmail_def Let_def tokens_mark_used split: option.split)

lemma tokens_requestPasswordReset:
  "set (map vt_token (verificationTokens (fst (requestPasswordReset now rnd email d s)))) \<subseteq>
   set (map vt_token (verificationTokens s)) \<union> range generateToken"
  by (auto simp: requestPasswordReset_def Let_def insert_verificationTokens_Inr
      split: option.split sum.split)

lemma tokens_resetPassword:
  "map vt_token (verificationTokens (fst (resetPassword now salt t pw d s))) =
   map vt_token (verificationTokens s)"
  by (simp add: resetPassword_def Let_def tokens_mark_used split: option.split)

lemma tokens_handleOAuthCallback:
  "verificationTokens (fst (handleOAuthCallback cfg now p d s)) = verificationTokens s"
proof (cases rule: resolve_cases[of now p d s])
  case (failed s1 e)
  with resolve_user_vt[of now p d s] show ?thesis by (simp add: handle_failed)
next
  case (unresolved s1 isNew)
  with resolve_user_vt[of now p d s] show ?thesis by (simp add: handle_unresolved)
next
  case (resolved s1 usr isNew)
  with resolve_user_vt[of now p d s] show ?thesis
    unfolding handle_state[OF resolved] by (simp add: vt_issue)
qed

lemma tokens_exec:
  "set (map vt_token (verificationTokens (exec cfg x s))) \<subseteq>
   set (map vt_token (verificationTokens s)) \<union> range generateToken"
proof (cases x)
  case (Register now salt rnd data d)
  then show ?thesis using tokens_register[of now salt rnd data d s] by simp
next
  case (RequestPasswordReset now rnd email d)
  then show ?thesis using tokens_requestPasswordReset[of now rnd email d s] by simp
next
  case (VerifyEmail now t)
  then show ?thesis using tokens_verifyEmail[of now t s] by simp
next
  case (ResetPassword now salt t pw d)
  then show ?thesis using tokens_resetPassword[of now salt t pw d s] by simp
qed (simp_all add: tokens_login refresh_keeps tokens_logout tokens_handleOAuthCallback
       removeOAuthProvider_def updateProfile_def Let_def split: option.split)

lemma tokens_run:
  "set (map vt_token (verificationTokens (run cfg xs s))) \<subseteq>
   set (map vt_token (verificationTokens s)) \<union> range generateToken"
proof (induction xs arbitrary: s)
  case Nil
  show ?case by simp
next
  case (Cons x xs)
  from Cons.IH[of "exec cfg x s"] tokens_exec[of cfg x s] show ?case by auto
qed

lemma signed_never_raw:
  assumes "\<forall>rnd. t \<noteq> generateToken rnd"
    and "t \<notin> vt_token ` set (verificationTokens s)"
  shows "t \<notin> vt_token ` set (verificationTokens (run cfg xs s))"
proof
  assume "t \<in> vt_token ` set (verificationTokens (run cfg xs s))"
  with tokens_run[of cfg xs s] have "t \<in> vt_token ` set (verificationTokens s) \<or> t \<in> range generateToken"
    by auto
  with assms show False by auto
qed

subsection \<open>A one-time token is looked up by equality\<close>

lemma find_stored:
  assumes "distinct (map vt_token rows)" and "row \<in> set rows" and "P row"
  shows "find (\<lambda>r. vt_token r = vt_token row \<and> P r) rows = Some row"
proof (rule find_the_one[OF assms(2)])
  show "vt_token row = vt_token row \<and> P row" using assms(3) by simp
  from assms(1,2) show "\<forall>y\<in>set rows. vt_token y = vt_token row \<and> P y \<longrightarrow> y = row"
    by (auto simp: distinct_map inj_on_def)
qed

lemma verify_stored:
  assumes "distinct (map vt_token (verificationTokens s))" and "row \<in> set (verificationTokens s)"
    and "vt_tokenType row = EmailVerification" and "now < vt_expiresAt row"
    and "vt_usedAt row = None"
  shows "snd (verifyEmail now (vt_token row) s) = Inr ''Email verified successfully''"
proof -
  from find_stored[OF assms(1,2), of "\<lambda>r. vt_tokenType r = EmailVerification \<and> vt_expiresAt r > now"]
    assms(3,4)
  have "find (\<lambda>r. vt_token r = vt_token row \<and> vt_tokenType r = EmailVerification \<and>
                   vt_expiresAt r > now) (verificationTokens s) = Some row" by simp
  with assms(5) show ?thesis by (simp add: verifyEmail_def Let_def split: option.split)
qed

lemma verify_unknown:
  assumes "t \<notin> vt_token ` set (verificationTokens s)"
  shows "verifyEmail now t s = (s, Inl (ValidationError ''Invalid or expired verification token''))"
proof -
  from assms have "find (\<lambda>r. vt_token r = t \<and> vt_tokenType r = EmailVerification \<and>
                   vt_expiresAt r > now) (verificationTokens s) = None"
    by (auto simp: find_None_iff)
  then show ?thesis by (simp add: verifyEmail_def)
qed

lemma reset_stored:
  assumes "distinct (map vt_token (verificationTokens s))" and "row \<in> set (verificationTokens s)"
    and "vt_tokenType row = PasswordReset" and "now < vt_expiresAt row"
    and "vt_usedAt row = None" and "valid (validatePasswordStrength pw)"
  shows "snd (resetPassword now salt (vt_token row) pw d s) = Inr ''Password reset successfully''"
proof -
  from find_stored[OF assms(1,2), of "\<lambda>r. vt_tokenType r = PasswordReset \<and> vt_expiresAt r > now"]
    assms(3,4)
  have "find (\<lambda>r. vt_token r = vt_token row \<and> vt_tokenType r = PasswordReset \<and>
                   vt_expiresAt r > now) (verificationTokens s) = Some row" by simp
  with assms(5,6) show ?thesis by (simp add: resetPassword_def Let_def)
qed

lemma reset_unknown:
  assumes "t \<notin> vt_token ` set (verificationTokens s)"
    and "valid (validatePasswordStrength pw)"
  shows "resetPassword now salt t pw d s = (s, Inl (ValidationError ''Invalid or expired reset token''))"
proof -
  from assms(1) have "find (\<lambda>r. vt_token r = t \<and> vt_tokenType r = PasswordReset \<and>
                   vt_expiresAt r > now) (verificationTokens s) = None"
    by (auto simp: find_None_iff)
  with assms(2) show ?thesis by (simp add: resetPassword_def Let_def)
qed

subsection \<open>Spending one-time tokens\<close>
















subsection \<open>Evaluation of the examples\<close>

lemmas eval_defs = ex_cfg_def ex_register_def ex_login_def ex_state_def ex_token_def init_def
  register_def login_def refreshAccessToken_def issue_tokens_def logout_def verifyEmail_def
  requestPasswordReset_def resetPassword_def handleOAuthCallback_def resolve_user_def
  find_or_create_user_def insert_users_def varchar_ok_def varchar_def
  removeOAuthProvider_def updateProfile_def
  insert_refreshTokens_def insert_verificationTokens_def revoke_where_def mark_used_def
  update_users_def send_def logAuditEvent_def update_oauthProviders_def insert_oauthProviders_def
  set_oauth_tokens_def to_view_def
  generateTokenPair_def generateAccessToken_def generateRefreshToken_def hashToken_def
  generateToken_def hashPassword_def validatePasswordStrength_def verifyToken_def
  is_upper_def is_lower_def is_digit_def is_symbol_def days30_def Let_def
  wf_def wf_unique_def wf_ids_def wf_refs_def oauth_key_def

lemma wf_ex_state: "wf ex_state"
  by (simp add: eval_defs)

section \<open>The claims\<close>

subsection \<open>C1: Refresh rotation\<close>

text \<open>
  C1. Refresh rotation. When \<open>refreshAccessToken\<close> succeeds on a raw token \<open>t\<close>, the row
  found for \<open>t\<close> was live, that row and no other is revoked, and one row is added, for the
  same user, with the hash of the refresh token that is returned, a hash no row had, and
  an expiry 30 days after the call; the returned token is not \<open>t\<close>. After that, whatever
  calls \<open>ops\<close> are made in between, every further call with \<open>t\<close> fails with
  \<open>UnauthorizedError\<close> and leaves the store as it is.
\<close>

theorem refresh_rotation:
  assumes "wf s"
    and "refreshAccessToken cfg now t dv s = (s', Inr res)"
  shows "(\<exists>old. old \<in> set (refreshTokens s) \<and> rt_tokenHash old = hashToken t \<and>
            rt_revokedAt old = None \<and> now < rt_expiresAt old \<and>
            hashToken (res_refreshToken res) \<notin> rt_tokenHash ` set (refreshTokens s) \<and>
            res_refreshToken res \<noteq> t \<and>
            refreshTokens s' =
              map (\<lambda>r. if r = old then r\<lparr>rt_revokedAt := Some now\<rparr> else r) (refreshTokens s) @
              [\<lparr>rt_id = nextId s, rt_userId = rt_userId old,
                rt_tokenHash = hashToken (res_refreshToken res),
                rt_deviceInfo = device_or_empty dv,
                rt_expiresAt = now + 30 * 24 * 60 * 60 * 1000,
                rt_createdAt = now, rt_revokedAt = None\<rparr>]) \<and>
         refreshAccessToken cfg now' t dv' (run cfg ops s') =
           (run cfg ops s', Inl (UnauthorizedError ''Invalid or expired refresh token''))"
proof -
  from assms(1) have dh: "distinct (map rt_tokenHash (refreshTokens s))"
    and di: "distinct (map rt_id (refreshTokens s))"
    by (simp_all add: wf_def wf_unique_def wf_ids_def)
  from refresh_success[OF assms(2)] obtain old usr where
    old: "find (\<lambda>r. rt_tokenHash r = hashToken t \<and> rt_expiresAt r > now) (refreshTokens s) = Some old"
    and live: "rt_revokedAt old = None"
    and fresh: "hashToken (res_refreshToken res) \<notin> rt_tokenHash ` set (refreshTokens s)"
    and rows: "refreshTokens s' =
             map (\<lambda>r. if rt_id r = rt_id old then r\<lparr>rt_revokedAt := Some now\<rparr> else r) (refreshTokens s) @
             [\<lparr>rt_id = nextId s, rt_userId = rt_userId old,
               rt_tokenHash = hashToken (res_refreshToken res),
               rt_deviceInfo = device_or_empty dv, rt_expiresAt = now + 30 * 24 * 60 * 60 * 1000,
               rt_createdAt = now, rt_revokedAt = None\<rparr>]"
    by blast
  from find_SomeD2[OF old] have mem: "old \<in> set (refreshTokens s)"
    and h: "rt_tokenHash old = hashToken t" and exp: "now < rt_expiresAt old" by auto
  from mem h fresh have ne: "res_refreshToken res \<noteq> t" by (metis image_eqI)
  have same: "map (\<lambda>r. if rt_id r = rt_id old then r\<lparr>rt_revokedAt := Some now\<rparr> else r) (refreshTokens s) =
              map (\<lambda>r. if r = old then r\<lparr>rt_revokedAt := Some now\<rparr> else r) (refreshTokens s)"
    using di mem by (auto simp: distinct_map inj_on_def)
  have first: "\<exists>old. old \<in> set (refreshTokens s) \<and> rt_tokenHash old = hashToken t \<and>
            rt_revokedAt old = None \<and> now < rt_expiresAt old \<and>
            hashToken (res_refreshToken res) \<notin> rt_tokenHash ` set (refreshTokens s) \<and>
            res_refreshToken res \<noteq> t \<and>
            refreshTokens s' =
              map (\<lambda>r. if r = old then r\<lparr>rt_revokedAt := Some now\<rparr> else r) (refreshTokens s) @
              [\<lparr>rt_id = nextId s, rt_userId = rt_userId old,
                rt_tokenHash = hashToken (res_refreshToken res),
                rt_deviceInfo = device_or_empty dv,
                rt_expiresAt = now + 30 * 24 * 60 * 60 * 1000,
                rt_createdAt = now, rt_revokedAt = None\<rparr>]"
    using mem h live exp fresh ne rows same by (intro exI[of _ old]) simp
  have "revoked_hash (hashToken t) (refreshTokens (run cfg ops s'))"
    using revoked_hash_step[OF rt_step_run revoked_after_refresh[OF dh assms(2)]] .
  from refresh_revoked_hash[OF this] first show ?thesis by blast
qed

theorem refresh_rotation_witness:
  "wf ex_state \<and>
   (\<exists>s' res. refreshAccessToken ex_cfg 5000 ex_token None ex_state = (s', Inr res) \<and>
      res_refreshToken res \<noteq> ex_token \<and>
      refreshAccessToken ex_cfg 9000 ex_token None (run ex_cfg [ex_login2] s') =
        (run ex_cfg [ex_login2] s', Inl (UnauthorizedError ''Invalid or expired refresh token'')))"
proof -
  have "\<exists>s' res. refreshAccessToken ex_cfg 5000 ex_token None ex_state = (s', Inr res)"
    by (simp add: eval_defs)
  then obtain s' res where ok: "refreshAccessToken ex_cfg 5000 ex_token None ex_state = (s', Inr res)"
    by blast
  from refresh_rotation[OF wf_ex_state ok, of 9000 None "[ex_login2]"] ok wf_ex_state
  show ?thesis by blast
qed

subsection \<open>C2: Idempotence of the reconciliation\<close>

text \<open>
  C2, as stated, fails: the second submission of an assertion does not always return the
  account. The Google assertion of the example is submitted at 2000 and returns account
  0. Submitted again at 2700, it finds the linked identity and creates nothing, but the
  refresh token signed for the account is the one of the first submission, the insert of
  its hash violates the unique index and the call throws the error of the driver. Nor
  are the stored provider tokens always those of the last assertion: the assertion
  submitted at 3000 carries no refresh token, and the stored one stays that of the first.
\<close>

theorem second_submission_can_fail:
  "\<not> isl (snd ex_oauth1) \<and> uv_id (res_user (projr (snd ex_oauth1))) = 0 \<and>
   map oauth_key (oauthProviders (fst ex_oauth1)) = [(p_provider ex_google, p_providerId ex_google)] \<and>
   snd ex_oauth_again =
     Inl (DatabaseError ''duplicate key value violates unique constraint on token_hash'') \<and>
   p_provider ex_google2 = p_provider ex_google \<and> p_providerId ex_google2 = p_providerId ex_google \<and>
   p_refreshToken ex_google2 = None \<and> \<not> isl (snd ex_oauth2) \<and>
   map op_refreshToken (oauthProviders (fst ex_oauth2)) = [p_refreshToken ex_google] \<and>
   p_refreshToken ex_google = Some ''rt-1''"
  by (simp add: eval_defs ex_google_def ex_google2_def ex_oauth1_def ex_oauth2_def
      ex_oauth_again_def)

text \<open>
  C2, as amended. Identity reconciliation is idempotent. Take a store that keeps the
  constraints of the schema, and let an assertion \<open>p1\<close> be submitted and then an assertion
  \<open>p2\<close> with the provider and the subject of \<open>p1\<close>. The two calls together add at most one
  linked identity, and at most one account when \<open>p2\<close> has the email of \<open>p1\<close> as well.

  If the first call returns and the subject has at most 255 characters, the store then
  holds exactly one linked identity \<open>row\<close> for the provider and subject, owned by the
  account that the first call returned, and the second call finds it: it adds no linked
  identity and no account; the table of linked identities is the old one with the access
  token of \<open>row\<close> set to that of \<open>p2\<close> and with its refresh token and its expiry set to
  those of \<open>p2\<close> when \<open>p2\<close> carries them, and left as they are when it does not; whenever
  the second call returns, it returns the account that the first call returned, with
  \<open>isNewUser = false\<close>; and it does return if the hash of the refresh token signed for that
  account at the time of the second call is not stored yet.
\<close>

theorem oauth_idempotent:
  assumes "wf s"
    and "handleOAuthCallback cfg now1 p1 d1 s = (s1, r1)"
    and "p_provider p2 = p_provider p1" and "p_providerId p2 = p_providerId p1"
    and "handleOAuthCallback cfg now2 p2 d2 s1 = (s2, r2)"
  shows "length (oauthProviders s2) \<le> Suc (length (oauthProviders s)) \<and>
         (p_email p2 = p_email p1 \<longrightarrow> length (users s2) \<le> Suc (length (users s))) \<and>
         (\<forall>x1. r1 = Inr x1 \<and> length (p_providerId p1) \<le> 255 \<longrightarrow>
            (\<exists>row. filter (\<lambda>r. oauth_key r = (p_provider p1, p_providerId p1))
                      (oauthProviders s1) = [row] \<and>
               op_userId row = uv_id (res_user x1) \<and>
               oauthProviders s2 =
                 map (\<lambda>r. if r = row
                           then r\<lparr>op_accessToken := Some (p_accessToken p2),
                                  op_refreshToken := (case p_refreshToken p2 of
                                                        None \<Rightarrow> op_refreshToken r
                                                      | Some v \<Rightarrow> Some v),
                                  op_tokenExpiresAt := (case p_expiresAt p2 of
                                                          None \<Rightarrow> op_tokenExpiresAt r
                                                        | Some v \<Rightarrow> Some v)\<rparr>
                           else r) (oauthProviders s1) \<and>
               map u_id (users s2) = map u_id (users s1) \<and>
               (\<forall>x2. r2 = Inr x2 \<longrightarrow> res_user x2 = res_user x1 \<and> \<not> res_isNewUser x2) \<and>
               (hashToken (generateRefreshToken cfg now2 (uv_id (res_user x1))
                    (uv_email (res_user x1)))
                  \<notin> rt_tokenHash ` set (refreshTokens s1) \<longrightarrow> (\<exists>x2. r2 = Inr x2))))"
proof -
  note a1 = handle_adds[OF assms(2)]
  note a2 = handle_adds[OF assms(5), unfolded assms(3,4)]
  have "length (map oauth_key (oauthProviders s2)) \<le> Suc (length (map oauth_key (oauthProviders s)))"
    using a1 a2
      at_most_one[of "map oauth_key (oauthProviders s1)" "map oauth_key (oauthProviders s)"
        "(p_provider p1, varchar 255 (p_providerId p1))" "map oauth_key (oauthProviders s2)"]
    by blast
  then have count: "length (oauthProviders s2) \<le> Suc (length (oauthProviders s))" by simp
  have accounts: "length (users s2) \<le> Suc (length (users s))" if em: "p_email p2 = p_email p1"
  proof -
    have "length (map u_email (users s2)) \<le> Suc (length (map u_email (users s)))"
      using a1 a2[unfolded em]
        at_most_one[of "map u_email (users s1)" "map u_email (users s)"
          "Some (varchar 255 (p_email p1))" "map u_email (users s2)"]
      by blast
    then show ?thesis by simp
  qed
  have after: "\<exists>row. filter (\<lambda>r. oauth_key r = (p_provider p1, p_providerId p1))
                      (oauthProviders s1) = [row] \<and>
               op_userId row = uv_id (res_user x1) \<and>
               oauthProviders s2 =
                 map (\<lambda>r. if r = row
                           then r\<lparr>op_accessToken := Some (p_accessToken p2),
                                  op_refreshToken := (case p_refreshToken p2 of
                                                        None \<Rightarrow> op_refreshToken r
                                                      | Some v \<Rightarrow> Some v),
                                  op_tokenExpiresAt := (case p_expiresAt p2 of
                                                          None \<Rightarrow> op_tokenExpiresAt r
                                                        | Some v \<Rightarrow> Some v)\<rparr>
                           else r) (oauthProviders s1) \<and>
               map u_id (users s2) = map u_id (users s1) \<and>
               (\<forall>x2. r2 = Inr x2 \<longrightarrow> res_user x2 = res_user x1 \<and> \<not> res_isNewUser x2) \<and>
               (hashToken (generateRefreshToken cfg now2 (uv_id (res_user x1))
                    (uv_email (res_user x1)))
                  \<notin> rt_tokenHash ` set (refreshTokens s1) \<longrightarrow> (\<exists>x2. r2 = Inr x2))"
    if r1: "r1 = Inr x1" and len: "length (p_providerId p1) \<le> 255" for x1
  proof -
    from wf_handleOAuthCallback[OF assms(1), of cfg now1 p1 d1] assms(2) have w1: "wf s1" by simp
    then have dk: "distinct (map oauth_key (oauthProviders s1))"
      and di: "distinct (map op_id (oauthProviders s1))" by (simp_all add: wf_alt)
    from linked_after[OF assms(1) assms(2)[unfolded r1] len] obtain row owner where
      mem: "row \<in> set (oauthProviders s1)"
      and key: "oauth_key row = (p_provider p1, p_providerId p1)"
      and own: "op_userId row = uv_id (res_user x1)"
      and fo: "find (\<lambda>u. u_id u = op_userId row) (users s1) = Some owner"
      and view: "to_view owner = res_user x1" by blast
    from filter_distinct[OF dk mem] key
    have one: "filter (\<lambda>r. oauth_key r = (p_provider p1, p_providerId p1)) (oauthProviders s1) = [row]"
      by simp
    from find_distinct[OF dk mem] key assms(3,4)
    have found: "find (\<lambda>r. op_provider r = p_provider p2 \<and> op_providerUserId r = p_providerId p2)
                   (oauthProviders s1) = Some row"
      by (simp add: key_pred)
    from resolve_linked[OF found, of now2 d2] fo
    have rs: "resolve_user now2 p2 d2 s1 =
                (update_oauthProviders (op_id row) p2 s1, Inr (Some owner, False))" by simp
    from handle_state[OF rs, of cfg] assms(5)
    have s2: "s2 = fst (issue_tokens cfg now2 owner d2
                [(''provider'', provider_name (p_provider p2))]
                (update_oauthProviders (op_id row) p2 s1))" by simp
    have users: "map u_id (users s2) = map u_id (users s1)"
      unfolding s2 users_issue by simp
    have "oauthProviders s2 =
           map (\<lambda>r. if op_id r = op_id row then set_oauth_tokens p2 r else r) (oauthProviders s1)"
      unfolding s2 by (simp add: update_oauthProviders_def)
    with map_by_id[OF di mem, of "set_oauth_tokens p2"]
    have rows: "oauthProviders s2 =
                 map (\<lambda>r. if r = row
                           then r\<lparr>op_accessToken := Some (p_accessToken p2),
                                  op_refreshToken := (case p_refreshToken p2 of
                                                        None \<Rightarrow> op_refreshToken r
                                                      | Some v \<Rightarrow> Some v),
                                  op_tokenExpiresAt := (case p_expiresAt p2 of
                                                          None \<Rightarrow> op_tokenExpiresAt r
                                                        | Some v \<Rightarrow> Some v)\<rparr>
                           else r) (oauthProviders s1)"
      by (simp add: set_oauth_tokens_def)
    have res2: "res_user x2 = res_user x1 \<and> \<not> res_isNewUser x2" if "r2 = Inr x2" for x2
      using handle_result[OF rs, of cfg s2 x2] assms(5) that view by simp
    have ok: "\<exists>x2. r2 = Inr x2"
      if "hashToken (generateRefreshToken cfg now2 (uv_id (res_user x1)) (uv_email (res_user x1)))
            \<notin> rt_tokenHash ` set (refreshTokens s1)"
    proof -
      from view[symmetric] have "uv_id (res_user x1) = u_id owner"
        "uv_email (res_user x1) = u_email owner"
        by (simp_all add: to_view_def)
      with that
      have "hashToken (generateRefreshToken cfg now2 (u_id owner) (u_email owner))
              \<notin> rt_tokenHash ` set (refreshTokens (update_oauthProviders (op_id row) p2 s1))"
        by simp
      from issue_ok[OF this, of d2 "[(''provider'', provider_name (p_provider p2))]"] assms(5)
      show ?thesis unfolding handle_resolved[OF rs] by auto
    qed
    from one own rows users res2 ok show ?thesis by blast
  qed
  from count accounts after show ?thesis by blast
qed

theorem oauth_idempotent_witness:
  "wf ex_state \<and>
   p_provider ex_google2 = p_provider ex_google \<and> p_providerId ex_google2 = p_providerId ex_google \<and>
   p_email ex_google2 = p_email ex_google \<and> length (p_providerId ex_google) \<le> 255 \<and>
   (\<exists>x1 x2. snd ex_oauth1 = Inr x1 \<and>
      hashToken (generateRefreshToken ex_cfg 3000 (uv_id (res_user x1)) (uv_email (res_user x1)))
        \<notin> rt_tokenHash ` set (refreshTokens (fst ex_oauth1)) \<and>
      snd ex_oauth2 = Inr x2 \<and> res_user x2 = res_user x1 \<and> \<not> res_isNewUser x2) \<and>
   length (oauthProviders (fst ex_oauth1)) = 1 \<and>
   length (oauthProviders (fst ex_oauth2)) = 1 \<and>
   map op_accessToken (oauthProviders (fst ex_oauth2)) = [Some (p_accessToken ex_google2)] \<and>
   length (users (fst ex_oauth2)) \<le> Suc (length (users ex_state)) \<and>
   map u_id (users (fst ex_oauth2)) = map u_id (users ex_state)"
proof -
  have h1: "handleOAuthCallback ex_cfg 2000 ex_google None ex_state = (fst ex_oauth1, snd ex_oauth1)"
    by (simp add: ex_oauth1_def)
  have h2: "handleOAuthCallback ex_cfg 3000 ex_google2 None (fst ex_oauth1) =
              (fst ex_oauth2, snd ex_oauth2)"
    by (simp add: ex_oauth2_def)
  have same: "p_provider ex_google2 = p_provider ex_google"
    "p_providerId ex_google2 = p_providerId ex_google"
    by (simp_all add: ex_google2_def)
  have em: "p_email ex_google2 = p_email ex_google" by (simp add: ex_google2_def)
  have len: "length (p_providerId ex_google) \<le> 255" by (simp add: ex_google_def)
  have "\<exists>x1. snd ex_oauth1 = Inr x1 \<and>
      hashToken (generateRefreshToken ex_cfg 3000 (uv_id (res_user x1)) (uv_email (res_user x1)))
        \<notin> rt_tokenHash ` set (refreshTokens (fst ex_oauth1))"
    by (simp add: eval_defs ex_google_def ex_oauth1_def)
  then obtain x1 where e1: "snd ex_oauth1 = Inr x1"
    and fresh: "hashToken (generateRefreshToken ex_cfg 3000 (uv_id (res_user x1))
        (uv_email (res_user x1))) \<notin> rt_tokenHash ` set (refreshTokens (fst ex_oauth1))"
    by blast
  have l1: "length (oauthProviders (fst ex_oauth1)) = 1"
    and u1: "map u_id (users (fst ex_oauth1)) = map u_id (users ex_state)"
    by (simp_all add: eval_defs ex_google_def ex_oauth1_def)
  note idem = oauth_idempotent[OF wf_ex_state h1 same h2]
  from idem em have cnt: "length (users (fst ex_oauth2)) \<le> Suc (length (users ex_state))" by blast
  from idem e1 len obtain row where
    one: "filter (\<lambda>r. oauth_key r = (p_provider ex_google, p_providerId ex_google))
            (oauthProviders (fst ex_oauth1)) = [row]"
    and rows: "oauthProviders (fst ex_oauth2) =
             map (\<lambda>r. if r = row
                       then r\<lparr>op_accessToken := Some (p_accessToken ex_google2),
                              op_refreshToken := (case p_refreshToken ex_google2 of
                                                    None \<Rightarrow> op_refreshToken r
                                                  | Some v \<Rightarrow> Some v),
                              op_tokenExpiresAt := (case p_expiresAt ex_google2 of
                                                      None \<Rightarrow> op_tokenExpiresAt r
                                                    | Some v \<Rightarrow> Some v)\<rparr>
                       else r) (oauthProviders (fst ex_oauth1))"
    and users: "map u_id (users (fst ex_oauth2)) = map u_id (users (fst ex_oauth1))"
    and r2: "\<forall>x2. snd ex_oauth2 = Inr x2 \<longrightarrow> res_user x2 = res_user x1 \<and> \<not> res_isNewUser x2"
    and ok: "hashToken (generateRefreshToken ex_cfg 3000 (uv_id (res_user x1))
                (uv_email (res_user x1)))
              \<notin> rt_tokenHash ` set (refreshTokens (fst ex_oauth1)) \<longrightarrow>
             (\<exists>x2. snd ex_oauth2 = Inr x2)"
    by blast
  from one l1 have "oauthProviders (fst ex_oauth1) = [row]"
    by (cases "oauthProviders (fst ex_oauth1)") (auto split: if_splits)
  with rows have l2: "length (oauthProviders (fst ex_oauth2)) = 1"
    and at: "map op_accessToken (oauthProviders (fst ex_oauth2)) = [Some (p_accessToken ex_google2)]"
    by simp_all
  from ok fresh obtain x2 where e2: "snd ex_oauth2 = Inr x2" by blast
  with r2 have "res_user x2 = res_user x1 \<and> \<not> res_isNewUser x2" by blast
  with e1 e2 fresh have ex: "\<exists>x1 x2. snd ex_oauth1 = Inr x1 \<and>
      hashToken (generateRefreshToken ex_cfg 3000 (uv_id (res_user x1)) (uv_email (res_user x1)))
        \<notin> rt_tokenHash ` set (refreshTokens (fst ex_oauth1)) \<and>
      snd ex_oauth2 = Inr x2 \<and> res_user x2 = res_user x1 \<and> \<not> res_isNewUser x2" by blast
  from wf_ex_state same em len ex l1 l2 at cnt users u1 show ?thesis by simp
qed

subsection \<open>C3: Cross-provider convergence\<close>

text \<open>
  C3, as stated, fails in two ways, both with the account of the example, whose email the
  Facebook assertion carries, and a provider and subject that are linked to no account.
  Half a second after the login of the account the call links the identity, but the
  refresh token it signs is the one of the login, the insert of its hash violates the
  unique index and the call throws instead of returning the account. With a subject of 256
  characters the insert of the linked identity is refused, the call throws and writes
  nothing: no linked identity is created.
\<close>

theorem linking_can_fail:
  "map u_email (users ex_state) = [Some (p_email ex_facebook)] \<and>
   oauthProviders ex_state = [] \<and>
   map op_userId (oauthProviders (fst ex_hasty)) = map u_id (users ex_state) \<and>
   snd ex_hasty =
     Inl (DatabaseError ''duplicate key value violates unique constraint on token_hash'') \<and>
   p_email ex_long_subject = p_email ex_facebook \<and>
   ex_refused =
     (ex_state, Inl (DatabaseError ''value too long for type character varying(255)''))"
  by (simp add: eval_defs ex_facebook_def ex_hasty_def ex_long_subject_def ex_refused_def)

text \<open>
  C3, as amended. Cross-provider convergence. Take a store that keeps the constraints of
  the schema, and an assertion \<open>p\<close> whose provider and subject are linked to no account.

  If an account \<open>a\<close> has the email of \<open>p\<close>, the call adds no account, and whenever it returns
  it returns \<open>a\<close> with \<open>isNewUser = false\<close>. If moreover the subject of \<open>p\<close> has at most 255
  characters, the call adds one linked identity, bound to \<open>a\<close>, with the provider tokens of
  \<open>p\<close>; and it does return if the hash of the refresh token signed for \<open>a\<close> at \<open>now\<close> is
  not stored yet.

  If no account has the email of \<open>p\<close>, and the email, the display name and the subject
  of \<open>p\<close> have at most 255 characters each, the call adds one account, with that email,
  marked verified, without a password hash and active, and one linked identity bound to
  it, with the provider tokens of \<open>p\<close>; whenever it returns it returns the new account with \<open>isNewUser = true\<close>, and it does
  return if the hash of the refresh token signed for the new account at \<open>now\<close> is not
  stored yet. (Whether the email is empty plays no part: see C7.)
\<close>

theorem cross_provider_linking:
  assumes "wf s" and "wf_cols s"
    and "(p_provider p, p_providerId p) \<notin> set (map oauth_key (oauthProviders s))"
    and "handleOAuthCallback cfg now p d s = (s', r)"
  shows "(a \<in> set (users s) \<and> u_email a = Some (p_email p) \<longrightarrow>
            map u_id (users s') = map u_id (users s) \<and>
            (\<forall>x. r = Inr x \<longrightarrow> res_user x = to_view a \<and> \<not> res_isNewUser x) \<and>
            (length (p_providerId p) \<le> 255 \<longrightarrow>
               (\<exists>row. oauthProviders s' = oauthProviders s @ [row] \<and> op_userId row = u_id a \<and>
                  oauth_key row = (p_provider p, p_providerId p) \<and>
                  op_accessToken row = Some (p_accessToken p) \<and>
                  op_refreshToken row = p_refreshToken p \<and>
                  op_tokenExpiresAt row = p_expiresAt p) \<and>
               (hashToken (generateRefreshToken cfg now (u_id a) (u_email a))
                  \<notin> rt_tokenHash ` set (refreshTokens s) \<longrightarrow> (\<exists>x. r = Inr x)))) \<and>
         (Some (p_email p) \<notin> set (map u_email (users s)) \<and> length (p_email p) \<le> 255 \<and>
          fits 255 (p_displayName p) \<and> length (p_providerId p) \<le> 255 \<longrightarrow>
            (\<exists>u row. users s' = users s @ [u] \<and> u_id u = nextId s \<and>
               u_email u = Some (p_email p) \<and> u_emailVerified u \<and>
               u_passwordHash u = None \<and> u_status u = Active \<and>
               oauthProviders s' = oauthProviders s @ [row] \<and> op_userId row = u_id u \<and>
               oauth_key row = (p_provider p, p_providerId p) \<and>
               op_accessToken row = Some (p_accessToken p) \<and>
               op_refreshToken row = p_refreshToken p \<and>
               op_tokenExpiresAt row = p_expiresAt p \<and>
               (\<forall>x. r = Inr x \<longrightarrow> uv_id (res_user x) = u_id u \<and> res_isNewUser x) \<and>
               (hashToken (generateRefreshToken cfg now (nextId s) (Some (p_email p)))
                  \<notin> rt_tokenHash ` set (refreshTokens s) \<longrightarrow> (\<exists>x. r = Inr x))))"
proof -
  note nokey = find_None_key[OF assms(3)]
  have first: "map u_id (users s') = map u_id (users s) \<and>
            (\<forall>x. r = Inr x \<longrightarrow> res_user x = to_view a \<and> \<not> res_isNewUser x) \<and>
            (length (p_providerId p) \<le> 255 \<longrightarrow>
               (\<exists>row. oauthProviders s' = oauthProviders s @ [row] \<and> op_userId row = u_id a \<and>
                  oauth_key row = (p_provider p, p_providerId p) \<and>
                  op_accessToken row = Some (p_accessToken p) \<and>
                  op_refreshToken row = p_refreshToken p \<and>
                  op_tokenExpiresAt row = p_expiresAt p) \<and>
               (hashToken (generateRefreshToken cfg now (u_id a) (u_email a))
                  \<notin> rt_tokenHash ` set (refreshTokens s) \<longrightarrow> (\<exists>x. r = Inr x)))"
    if a: "a \<in> set (users s)" "u_email a = Some (p_email p)"
  proof -
    from assms(1) have "distinct (filter (\<lambda>e. e \<noteq> None) (map u_email (users s)))"
      by (simp add: wf_alt)
    from find_email[OF this a] have fa: "find (\<lambda>u. u_email u = Some (p_email p)) (users s) = Some a" .
    obtain s1 res where rs: "resolve_user now p d s = (s1, res)"
      by (cases "resolve_user now p d s") auto
    from resolve_by_email_any[OF nokey fa rs]
    have us1: "users s1 = users s" and res: "(\<exists>e. res = Inl e) \<or> res = Inr (Some a, False)"
      by simp_all
    have u: "map u_id (users s') = map u_id (users s)"
      using res
    proof
      assume "\<exists>e. res = Inl e"
      then obtain e where "res = Inl e" by blast
      with rs handle_failed[of now p d s s1 e cfg] assms(4) us1 show ?thesis by simp
    next
      assume "res = Inr (Some a, False)"
      with rs have rs': "resolve_user now p d s = (s1, Inr (Some a, False))" by simp
      from handle_state[OF rs', of cfg] assms(4) us1 show ?thesis by (simp add: users_issue)
    qed
    have ret: "res_user x = to_view a \<and> \<not> res_isNewUser x" if "r = Inr x" for x
      using res
    proof
      assume "\<exists>e. res = Inl e"
      then obtain e where "res = Inl e" by blast
      with rs handle_failed[of now p d s s1 e cfg] assms(4) that show ?thesis by simp
    next
      assume "res = Inr (Some a, False)"
      with rs have rs': "resolve_user now p d s = (s1, Inr (Some a, False))" by simp
      from handle_result[OF rs', of cfg s' x] assms(4) that show ?thesis by simp
    qed
    have link: "(\<exists>row. oauthProviders s' = oauthProviders s @ [row] \<and> op_userId row = u_id a \<and>
                  oauth_key row = (p_provider p, p_providerId p) \<and>
                  op_accessToken row = Some (p_accessToken p) \<and>
                  op_refreshToken row = p_refreshToken p \<and>
                  op_tokenExpiresAt row = p_expiresAt p) \<and>
               (hashToken (generateRefreshToken cfg now (u_id a) (u_email a))
                  \<notin> rt_tokenHash ` set (refreshTokens s) \<longrightarrow> (\<exists>x. r = Inr x))"
      if len: "length (p_providerId p) \<le> 255"
    proof -
      from email_fits[OF assms(2) fa] have el: "length (p_email p) \<le> 255" .
      note rs' = resolve_by_email[OF nokey fa len el, of now d]
      from handle_state[OF rs', of cfg] assms(4)
      have o: "oauthProviders s' = oauthProviders s @
               [\<lparr>op_id = nextId s, op_userId = u_id a, op_provider = p_provider p,
                 op_providerUserId = p_providerId p, op_providerEmail = Some (p_email p),
                 op_accessToken = Some (p_accessToken p),
                 op_refreshToken = p_refreshToken p,
                 op_tokenExpiresAt = p_expiresAt p,
                 op_createdAt = now, op_updatedAt = now\<rparr>]"
        by simp
      have "\<exists>x. r = Inr x"
        if "hashToken (generateRefreshToken cfg now (u_id a) (u_email a))
                  \<notin> rt_tokenHash ` set (refreshTokens s)"
      proof -
        from that
        have "hashToken (generateRefreshToken cfg now (u_id a) (u_email a)) \<notin> rt_tokenHash `
                set (refreshTokens (logAuditEvent (Some (u_id a)) OAUTH_LINK (opt_ip d) (opt_userAgent d)
              [(''provider'', provider_name (p_provider p))] True now
              (s\<lparr>oauthProviders := oauthProviders s @
                   [\<lparr>op_id = nextId s, op_userId = u_id a, op_provider = p_provider p,
                     op_providerUserId = p_providerId p,
                     op_providerEmail = Some (p_email p),
                     op_accessToken = Some (p_accessToken p),
                     op_refreshToken = p_refreshToken p,
                     op_tokenExpiresAt = p_expiresAt p,
                     op_createdAt = now, op_updatedAt = now\<rparr>],
                 nextId := Suc (nextId s)\<rparr>)))"
          by simp
        from issue_ok[OF this, of d "[(''provider'', provider_name (p_provider p))]"] assms(4)
        show ?thesis unfolding handle_resolved[OF rs'] by auto
      qed
      with o show ?thesis by (simp add: oauth_key_def)
    qed
    from u ret link show ?thesis by blast
  qed
  have second: "\<exists>u row. users s' = users s @ [u] \<and> u_id u = nextId s \<and>
               u_email u = Some (p_email p) \<and> u_emailVerified u \<and>
               u_passwordHash u = None \<and> u_status u = Active \<and>
               oauthProviders s' = oauthProviders s @ [row] \<and> op_userId row = u_id u \<and>
               oauth_key row = (p_provider p, p_providerId p) \<and>
               op_accessToken row = Some (p_accessToken p) \<and>
               op_refreshToken row = p_refreshToken p \<and>
               op_tokenExpiresAt row = p_expiresAt p \<and>
               (\<forall>x. r = Inr x \<longrightarrow> uv_id (res_user x) = u_id u \<and> res_isNewUser x) \<and>
               (hashToken (generateRefreshToken cfg now (nextId s) (Some (p_email p)))
                  \<notin> rt_tokenHash ` set (refreshTokens s) \<longrightarrow> (\<exists>x. r = Inr x))"
    if none: "Some (p_email p) \<notin> set (map u_email (users s))"
      and len: "length (p_email p) \<le> 255" "fits 255 (p_displayName p)"
        "length (p_providerId p) \<le> 255"
  proof -
    note noemail = find_None_email[OF none]
    let ?usr = "\<lparr>u_id = nextId s, u_email = Some (p_email p),
                           u_emailVerified = True, u_passwordHash = None,
                           u_displayName = or_null (p_displayName p),
                           u_avatarUrl = or_null (p_avatarUrl p),
                           u_phoneNumber = None, u_status = Active,
                           u_createdAt = now, u_updatedAt = now, u_lastLoginAt = None\<rparr>"
    from resolve_new[OF nokey noemail len(3,1,2) refl, of now d]
    obtain s1 row where rs: "resolve_user now p d s = (s1, Inr (Some ?usr, True))"
      and u1: "users s1 = users s @ [?usr]" and rt1: "refreshTokens s1 = refreshTokens s"
      and o1: "oauthProviders s1 = oauthProviders s @ [row]" "op_userId row = nextId s"
        "oauth_key row = (p_provider p, p_providerId p)"
        "op_accessToken row = Some (p_accessToken p)" "op_refreshToken row = p_refreshToken p"
        "op_tokenExpiresAt row = p_expiresAt p"
      by blast
    from handle_state[OF rs, of cfg] assms(4)
    have s': "s' = fst (issue_tokens cfg now ?usr d [(''provider'', provider_name (p_provider p))] s1)"
      by simp
    from assms(1) have lt: "\<forall>u\<in>set (users s). u_id u \<noteq> nextId s"
      by (auto simp: wf_alt)
    then have keep: "map (\<lambda>u. if u_id u = nextId s then u\<lparr>u_lastLoginAt := Some now\<rparr> else u) (users s) =
                     users s"
      by (simp add: map_idI)
    from users_issue_cases[of cfg now ?usr d "[(''provider'', provider_name (p_provider p))]" s1]
    have "users s' = users s @ [?usr] \<or> users s' = users s @ [?usr\<lparr>u_lastLoginAt := Some now\<rparr>]"
      unfolding s' u1 using keep by auto
    then obtain u where u: "users s' = users s @ [u]" "u_id u = nextId s"
      "u_email u = Some (p_email p)" "u_emailVerified u" "u_passwordHash u = None"
      "u_status u = Active"
      by (elim disjE) simp_all
    have o: "oauthProviders s' = oauthProviders s @ [row]"
      unfolding s' using o1(1) by simp
    have res: "uv_id (res_user x) = nextId s \<and> res_isNewUser x" if "r = Inr x" for x
      using handle_result[OF rs, of cfg s' x] assms(4) that by (simp add: to_view_def)
    have ok: "\<exists>x. r = Inr x"
      if "hashToken (generateRefreshToken cfg now (nextId s) (Some (p_email p)))
                  \<notin> rt_tokenHash ` set (refreshTokens s)"
    proof -
      from that rt1
      have "hashToken (generateRefreshToken cfg now (u_id ?usr) (u_email ?usr))
              \<notin> rt_tokenHash ` set (refreshTokens s1)" by simp
      from issue_ok[OF this, of d "[(''provider'', provider_name (p_provider p))]"] assms(4)
      show ?thesis unfolding handle_resolved[OF rs] by auto
    qed
    from u o o1(2-) res ok show ?thesis by auto
  qed
  from first second show ?thesis by blast
qed

theorem cross_provider_linking_witness:
  "wf ex_state \<and> wf_cols ex_state \<and>
   (p_provider ex_facebook, p_providerId ex_facebook) \<notin> set (map oauth_key (oauthProviders ex_state)) \<and>
   hd (users ex_state) \<in> set (users ex_state) \<and>
   u_email (hd (users ex_state)) = Some (p_email ex_facebook) \<and>
   length (p_providerId ex_facebook) \<le> 255 \<and>
   hashToken (generateRefreshToken ex_cfg 2000 (u_id (hd (users ex_state)))
       (u_email (hd (users ex_state))))
     \<notin> rt_tokenHash ` set (refreshTokens ex_state) \<and>
   (\<exists>x. snd ex_linked = Inr x \<and> res_user x = to_view (hd (users ex_state)) \<and> \<not> res_isNewUser x) \<and>
   map u_id (users (fst ex_linked)) = map u_id (users ex_state) \<and>
   length (oauthProviders (fst ex_linked)) = Suc (length (oauthProviders ex_state)) \<and>
   (p_provider ex_apple, p_providerId ex_apple) \<notin> set (map oauth_key (oauthProviders ex_state)) \<and>
   Some (p_email ex_apple) \<notin> set (map u_email (users ex_state)) \<and>
   length (p_email ex_apple) \<le> 255 \<and> fits 255 (p_displayName ex_apple) \<and>
   length (p_providerId ex_apple) \<le> 255 \<and>
   hashToken (generateRefreshToken ex_cfg 2000 (nextId ex_state) (Some (p_email ex_apple)))
     \<notin> rt_tokenHash ` set (refreshTokens ex_state) \<and>
   (\<exists>x. snd ex_created = Inr x \<and> uv_id (res_user x) = nextId ex_state \<and> res_isNewUser x) \<and>
   length (users (fst ex_created)) = Suc (length (users ex_state))"
proof -
  have wc: "wf_cols ex_state" by (simp add: eval_defs wf_cols_def)
  have k1: "(p_provider ex_facebook, p_providerId ex_facebook) \<notin> set (map oauth_key (oauthProviders ex_state))"
    and k2: "(p_provider ex_apple, p_providerId ex_apple) \<notin> set (map oauth_key (oauthProviders ex_state))"
    by (simp_all add: eval_defs ex_facebook_def ex_apple_def)
  have h1: "handleOAuthCallback ex_cfg 2000 ex_facebook None ex_state = (fst ex_linked, snd ex_linked)"
    and h2: "handleOAuthCallback ex_cfg 2000 ex_apple None ex_state = (fst ex_created, snd ex_created)"
    by (simp_all add: ex_linked_def ex_created_def)
  have a: "hd (users ex_state) \<in> set (users ex_state)"
    "u_email (hd (users ex_state)) = Some (p_email ex_facebook)"
    by (simp_all add: eval_defs ex_facebook_def)
  have l1: "length (p_providerId ex_facebook) \<le> 255"
    and l2: "length (p_email ex_apple) \<le> 255" "fits 255 (p_displayName ex_apple)"
      "length (p_providerId ex_apple) \<le> 255"
    by (simp_all add: ex_facebook_def ex_apple_def)
  have f1: "hashToken (generateRefreshToken ex_cfg 2000 (u_id (hd (users ex_state)))
       (u_email (hd (users ex_state)))) \<notin> rt_tokenHash ` set (refreshTokens ex_state)"
    and f2: "hashToken (generateRefreshToken ex_cfg 2000 (nextId ex_state) (Some (p_email ex_apple)))
     \<notin> rt_tokenHash ` set (refreshTokens ex_state)"
    by (simp_all add: eval_defs ex_apple_def)
  have n: "Some (p_email ex_apple) \<notin> set (map u_email (users ex_state))"
    by (simp add: eval_defs ex_apple_def)
  from cross_provider_linking[OF wf_ex_state wc k1 h1, of "hd (users ex_state)"] a l1 f1
  have c1: "(\<exists>x. snd ex_linked = Inr x \<and> res_user x = to_view (hd (users ex_state)) \<and> \<not> res_isNewUser x) \<and>
            map u_id (users (fst ex_linked)) = map u_id (users ex_state) \<and>
            length (oauthProviders (fst ex_linked)) = Suc (length (oauthProviders ex_state))"
    by (metis length_append_singleton)
  from cross_provider_linking[OF wf_ex_state wc k2 h2] n l2 f2
  have c2: "(\<exists>x. snd ex_created = Inr x \<and> uv_id (res_user x) = nextId ex_state \<and> res_isNewUser x) \<and>
            length (users (fst ex_created)) = Suc (length (users ex_state))"
    by (metis length_append_singleton)
  from wf_ex_state wc k1 k2 a l1 l2 f1 f2 n c1 c2 show ?thesis by blast
qed

subsection \<open>C4: Full session invalidation\<close>

text \<open>
  C4. Full session invalidation. When \<open>resetPassword\<close> succeeds with the one-time token
  \<open>tok\<close> of the row \<open>vt\<close>, every refresh-token row of the account of \<open>vt\<close> is revoked in
  the store it leaves; and for every refresh-token row \<open>r\<close> that the account had before
  the reset, a raw token \<open>t\<close> with the hash of \<open>r\<close> is rejected by \<open>refreshAccessToken\<close>
  with \<open>UnauthorizedError\<close>, whatever calls \<open>ops\<close> come in between.
\<close>

theorem reset_revokes_all_sessions:
  assumes "wf s"
    and "resetPassword now salt tok pw dv s = (s', Inr msg)"
    and "vt \<in> set (verificationTokens s)" and "vt_token vt = tok"
  shows "list_all (\<lambda>r. rt_userId r = vt_userId vt \<longrightarrow> rt_revokedAt r \<noteq> None) (refreshTokens s') \<and>
         (r \<in> set (refreshTokens s) \<and> rt_userId r = vt_userId vt \<and> rt_tokenHash r = hashToken t \<longrightarrow>
            refreshAccessToken cfg now' t dv' (run cfg ops s') =
              (run cfg ops s', Inl (UnauthorizedError ''Invalid or expired refresh token'')))"
proof -
  from assms(1) have dh: "distinct (map rt_tokenHash (refreshTokens s))"
    and dt: "distinct (map vt_token (verificationTokens s))"
    by (simp_all add: wf_def wf_unique_def)
  from reset_success[OF assms(2)] obtain rt where
    found: "find (\<lambda>r. vt_token r = tok \<and> vt_tokenType r = PasswordReset \<and> vt_expiresAt r > now)
                 (verificationTokens s) = Some rt"
    and rows: "refreshTokens s' =
             map (\<lambda>r. if rt_userId r = vt_userId rt then r\<lparr>rt_revokedAt := Some now\<rparr> else r)
               (refreshTokens s)"
    by blast
  have "vt_token rt = tok" using find_SomeD2[OF found] by simp
  with find_unique[OF dt found assms(3)] assms(4) have vt: "vt = rt" by simp
  have all: "list_all (\<lambda>r. rt_userId r = vt_userId vt \<longrightarrow> rt_revokedAt r \<noteq> None) (refreshTokens s')"
    unfolding rows vt by (induction "refreshTokens s") (auto simp: list_all_iff)
  have later: "refreshAccessToken cfg now' t dv' (run cfg ops s') =
              (run cfg ops s', Inl (UnauthorizedError ''Invalid or expired refresh token''))"
    if r: "r \<in> set (refreshTokens s)" "rt_userId r = vt_userId vt" "rt_tokenHash r = hashToken t"
  proof -
    have "revoked_hash (rt_tokenHash r) (refreshTokens s')"
      unfolding rows using revoked_hash_after_revoke[OF dh r(1), of "\<lambda>r. rt_userId r = vt_userId rt" now]
        r(2) vt by simp
    then have "revoked_hash (hashToken t) (refreshTokens (run cfg ops s'))"
      using revoked_hash_step[OF rt_step_run] r(3) by simp
    from refresh_revoked_hash[OF this] show ?thesis .
  qed
  from all later show ?thesis by blast
qed

theorem reset_revokes_all_sessions_witness:
  "wf ex_reset_state \<and>
   resetPassword 3000 ''pepper'' (Plain ''beef'') ''N3w-Passw0rd'' None ex_reset_state =
     (fst ex_reset, Inr ''Password reset successfully'') \<and>
   last (verificationTokens ex_reset_state) \<in> set (verificationTokens ex_reset_state) \<and>
   vt_token (last (verificationTokens ex_reset_state)) = Plain ''beef'' \<and>
   hd (refreshTokens ex_reset_state) \<in> set (refreshTokens ex_reset_state) \<and>
   rt_userId (hd (refreshTokens ex_reset_state)) =
     vt_userId (last (verificationTokens ex_reset_state)) \<and>
   rt_tokenHash (hd (refreshTokens ex_reset_state)) = hashToken ex_token \<and>
   rt_revokedAt (hd (refreshTokens ex_reset_state)) = None \<and>
   list_all (\<lambda>r. rt_revokedAt r \<noteq> None) (refreshTokens (fst ex_reset)) \<and>
   refreshAccessToken ex_cfg 9000 ex_token None (run ex_cfg [ex_login2] (fst ex_reset)) =
     (run ex_cfg [ex_login2] (fst ex_reset),
      Inl (UnauthorizedError ''Invalid or expired refresh token''))"
proof -
  have wf_ex_reset_state: "wf ex_reset_state"
    unfolding ex_reset_state_def by (rule wf_run[OF wf_ex_state])
  have ok: "resetPassword 3000 ''pepper'' (Plain ''beef'') ''N3w-Passw0rd'' None ex_reset_state =
     (fst ex_reset, Inr ''Password reset successfully'')"
    by (simp add: eval_defs ex_reset_state_def ex_reset_def)
  have vt: "last (verificationTokens ex_reset_state) \<in> set (verificationTokens ex_reset_state)"
    "vt_token (last (verificationTokens ex_reset_state)) = Plain ''beef''"
    by (simp_all add: eval_defs ex_reset_state_def ex_reset_def)
  have r: "hd (refreshTokens ex_reset_state) \<in> set (refreshTokens ex_reset_state)"
    "rt_userId (hd (refreshTokens ex_reset_state)) =
       vt_userId (last (verificationTokens ex_reset_state))"
    "rt_tokenHash (hd (refreshTokens ex_reset_state)) = hashToken ex_token"
    "rt_revokedAt (hd (refreshTokens ex_reset_state)) = None"
    by (simp_all add: eval_defs ex_reset_state_def ex_reset_def)
  have all: "list_all (\<lambda>r. rt_revokedAt r \<noteq> None) (refreshTokens (fst ex_reset))"
    by (simp add: eval_defs ex_reset_state_def ex_reset_def)
  from reset_revokes_all_sessions[OF wf_ex_reset_state ok vt,
      of "hd (refreshTokens ex_reset_state)" ex_token ex_cfg 9000 None "[ex_login2]"] r
  have "refreshAccessToken ex_cfg 9000 ex_token None (run ex_cfg [ex_login2] (fst ex_reset)) =
     (run ex_cfg [ex_login2] (fst ex_reset),
      Inl (UnauthorizedError ''Invalid or expired refresh token''))"
    by blast
  with wf_ex_reset_state ok vt r all show ?thesis by blast
qed

subsection \<open>C5: Single use of one-time tokens\<close>



subsection \<open>C6: What makes a refresh token valid\<close>

text \<open>
  C6, as amended. The validity of a raw refresh token is decided by its stored record
  alone. From a store that meets the constraints of the schema, a token whose hash has no
  row, or whose row is expired or revoked, is rejected with \<open>UnauthorizedError\<close>; a token
  whose row is unexpired and unrevoked, the owner being active and the hash of the
  newly signed refresh token not stored yet, is accepted. The signed token is never
  verified: its signature, issuer, audience and signed expiry play no part.
\<close>

theorem refresh_validity_by_record:
  assumes "wf s"
  shows "(hashToken t \<notin> rt_tokenHash ` set (refreshTokens s) \<longrightarrow>
            refreshAccessToken cfg now t d s =
              (s, Inl (UnauthorizedError ''Invalid or expired refresh token''))) \<and>
         (r \<in> set (refreshTokens s) \<and> rt_tokenHash r = hashToken t \<and>
          (rt_expiresAt r \<le> now \<or> rt_revokedAt r \<noteq> None) \<longrightarrow>
            refreshAccessToken cfg now t d s =
              (s, Inl (UnauthorizedError ''Invalid or expired refresh token''))) \<and>
         (r \<in> set (refreshTokens s) \<and> rt_tokenHash r = hashToken t \<and>
          now < rt_expiresAt r \<and> rt_revokedAt r = None \<and>
          u \<in> set (users s) \<and> u_id u = rt_userId r \<and> u_status u = Active \<and>
          hashToken (generateRefreshToken cfg now (u_id u) (u_email u))
            \<notin> rt_tokenHash ` set (refreshTokens s) \<longrightarrow>
            (\<exists>s'. refreshAccessToken cfg now t d s =
               (s', Inr \<lparr>res_accessToken = generateAccessToken cfg now (u_id u) (u_email u),
                         res_refreshToken = generateRefreshToken cfg now (u_id u) (u_email u),
                         res_tokenType = ''Bearer'', res_expiresIn = accessTokenExpiry cfg\<rparr>)))"
proof -
  from assms have dh: "distinct (map rt_tokenHash (refreshTokens s))"
    and du: "distinct (map u_id (users s))" by (simp_all add: wf_alt)
  have one: "refreshAccessToken cfg now t d s =
              (s, Inl (UnauthorizedError ''Invalid or expired refresh token''))"
    if "hashToken t \<notin> rt_tokenHash ` set (refreshTokens s)"
  proof -
    from that have "find (\<lambda>r. rt_tokenHash r = hashToken t \<and> now < rt_expiresAt r)
                      (refreshTokens s) = None"
      unfolding find_None_iff by (metis image_eqI)
    then show ?thesis by (simp add: refreshAccessToken_def)
  qed
  have two: "refreshAccessToken cfg now t d s =
              (s, Inl (UnauthorizedError ''Invalid or expired refresh token''))"
    if r: "r \<in> set (refreshTokens s)" "rt_tokenHash r = hashToken t"
      and dead: "rt_expiresAt r \<le> now \<or> rt_revokedAt r \<noteq> None"
  proof (cases "find (\<lambda>r. rt_tokenHash r = hashToken t \<and> now < rt_expiresAt r) (refreshTokens s)")
    case None
    then show ?thesis by (simp add: refreshAccessToken_def)
  next
    case (Some r')
    from find_SomeD2[OF Some] have r': "rt_tokenHash r' = hashToken t" "now < rt_expiresAt r'"
      by auto
    from find_unique[OF dh Some r(1)] r(2) r'(1) have "r = r'" by simp
    with dead r'(2) have "rt_revokedAt r' \<noteq> None" by auto
    with Some show ?thesis by (auto simp: refreshAccessToken_def)
  qed
  have three: "\<exists>s'. refreshAccessToken cfg now t d s =
               (s', Inr \<lparr>res_accessToken = generateAccessToken cfg now (u_id u) (u_email u),
                         res_refreshToken = generateRefreshToken cfg now (u_id u) (u_email u),
                         res_tokenType = ''Bearer'', res_expiresIn = accessTokenExpiry cfg\<rparr>)"
    if r: "r \<in> set (refreshTokens s)" "rt_tokenHash r = hashToken t"
      and live: "now < rt_expiresAt r" "rt_revokedAt r = None"
      and u: "u \<in> set (users s)" "u_id u = rt_userId r" "u_status u = Active"
      and fresh: "hashToken (generateRefreshToken cfg now (u_id u) (u_email u))
            \<notin> rt_tokenHash ` set (refreshTokens s)"
  proof -
    obtain r' where f: "find (\<lambda>r. rt_tokenHash r = hashToken t \<and> now < rt_expiresAt r)
                          (refreshTokens s) = Some r'"
      using r live(1) by (cases "find (\<lambda>r. rt_tokenHash r = hashToken t \<and> now < rt_expiresAt r)
                          (refreshTokens s)") (auto simp: find_None_iff)
    from find_SomeD2[OF f] have "rt_tokenHash r' = hashToken t" by simp
    with find_unique[OF dh f r(1)] r(2) have rr: "r' = r" by simp
    from find_distinct[OF du u(1)] u(2)
    have fu: "find (\<lambda>x. u_id x = rt_userId r) (users s) = Some u" by simp
    from refresh_accepts[OF f[unfolded rr] live(2) fu u(3) fresh] show ?thesis .
  qed
  from one two three show ?thesis by blast
qed

theorem refresh_validity_by_record_witness:
  "wf ex_state7 \<and>
   hashToken (Plain ''junk'') \<notin> rt_tokenHash ` set (refreshTokens ex_state7) \<and>
   refreshAccessToken ex_cfg7 700000000 (Plain ''junk'') None ex_state7 =
     (ex_state7, Inl (UnauthorizedError ''Invalid or expired refresh token'')) \<and>
   hd (refreshTokens ex_state7) \<in> set (refreshTokens ex_state7) \<and>
   rt_tokenHash (hd (refreshTokens ex_state7)) = hashToken ex_token7 \<and>
   rt_expiresAt (hd (refreshTokens ex_state7)) \<le> 2592001000 \<and>
   refreshAccessToken ex_cfg7 2592001000 ex_token7 None ex_state7 =
     (ex_state7, Inl (UnauthorizedError ''Invalid or expired refresh token'')) \<and>
   700000000 < rt_expiresAt (hd (refreshTokens ex_state7)) \<and>
   rt_revokedAt (hd (refreshTokens ex_state7)) = None \<and>
   hd (users ex_state7) \<in> set (users ex_state7) \<and>
   u_id (hd (users ex_state7)) = rt_userId (hd (refreshTokens ex_state7)) \<and>
   u_status (hd (users ex_state7)) = Active \<and>
   verifyToken ex_cfg7 700000000 ex_token7 = Inl (UnauthorizedError ''Token has expired'') \<and>
   (\<exists>s' res. refreshAccessToken ex_cfg7 700000000 ex_token7 None ex_state7 = (s', Inr res))"
proof -
  have wf_ex_state7: "wf ex_state7"
    unfolding ex_state7_def by (rule wf_reachable)
  let ?r = "hd (refreshTokens ex_state7)"
  let ?u = "hd (users ex_state7)"
  have j: "hashToken (Plain ''junk'') \<notin> rt_tokenHash ` set (refreshTokens ex_state7)"
    by (simp add: eval_defs ex_cfg7_def ex_state7_def ex_token7_def)
  have r: "?r \<in> set (refreshTokens ex_state7)" "rt_tokenHash ?r = hashToken ex_token7"
    "rt_expiresAt ?r \<le> 2592001000" "700000000 < rt_expiresAt ?r" "rt_revokedAt ?r = None"
    by (simp_all add: eval_defs ex_cfg7_def ex_state7_def ex_token7_def)
  have u: "?u \<in> set (users ex_state7)" "u_id ?u = rt_userId ?r" "u_status ?u = Active"
    by (simp_all add: eval_defs ex_cfg7_def ex_state7_def ex_token7_def)
  have fresh: "hashToken (generateRefreshToken ex_cfg7 700000000 (u_id ?u) (u_email ?u))
            \<notin> rt_tokenHash ` set (refreshTokens ex_state7)"
    by (simp add: eval_defs ex_cfg7_def ex_state7_def ex_token7_def)
  have v: "verifyToken ex_cfg7 700000000 ex_token7 = Inl (UnauthorizedError ''Token has expired'')"
    by (simp add: eval_defs ex_cfg7_def ex_state7_def ex_token7_def)
  from refresh_validity_by_record[OF wf_ex_state7, of "Plain ''junk''" ex_cfg7 700000000 None] j
  have c1: "refreshAccessToken ex_cfg7 700000000 (Plain ''junk'') None ex_state7 =
     (ex_state7, Inl (UnauthorizedError ''Invalid or expired refresh token''))" by blast
  from refresh_validity_by_record[OF wf_ex_state7, of ex_token7 ex_cfg7 2592001000 None ?r] r
  have c2: "refreshAccessToken ex_cfg7 2592001000 ex_token7 None ex_state7 =
     (ex_state7, Inl (UnauthorizedError ''Invalid or expired refresh token''))" by blast
  from refresh_validity_by_record[OF wf_ex_state7, of ex_token7 ex_cfg7 700000000 None ?r ?u]
    r u fresh
  have c3: "\<exists>s' res. refreshAccessToken ex_cfg7 700000000 ex_token7 None ex_state7 = (s', Inr res)"
    by blast
  from wf_ex_state7 j r u v c1 c2 c3 show ?thesis by blast
qed


text \<open>
  C6, as stated, fails. With the refresh tokens configured to expire after seven days, the
  refresh token of a login at time 1000 no longer verifies at time 700000000 (more than
  eight days later): \<open>verifyToken\<close> throws \<open>Token has expired\<close>. Its stored record still
  has 30 days, and \<open>refreshAccessToken\<close> accepts it. In the same way, once the signing
  secret has been changed the refresh token of the earlier login has a signature that
  \<open>verifyToken\<close> rejects, and \<open>refreshAccessToken\<close> accepts it.
\<close>

theorem expired_signature_still_refreshes:
  "verifyToken ex_cfg7 700000000 ex_token7 = Inl (UnauthorizedError ''Token has expired'') \<and>
   \<not> isl (snd (refreshAccessToken ex_cfg7 700000000 ex_token7 None ex_state7)) \<and>
   verifyToken ex_rotated 5000 ex_token = Inl (UnauthorizedError ''Invalid token'') \<and>
   \<not> isl (snd (refreshAccessToken ex_rotated 5000 ex_token None ex_state))"
  by (simp add: eval_defs ex_cfg7_def ex_state7_def ex_token7_def ex_rotated_def)

subsection \<open>C7: Assertions without an email\<close>

text \<open>
  C7. An assertion with an empty email is matched by email all the same. The first
  assertion without an email (Google, subject \<open>g-7\<close>) creates account 0 with the empty
  string as its email. The second one comes from another provider and subject (Facebook,
  \<open>f-8\<close>) that no account is linked to, and its email is empty too: the lookup by email
  finds account 0, no account is created, the Facebook identity is bound to account 0 and
  the caller receives tokens for account 0 with \<open>isNewUser = false\<close>.
\<close>

theorem empty_email_matches_account:
  "p_email ex_anon_facebook = [] \<and>
   (p_provider ex_anon_facebook, p_providerId ex_anon_facebook)
      \<notin> set (map oauth_key (oauthProviders (fst ex_anon1))) \<and>
   map u_id (users (fst ex_anon1)) = [0] \<and>
   map u_email (users (fst ex_anon1)) = [Some []] \<and>
   map u_id (users (fst ex_anon2)) = [0] \<and>
   map oauth_key (oauthProviders (fst ex_anon2)) = [(Google, ''g-7''), (Facebook, ''f-8'')] \<and>
   map op_userId (oauthProviders (fst ex_anon2)) = [0, 0] \<and>
   \<not> isl (snd ex_anon2) \<and>
   \<not> res_isNewUser (projr (snd ex_anon2)) \<and>
   uv_id (res_user (projr (snd ex_anon2))) = 0 \<and>
   res_accessToken (projr (snd ex_anon2)) = generateAccessToken ex_cfg 5000 0 (Some [])"
  by (simp add: eval_defs ex_anon_google_def ex_anon_facebook_def ex_anon1_def ex_anon2_def)

subsection \<open>C8: How tokens are stored\<close>

text \<open>
  C8, as stated, fails for the one-time tokens. After the registration of the example the
  \<open>token\<close> column of the stored row is the raw token itself, the one that was mailed, and
  whoever reads it from the store verifies the email with it.
\<close>

theorem one_time_token_stored_raw:
  "vt_token (hd (verificationTokens ex_state)) = generateToken ''c0ffee'' \<and>
   outbox ex_state = [VerificationEmail (Some ''a@x.com'') (generateToken ''c0ffee'')] \<and>
   snd (verifyEmail 5000 (vt_token (hd (verificationTokens ex_state))) ex_state) =
     Inr ''Email verified successfully''"
  by (simp add: eval_defs)

text \<open>
  C8, as amended. A refresh token is stored as its digest only. A call of \<open>login\<close>,
  \<open>refreshAccessToken\<close> or \<open>handleOAuthCallback\<close> that returns a refresh token adds one row
  to the table of refresh tokens: the row of the account, with \<open>hashToken\<close> of the returned
  token, the device information of the call, an expiry 30 days ahead and no revocation.
  Of the other rows of that table \<open>login\<close> and \<open>handleOAuthCallback\<close> change nothing, and
  \<open>refreshAccessToken\<close> sets the revocation of the row it found by \<open>hashToken\<close> of the
  presented token. None of the three writes to the table of one-time tokens or sends a
  mail. No later call writes the returned token there either: if the column of one-time
  tokens did not hold it before the call, it holds it after no run.

  A one-time token is stored raw. The row that \<open>register\<close> and \<open>requestPasswordReset\<close> add
  to the table of one-time tokens holds in its \<open>token\<close> column the very output of
  \<open>generateToken\<close> that is mailed to the user. \<open>verifyEmail\<close> and \<open>resetPassword\<close> look the
  presented token up by equality with that column: presenting the content of the column of
  an unused and unexpired row of the right type succeeds, the tokens of the table being
  distinct, and presenting a value that no row holds fails with a \<open>ValidationError\<close> and
  writes nothing. For \<open>resetPassword\<close> this is said of a valid new password; an invalid one
  is refused before the lookup.
\<close>

theorem token_storage:
  "(login cfg now data d s = (s1, Inr x) \<longrightarrow>
      refreshTokens s1 = refreshTokens s @
        [\<lparr>rt_id = nextId s, rt_userId = uv_id (res_user x),
          rt_tokenHash = hashToken (res_refreshToken x),
          rt_deviceInfo = device_or_empty d, rt_expiresAt = now + 30 * 24 * 60 * 60 * 1000,
          rt_createdAt = now, rt_revokedAt = None\<rparr>] \<and>
      verificationTokens s1 = verificationTokens s \<and> outbox s1 = outbox s \<and>
      (res_refreshToken x \<notin> vt_token ` set (verificationTokens s) \<longrightarrow>
         res_refreshToken x \<notin> vt_token ` set (verificationTokens (run cfg ops s1)))) \<and>
   (refreshAccessToken cfg now t d s = (s2, Inr y) \<longrightarrow>
      (\<exists>old. old \<in> set (refreshTokens s) \<and> rt_tokenHash old = hashToken t \<and>
         refreshTokens s2 =
           map (\<lambda>r. if rt_id r = rt_id old then r\<lparr>rt_revokedAt := Some now\<rparr> else r)
             (refreshTokens s) @
           [\<lparr>rt_id = nextId s, rt_userId = rt_userId old,
             rt_tokenHash = hashToken (res_refreshToken y),
             rt_deviceInfo = device_or_empty d, rt_expiresAt = now + 30 * 24 * 60 * 60 * 1000,
             rt_createdAt = now, rt_revokedAt = None\<rparr>]) \<and>
      verificationTokens s2 = verificationTokens s \<and> outbox s2 = outbox s \<and>
      (res_refreshToken y \<notin> vt_token ` set (verificationTokens s) \<longrightarrow>
         res_refreshToken y \<notin> vt_token ` set (verificationTokens (run cfg ops s2)))) \<and>
   (handleOAuthCallback cfg now p d s = (s3, Inr z) \<longrightarrow>
      (\<exists>i. refreshTokens s3 = refreshTokens s @
        [\<lparr>rt_id = i, rt_userId = uv_id (res_user z),
          rt_tokenHash = hashToken (res_refreshToken z),
          rt_deviceInfo = device_or_empty d, rt_expiresAt = now + 30 * 24 * 60 * 60 * 1000,
          rt_createdAt = now, rt_revokedAt = None\<rparr>]) \<and>
      verificationTokens s3 = verificationTokens s \<and> outbox s3 = outbox s \<and>
      (res_refreshToken z \<notin> vt_token ` set (verificationTokens s) \<longrightarrow>
         res_refreshToken z \<notin> vt_token ` set (verificationTokens (run cfg ops s3)))) \<and>
   (register now salt rnd rdata d s = (s4, Inr v) \<longrightarrow>
      (\<exists>row. verificationTokens s4 = verificationTokens s @ [row] \<and>
         vt_token row = generateToken rnd \<and> vt_tokenType row = EmailVerification \<and>
         vt_userId row = rv_id (fst v) \<and> vt_usedAt row = None \<and>
         outbox s4 = outbox s @ [VerificationEmail (rv_email (fst v)) (vt_token row)])) \<and>
   (requestPasswordReset now rnd email d s = (s5, Inr m) \<and>
    find (\<lambda>u. u_email u = Some email) (users s) = Some usr \<longrightarrow>
      (\<exists>row. verificationTokens s5 = verificationTokens s @ [row] \<and>
         vt_token row = generateToken rnd \<and> vt_tokenType row = PasswordReset \<and>
         vt_userId row = u_id usr \<and> vt_usedAt row = None \<and>
         outbox s5 = outbox s @ [PasswordResetEmail (Some email) (vt_token row)])) \<and>
   (distinct (map vt_token (verificationTokens s)) \<and> stored \<in> set (verificationTokens s) \<and>
    now < vt_expiresAt stored \<and> vt_usedAt stored = None \<longrightarrow>
      (vt_tokenType stored = EmailVerification \<longrightarrow>
         snd (verifyEmail now (vt_token stored) s) = Inr ''Email verified successfully'') \<and>
      (vt_tokenType stored = PasswordReset \<and> valid (validatePasswordStrength pw) \<longrightarrow>
         snd (resetPassword now salt (vt_token stored) pw d s) =
           Inr ''Password reset successfully'')) \<and>
   (tok \<notin> vt_token ` set (verificationTokens s) \<longrightarrow>
      verifyEmail now tok s =
        (s, Inl (ValidationError ''Invalid or expired verification token'')) \<and>
      (valid (validatePasswordStrength pw) \<longrightarrow>
         resetPassword now salt tok pw d s =
           (s, Inl (ValidationError ''Invalid or expired reset token''))))"
proof -
  have one: "refreshTokens s1 = refreshTokens s @
        [\<lparr>rt_id = nextId s, rt_userId = uv_id (res_user x),
          rt_tokenHash = hashToken (res_refreshToken x),
          rt_deviceInfo = device_or_empty d, rt_expiresAt = now + 30 * 24 * 60 * 60 * 1000,
          rt_createdAt = now, rt_revokedAt = None\<rparr>] \<and>
      verificationTokens s1 = verificationTokens s \<and> outbox s1 = outbox s \<and>
      (res_refreshToken x \<notin> vt_token ` set (verificationTokens s) \<longrightarrow>
         res_refreshToken x \<notin> vt_token ` set (verificationTokens (run cfg ops s1)))"
    if "login cfg now data d s = (s1, Inr x)"
    using login_success[OF that] signed_never_raw[of "res_refreshToken x" s1 cfg ops] by auto
  have two: "(\<exists>old. old \<in> set (refreshTokens s) \<and> rt_tokenHash old = hashToken t \<and>
         refreshTokens s2 =
           map (\<lambda>r. if rt_id r = rt_id old then r\<lparr>rt_revokedAt := Some now\<rparr> else r)
             (refreshTokens s) @
           [\<lparr>rt_id = nextId s, rt_userId = rt_userId old,
             rt_tokenHash = hashToken (res_refreshToken y),
             rt_deviceInfo = device_or_empty d, rt_expiresAt = now + 30 * 24 * 60 * 60 * 1000,
             rt_createdAt = now, rt_revokedAt = None\<rparr>]) \<and>
      verificationTokens s2 = verificationTokens s \<and> outbox s2 = outbox s \<and>
      (res_refreshToken y \<notin> vt_token ` set (verificationTokens s) \<longrightarrow>
         res_refreshToken y \<notin> vt_token ` set (verificationTokens (run cfg ops s2)))"
    if "refreshAccessToken cfg now t d s = (s2, Inr y)"
  proof -
    from refresh_success[OF that] obtain old usr where
      f: "find (\<lambda>r. rt_tokenHash r = hashToken t \<and> rt_expiresAt r > now) (refreshTokens s) = Some old"
      and "rt_revokedAt old = None"
      and "find (\<lambda>u. u_id u = rt_userId old) (users s) = Some usr" and "u_status usr = Active"
      and tk: "res_refreshToken y = generateRefreshToken cfg now (u_id usr) (u_email usr)"
      and "hashToken (res_refreshToken y) \<notin> rt_tokenHash ` set (refreshTokens s)"
      and rows: "refreshTokens s2 =
             map (\<lambda>r. if rt_id r = rt_id old then r\<lparr>rt_revokedAt := Some now\<rparr> else r) (refreshTokens s) @
             [\<lparr>rt_id = nextId s, rt_userId = rt_userId old,
               rt_tokenHash = hashToken (res_refreshToken y),
               rt_deviceInfo = device_or_empty d, rt_expiresAt = now + 30 * 24 * 60 * 60 * 1000,
               rt_createdAt = now, rt_revokedAt = None\<rparr>]"
      by blast
    from find_SomeD2[OF f] have h: "old \<in> set (refreshTokens s) \<and> rt_tokenHash old = hashToken t"
      by simp
    from refresh_keeps[of cfg now t d s] that
    have keep: "verificationTokens s2 = verificationTokens s" "outbox s2 = outbox s" by simp_all
    from tk have "\<forall>rnd. res_refreshToken y \<noteq> generateToken rnd" by (simp add: signed_not_drawn)
    from signed_never_raw[OF this, of s2 cfg ops] keep
    have never: "res_refreshToken y \<notin> vt_token ` set (verificationTokens s) \<longrightarrow>
         res_refreshToken y \<notin> vt_token ` set (verificationTokens (run cfg ops s2))" by simp
    have "\<exists>old. old \<in> set (refreshTokens s) \<and> rt_tokenHash old = hashToken t \<and>
         refreshTokens s2 =
           map (\<lambda>r. if rt_id r = rt_id old then r\<lparr>rt_revokedAt := Some now\<rparr> else r)
             (refreshTokens s) @
           [\<lparr>rt_id = nextId s, rt_userId = rt_userId old,
             rt_tokenHash = hashToken (res_refreshToken y),
             rt_deviceInfo = device_or_empty d, rt_expiresAt = now + 30 * 24 * 60 * 60 * 1000,
             rt_createdAt = now, rt_revokedAt = None\<rparr>]"
      by (rule exI[where x = old]) (simp add: h rows)
    with keep never show ?thesis by blast
  qed
  have three: "(\<exists>i. refreshTokens s3 = refreshTokens s @
        [\<lparr>rt_id = i, rt_userId = uv_id (res_user z),
          rt_tokenHash = hashToken (res_refreshToken z),
          rt_deviceInfo = device_or_empty d, rt_expiresAt = now + 30 * 24 * 60 * 60 * 1000,
          rt_createdAt = now, rt_revokedAt = None\<rparr>]) \<and>
      verificationTokens s3 = verificationTokens s \<and> outbox s3 = outbox s \<and>
      (res_refreshToken z \<notin> vt_token ` set (verificationTokens s) \<longrightarrow>
         res_refreshToken z \<notin> vt_token ` set (verificationTokens (run cfg ops s3)))"
    if "handleOAuthCallback cfg now p d s = (s3, Inr z)"
    using oauth_success[OF that] signed_never_raw[of "res_refreshToken z" s3 cfg ops] by auto
  have four: "\<exists>row. verificationTokens s4 = verificationTokens s @ [row] \<and>
         vt_token row = generateToken rnd \<and> vt_tokenType row = EmailVerification \<and>
         vt_userId row = rv_id (fst v) \<and> vt_usedAt row = None \<and>
         outbox s4 = outbox s @ [VerificationEmail (rv_email (fst v)) (vt_token row)]"
    if "register now salt rnd rdata d s = (s4, Inr v)"
    using register_success[OF that] by auto
  have five: "\<exists>row. verificationTokens s5 = verificationTokens s @ [row] \<and>
         vt_token row = generateToken rnd \<and> vt_tokenType row = PasswordReset \<and>
         vt_userId row = u_id usr \<and> vt_usedAt row = None \<and>
         outbox s5 = outbox s @ [PasswordResetEmail (Some email) (vt_token row)]"
    if "requestPasswordReset now rnd email d s = (s5, Inr m)"
      "find (\<lambda>u. u_email u = Some email) (users s) = Some usr"
    using request_success[OF that] by auto
  have six: "(vt_tokenType stored = EmailVerification \<longrightarrow>
         snd (verifyEmail now (vt_token stored) s) = Inr ''Email verified successfully'') \<and>
      (vt_tokenType stored = PasswordReset \<and> valid (validatePasswordStrength pw) \<longrightarrow>
         snd (resetPassword now salt (vt_token stored) pw d s) =
           Inr ''Password reset successfully'')"
    if "distinct (map vt_token (verificationTokens s))" "stored \<in> set (verificationTokens s)"
      "now < vt_expiresAt stored" "vt_usedAt stored = None"
    using verify_stored[OF that(1,2) _ that(3,4)]
      reset_stored[OF that(1,2) _ that(3,4), of pw salt d] by blast
  have seven: "verifyEmail now tok s =
        (s, Inl (ValidationError ''Invalid or expired verification token'')) \<and>
      (valid (validatePasswordStrength pw) \<longrightarrow>
         resetPassword now salt tok pw d s =
           (s, Inl (ValidationError ''Invalid or expired reset token'')))"
    if "tok \<notin> vt_token ` set (verificationTokens s)"
    using verify_unknown[OF that, of now] reset_unknown[OF that, of pw now salt d] by blast
  from one two three four five six seven show ?thesis by blast
qed

theorem token_storage_witness:
  "(\<exists>s1 x. login ex_cfg 7000 \<lparr>ld_email = ''a@x.com'', ld_password = ''Passw0rd!''\<rparr> None
        ex_state = (s1, Inr x) \<and>
      res_refreshToken x \<notin> vt_token ` set (verificationTokens ex_state) \<and>
      length (refreshTokens s1) = Suc (length (refreshTokens ex_state)) \<and>
      rt_tokenHash (last (refreshTokens s1)) = hashToken (res_refreshToken x) \<and>
      verificationTokens s1 = verificationTokens ex_state \<and>
      res_refreshToken x \<notin> vt_token ` set (verificationTokens
        (run ex_cfg [VerifyEmail 9000 (Plain ''c0ffee'')] s1))) \<and>
   (\<exists>s2 y. refreshAccessToken ex_cfg 5000 ex_token None ex_state = (s2, Inr y) \<and>
      length (refreshTokens s2) = Suc (length (refreshTokens ex_state)) \<and>
      rt_tokenHash (last (refreshTokens s2)) = hashToken (res_refreshToken y) \<and>
      verificationTokens s2 = verificationTokens ex_state) \<and>
   (\<exists>s3 z. handleOAuthCallback ex_cfg 2000 ex_facebook None ex_state = (s3, Inr z) \<and>
      length (refreshTokens s3) = Suc (length (refreshTokens ex_state)) \<and>
      rt_tokenHash (last (refreshTokens s3)) = hashToken (res_refreshToken z) \<and>
      verificationTokens s3 = verificationTokens ex_state) \<and>
   (\<exists>s4 v row. register 8000 ''salt'' ''f00d''
        \<lparr>rd_email = ''b@y.com'', rd_password = ''Passw0rd!'', rd_displayName = None\<rparr> None
        ex_state = (s4, Inr v) \<and>
      verificationTokens s4 = verificationTokens ex_state @ [row] \<and>
      vt_token row = generateToken ''f00d'' \<and>
      outbox s4 = outbox ex_state @ [VerificationEmail (rv_email (fst v)) (vt_token row)]) \<and>
   (\<exists>s5 m usr row. requestPasswordReset 2000 ''beef'' ''a@x.com'' None ex_state = (s5, Inr m) \<and>
      find (\<lambda>u. u_email u = Some ''a@x.com'') (users ex_state) = Some usr \<and>
      verificationTokens s5 = verificationTokens ex_state @ [row] \<and>
      vt_token row = generateToken ''beef'' \<and>
      outbox s5 = outbox ex_state @ [PasswordResetEmail (Some ''a@x.com'') (vt_token row)]) \<and>
   distinct (map vt_token (verificationTokens ex_reset_state)) \<and>
   map vt_tokenType (verificationTokens ex_reset_state) = [EmailVerification, PasswordReset] \<and>
   map vt_usedAt (verificationTokens ex_reset_state) = [None, None] \<and>
   3000 < vt_expiresAt (hd (verificationTokens ex_reset_state)) \<and>
   3000 < vt_expiresAt (last (verificationTokens ex_reset_state)) \<and>
   valid (validatePasswordStrength ''N3w-Passw0rd'') \<and>
   snd (verifyEmail 3000 (vt_token (hd (verificationTokens ex_reset_state))) ex_reset_state) =
     Inr ''Email verified successfully'' \<and>
   snd (resetPassword 3000 ''pepper'' (vt_token (last (verificationTokens ex_reset_state)))
          ''N3w-Passw0rd'' None ex_reset_state) = Inr ''Password reset successfully'' \<and>
   Plain ''0000'' \<notin> vt_token ` set (verificationTokens ex_reset_state) \<and>
   verifyEmail 3000 (Plain ''0000'') ex_reset_state =
     (ex_reset_state, Inl (ValidationError ''Invalid or expired verification token'')) \<and>
   resetPassword 3000 ''pepper'' (Plain ''0000'') ''N3w-Passw0rd'' None ex_reset_state =
     (ex_reset_state, Inl (ValidationError ''Invalid or expired reset token''))"
proof -
  let ?ld = "\<lparr>ld_email = ''a@x.com'', ld_password = ''Passw0rd!''\<rparr>"
  let ?rd = "\<lparr>rd_email = ''b@y.com'', rd_password = ''Passw0rd!'', rd_displayName = None\<rparr>"
  let ?ops = "[VerifyEmail 9000 (Plain ''c0ffee'')]"
  let ?rows = "verificationTokens ex_reset_state"
  have "\<exists>s1 x. login ex_cfg 7000 ?ld None ex_state = (s1, Inr x) \<and>
          res_refreshToken x \<notin> vt_token ` set (verificationTokens ex_state)"
    by (simp add: eval_defs)
  then obtain s1 x where e1: "login ex_cfg 7000 ?ld None ex_state = (s1, Inr x)"
    and n1: "res_refreshToken x \<notin> vt_token ` set (verificationTokens ex_state)" by blast
  have "\<exists>s2 y. refreshAccessToken ex_cfg 5000 ex_token None ex_state = (s2, Inr y)"
    by (simp add: eval_defs)
  then obtain s2 y where e2: "refreshAccessToken ex_cfg 5000 ex_token None ex_state = (s2, Inr y)"
    by blast
  have "\<exists>s3 z. handleOAuthCallback ex_cfg 2000 ex_facebook None ex_state = (s3, Inr z)"
    by (simp add: eval_defs ex_facebook_def)
  then obtain s3 z where e3: "handleOAuthCallback ex_cfg 2000 ex_facebook None ex_state = (s3, Inr z)"
    by blast
  have "\<exists>s4 v. register 8000 ''salt'' ''f00d'' ?rd None ex_state = (s4, Inr v)"
    by (simp add: eval_defs)
  then obtain s4 v where e4: "register 8000 ''salt'' ''f00d'' ?rd None ex_state = (s4, Inr v)"
    by blast
  have "\<exists>s5 m. requestPasswordReset 2000 ''beef'' ''a@x.com'' None ex_state = (s5, Inr m)"
    by (simp add: eval_defs)
  then obtain s5 m where e5: "requestPasswordReset 2000 ''beef'' ''a@x.com'' None ex_state = (s5, Inr m)"
    by blast
  have "\<exists>usr. find (\<lambda>u. u_email u = Some ''a@x.com'') (users ex_state) = Some usr"
    by (simp add: eval_defs)
  then obtain usr where u: "find (\<lambda>u. u_email u = Some ''a@x.com'') (users ex_state) = Some usr"
    by blast
  have r: "distinct (map vt_token ?rows)"
    "map vt_tokenType ?rows = [EmailVerification, PasswordReset]"
    "map vt_usedAt ?rows = [None, None]"
    "3000 < vt_expiresAt (hd ?rows)" "3000 < vt_expiresAt (last ?rows)"
    "hd ?rows \<in> set ?rows" "last ?rows \<in> set ?rows"
    "vt_tokenType (hd ?rows) = EmailVerification" "vt_tokenType (last ?rows) = PasswordReset"
    "vt_usedAt (hd ?rows) = None" "vt_usedAt (last ?rows) = None"
    "Plain ''0000'' \<notin> vt_token ` set ?rows"
    by (simp_all add: eval_defs ex_reset_state_def)
  have pw: "valid (validatePasswordStrength ''N3w-Passw0rd'')"
    by (simp add: eval_defs)
  note t1 = token_storage[where cfg = ex_cfg and now = 7000 and data = ?ld and d = None
      and s = ex_state and ?s1.0 = s1 and x = x and ops = ?ops, THEN conjunct1, THEN mp, OF e1]
  with n1
  have c1: "length (refreshTokens s1) = Suc (length (refreshTokens ex_state)) \<and>
      rt_tokenHash (last (refreshTokens s1)) = hashToken (res_refreshToken x) \<and>
      verificationTokens s1 = verificationTokens ex_state \<and>
      res_refreshToken x \<notin> vt_token ` set (verificationTokens (run ex_cfg ?ops s1))"
    by simp
  note t2 = token_storage[where cfg = ex_cfg and now = 5000 and t = ex_token and d = None
      and s = ex_state and ?s2.0 = s2 and y = y and ops = "[]", THEN conjunct2, THEN conjunct1, THEN mp, OF e2]
  then obtain old where "old \<in> set (refreshTokens ex_state)" and "refreshTokens s2 =
           map (\<lambda>r. if rt_id r = rt_id old then r\<lparr>rt_revokedAt := Some 5000\<rparr> else r)
             (refreshTokens ex_state) @
           [\<lparr>rt_id = nextId ex_state, rt_userId = rt_userId old,
             rt_tokenHash = hashToken (res_refreshToken y),
             rt_deviceInfo = device_or_empty None, rt_expiresAt = 5000 + 30 * 24 * 60 * 60 * 1000,
             rt_createdAt = 5000, rt_revokedAt = None\<rparr>]"
    by blast
  with t2
  have c2: "length (refreshTokens s2) = Suc (length (refreshTokens ex_state)) \<and>
      rt_tokenHash (last (refreshTokens s2)) = hashToken (res_refreshToken y) \<and>
      verificationTokens s2 = verificationTokens ex_state"
    by simp
  note t3 = token_storage[where cfg = ex_cfg and now = 2000 and p = ex_facebook and d = None
      and s = ex_state and ?s3.0 = s3 and z = z and ops = "[]",
      THEN conjunct2, THEN conjunct2, THEN conjunct1, THEN mp, OF e3]
  then obtain i where "refreshTokens s3 = refreshTokens ex_state @
        [\<lparr>rt_id = i, rt_userId = uv_id (res_user z),
          rt_tokenHash = hashToken (res_refreshToken z),
          rt_deviceInfo = device_or_empty None, rt_expiresAt = 2000 + 30 * 24 * 60 * 60 * 1000,
          rt_createdAt = 2000, rt_revokedAt = None\<rparr>]"
    by blast
  with t3
  have c3: "length (refreshTokens s3) = Suc (length (refreshTokens ex_state)) \<and>
      rt_tokenHash (last (refreshTokens s3)) = hashToken (res_refreshToken z) \<and>
      verificationTokens s3 = verificationTokens ex_state"
    by simp
  note t4 = token_storage[where now = 8000 and salt = "''salt''" and rnd = "''f00d''"
      and rdata = ?rd and d = None and s = ex_state and ?s4.0 = s4 and v = v,
      THEN conjunct2, THEN conjunct2, THEN conjunct2, THEN conjunct1, THEN mp, OF e4]
  then have c4: "\<exists>row. verificationTokens s4 = verificationTokens ex_state @ [row] \<and>
      vt_token row = generateToken ''f00d'' \<and>
      outbox s4 = outbox ex_state @ [VerificationEmail (rv_email (fst v)) (vt_token row)]"
    by blast
  note t5 = token_storage[where now = 2000 and rnd = "''beef''" and email = "''a@x.com''"
      and d = None and s = ex_state and ?s5.0 = s5 and m = m and usr = usr,
      THEN conjunct2, THEN conjunct2, THEN conjunct2, THEN conjunct2, THEN conjunct1, THEN mp,
      OF conjI[OF e5 u]]
  then have c5: "\<exists>row. verificationTokens s5 = verificationTokens ex_state @ [row] \<and>
      vt_token row = generateToken ''beef'' \<and>
      outbox s5 = outbox ex_state @ [PasswordResetEmail (Some ''a@x.com'') (vt_token row)]"
    by blast
  note t6 = token_storage[where now = 3000 and s = ex_reset_state and stored = "hd ?rows",
      THEN conjunct2, THEN conjunct2, THEN conjunct2, THEN conjunct2, THEN conjunct2,
      THEN conjunct1]
  with r
  have c6: "snd (verifyEmail 3000 (vt_token (hd ?rows)) ex_reset_state) =
              Inr ''Email verified successfully''"
    by blast
  note t7 = token_storage[where now = 3000 and s = ex_reset_state and stored = "last ?rows"
      and pw = "''N3w-Passw0rd''" and salt = "''pepper''" and d = None,
      THEN conjunct2, THEN conjunct2, THEN conjunct2, THEN conjunct2, THEN conjunct2,
      THEN conjunct1]
  with r pw
  have c7: "snd (resetPassword 3000 ''pepper'' (vt_token (last ?rows)) ''N3w-Passw0rd'' None
              ex_reset_state) = Inr ''Password reset successfully''"
    by blast
  note t8 = token_storage[where now = 3000 and s = ex_reset_state and tok = "Plain ''0000''"
      and pw = "''N3w-Passw0rd''" and salt = "''pepper''" and d = None,
      THEN conjunct2, THEN conjunct2, THEN conjunct2, THEN conjunct2, THEN conjunct2,
      THEN conjunct2]
  with r pw
  have c8: "verifyEmail 3000 (Plain ''0000'') ex_reset_state =
     (ex_reset_state, Inl (ValidationError ''Invalid or expired verification token'')) \<and>
   resetPassword 3000 ''pepper'' (Plain ''0000'') ''N3w-Passw0rd'' None ex_reset_state =
     (ex_reset_state, Inl (ValidationError ''Invalid or expired reset token''))"
    by blast
  from e1 n1 c1 have w1: "\<exists>s1 x. login ex_cfg 7000 ?ld None ex_state = (s1, Inr x) \<and>
      res_refreshToken x \<notin> vt_token ` set (verificationTokens ex_state) \<and>
      length (refreshTokens s1) = Suc (length (refreshTokens ex_state)) \<and>
      rt_tokenHash (last (refreshTokens s1)) = hashToken (res_refreshToken x) \<and>
      verificationTokens s1 = verificationTokens ex_state \<and>
      res_refreshToken x \<notin> vt_token ` set (verificationTokens (run ex_cfg ?ops s1))"
    by blast
  from e2 c2 have w2: "\<exists>s2 y. refreshAccessToken ex_cfg 5000 ex_token None ex_state = (s2, Inr y) \<and>
      length (refreshTokens s2) = Suc (length (refreshTokens ex_state)) \<and>
      rt_tokenHash (last (refreshTokens s2)) = hashToken (res_refreshToken y) \<and>
      verificationTokens s2 = verificationTokens ex_state"
    by blast
  from e3 c3 have w3: "\<exists>s3 z. handleOAuthCallback ex_cfg 2000 ex_facebook None ex_state = (s3, Inr z) \<and>
      length (refreshTokens s3) = Suc (length (refreshTokens ex_state)) \<and>
      rt_tokenHash (last (refreshTokens s3)) = hashToken (res_refreshToken z) \<and>
      verificationTokens s3 = verificationTokens ex_state"
    by blast
  from e4 c4 have w4: "\<exists>s4 v row. register 8000 ''salt'' ''f00d'' ?rd None ex_state = (s4, Inr v) \<and>
      verificationTokens s4 = verificationTokens ex_state @ [row] \<and>
      vt_token row = generateToken ''f00d'' \<and>
      outbox s4 = outbox ex_state @ [VerificationEmail (rv_email (fst v)) (vt_token row)]"
    by blast
  from e5 u c5 have w5: "\<exists>s5 m usr row.
      requestPasswordReset 2000 ''beef'' ''a@x.com'' None ex_state = (s5, Inr m) \<and>
      find (\<lambda>u. u_email u = Some ''a@x.com'') (users ex_state) = Some usr \<and>
      verificationTokens s5 = verificationTokens ex_state @ [row] \<and>
      vt_token row = generateToken ''beef'' \<and>
      outbox s5 = outbox ex_state @ [PasswordResetEmail (Some ''a@x.com'') (vt_token row)]"
    by blast
  from w1 w2 w3 w4 w5 r(1-5) pw c6 c7 r(12) c8 show ?thesis
    by (intro conjI) (erule conjunct1 conjunct2 | assumption)+
qed

subsection \<open>C9: Uniform failure responses\<close>

text \<open>
  C9. Failure responses do not tell whether an account exists. \<open>login\<close> throws the same
  \<open>UnauthorizedError\<close>, with the same message, when no account has the email, when the
  account has no password hash and when the password is wrong. \<open>requestPasswordReset\<close>
  returns the same message when no account has the email and when one has (the token
  drawn for it then being one that is not stored yet, as 32 random bytes are).
\<close>

theorem failures_do_not_leak_existence:
  "((find (\<lambda>u. u_email u = Some (ld_email data)) (users s) = None \<or>
     (\<exists>u. find (\<lambda>u. u_email u = Some (ld_email data)) (users s) = Some u \<and>
          u_passwordHash u = None) \<or>
     (\<exists>u h. find (\<lambda>u. u_email u = Some (ld_email data)) (users s) = Some u \<and>
          u_passwordHash u = Some h \<and> \<not> verifyPassword (ld_password data) h)) \<longrightarrow>
      snd (login cfg now data d s) = Inl (UnauthorizedError ''Invalid email or password'')) \<and>
   ((find (\<lambda>u. u_email u = Some email) (users s) = None \<or>
     generateToken rnd \<notin> vt_token ` set (verificationTokens s)) \<longrightarrow>
      snd (requestPasswordReset now' rnd email d' s) =
        Inr ''If the email exists, a password reset link has been sent'')"
proof -
  have one: "snd (login cfg now data d s) = Inl (UnauthorizedError ''Invalid email or password'')"
    if "find (\<lambda>u. u_email u = Some (ld_email data)) (users s) = None \<or>
     (\<exists>u. find (\<lambda>u. u_email u = Some (ld_email data)) (users s) = Some u \<and>
          u_passwordHash u = None) \<or>
     (\<exists>u h. find (\<lambda>u. u_email u = Some (ld_email data)) (users s) = Some u \<and>
          u_passwordHash u = Some h \<and> \<not> verifyPassword (ld_password data) h)"
    using that by (auto simp: login_def Let_def)
  have two: "snd (requestPasswordReset now' rnd email d' s) =
        Inr ''If the email exists, a password reset link has been sent''"
    if "find (\<lambda>u. u_email u = Some email) (users s) = None \<or>
     generateToken rnd \<notin> vt_token ` set (verificationTokens s)"
  proof (cases "find (\<lambda>u. u_email u = Some email) (users s)")
    case None
    then show ?thesis by (simp add: requestPasswordReset_def)
  next
    case (Some usr)
    with that have "\<not> list_ex (\<lambda>r. vt_token r = generateToken rnd) (verificationTokens s)"
      unfolding list_ex_iff by (metis image_eqI option.distinct(1))
    with Some show ?thesis
      by (simp add: requestPasswordReset_def Let_def insert_verificationTokens_def)
  qed
  from one two show ?thesis by blast
qed

theorem failures_do_not_leak_existence_witness:
  "find (\<lambda>u. u_email u = Some ''nobody@x.com'') (users (fst ex_created)) = None \<and>
   snd (login ex_cfg 9000 \<lparr>ld_email = ''nobody@x.com'', ld_password = ''Passw0rd!''\<rparr> None
          (fst ex_created)) = Inl (UnauthorizedError ''Invalid email or password'') \<and>
   (\<exists>u. find (\<lambda>u. u_email u = Some ''b@y.com'') (users (fst ex_created)) = Some u \<and>
        u_passwordHash u = None) \<and>
   snd (login ex_cfg 9000 \<lparr>ld_email = ''b@y.com'', ld_password = ''Passw0rd!''\<rparr> None
          (fst ex_created)) = Inl (UnauthorizedError ''Invalid email or password'') \<and>
   (\<exists>u h. find (\<lambda>u. u_email u = Some ''a@x.com'') (users (fst ex_created)) = Some u \<and>
        u_passwordHash u = Some h \<and> \<not> verifyPassword ''guess'' h) \<and>
   snd (login ex_cfg 9000 \<lparr>ld_email = ''a@x.com'', ld_password = ''guess''\<rparr> None
          (fst ex_created)) = Inl (UnauthorizedError ''Invalid email or password'') \<and>
   snd (requestPasswordReset 9000 ''beef'' ''nobody@x.com'' None (fst ex_created)) =
     Inr ''If the email exists, a password reset link has been sent'' \<and>
   find (\<lambda>u. u_email u = Some ''a@x.com'') (users (fst ex_created)) \<noteq> None \<and>
   generateToken ''beef'' \<notin> vt_token ` set (verificationTokens (fst ex_created)) \<and>
   snd (requestPasswordReset 9000 ''beef'' ''a@x.com'' None (fst ex_created)) =
     Inr ''If the email exists, a password reset link has been sent''"
proof -
  let ?s = "fst ex_created"
  have n: "find (\<lambda>u. u_email u = Some ''nobody@x.com'') (users ?s) = None"
    by (simp add: eval_defs ex_apple_def ex_created_def)
  have b: "\<exists>u. find (\<lambda>u. u_email u = Some ''b@y.com'') (users ?s) = Some u \<and>
        u_passwordHash u = None"
    by (simp add: eval_defs ex_apple_def ex_created_def)
  have a: "\<exists>u h. find (\<lambda>u. u_email u = Some ''a@x.com'') (users ?s) = Some u \<and>
        u_passwordHash u = Some h \<and> \<not> verifyPassword ''guess'' h"
    by (simp add: eval_defs ex_apple_def ex_created_def)
  have a': "find (\<lambda>u. u_email u = Some ''a@x.com'') (users ?s) \<noteq> None"
    using a by auto
  have f: "generateToken ''beef'' \<notin> vt_token ` set (verificationTokens ?s)"
    by (simp add: eval_defs ex_apple_def ex_created_def)
  from failures_do_not_leak_existence[of "\<lparr>ld_email = ''nobody@x.com'', ld_password = ''Passw0rd!''\<rparr>"
      ?s ex_cfg 9000 None "''nobody@x.com''" "''beef''" 9000 None] n
  have c1: "snd (login ex_cfg 9000 \<lparr>ld_email = ''nobody@x.com'', ld_password = ''Passw0rd!''\<rparr> None ?s) =
              Inl (UnauthorizedError ''Invalid email or password'')"
    and c4: "snd (requestPasswordReset 9000 ''beef'' ''nobody@x.com'' None ?s) =
              Inr ''If the email exists, a password reset link has been sent''"
    by simp_all
  from failures_do_not_leak_existence[of "\<lparr>ld_email = ''b@y.com'', ld_password = ''Passw0rd!''\<rparr>"
      ?s ex_cfg 9000 None "''a@x.com''" "''beef''" 9000 None] b f
  have c2: "snd (login ex_cfg 9000 \<lparr>ld_email = ''b@y.com'', ld_password = ''Passw0rd!''\<rparr> None ?s) =
              Inl (UnauthorizedError ''Invalid email or password'')"
    and c5: "snd (requestPasswordReset 9000 ''beef'' ''a@x.com'' None ?s) =
              Inr ''If the email exists, a password reset link has been sent''"
    by simp_all
  from failures_do_not_leak_existence[of "\<lparr>ld_email = ''a@x.com'', ld_password = ''guess''\<rparr>"
      ?s ex_cfg 9000 None] a
  have c3: "snd (login ex_cfg 9000 \<lparr>ld_email = ''a@x.com'', ld_password = ''guess''\<rparr> None ?s) =
              Inl (UnauthorizedError ''Invalid email or password'')"
    by simp
  from n b a a' f c1 c2 c3 c4 c5 show ?thesis by blast
qed

subsection \<open>C10: No status check for external assertions\<close>

text \<open>
  C10, as stated, fails: a call for an assertion that resolves to an existing account
  does not always succeed. The assertion of the example is submitted for the suspended
  account at 2000 and succeeds. Submitted again at 2500, it resolves to the same account
  through the identity now linked, but the refresh token signed for the account in that
  second is the one of the first call: the insert of its hash violates the unique index,
  the call throws the error of the driver, no token is stored and the last login stays
  that of the first call.
\<close>

theorem oauth_same_second_fails:
  "map u_status (users ex_suspended) = [Suspended] \<and>
   \<not> isl (snd ex_suspended1) \<and>
   map oauth_key (oauthProviders (fst ex_suspended1)) =
     [(p_provider ex_facebook, p_providerId ex_facebook)] \<and>
   map op_userId (oauthProviders (fst ex_suspended1)) = map u_id (users (fst ex_suspended1)) \<and>
   snd ex_suspended2 =
     Inl (DatabaseError ''duplicate key value violates unique constraint on token_hash'') \<and>
   refreshTokens (fst ex_suspended2) = refreshTokens (fst ex_suspended1) \<and>
   map u_lastLoginAt (users (fst ex_suspended2)) = [Some 2000]"
  by (simp add: eval_defs ex_facebook_def ex_suspended_def ex_suspended1_def ex_suspended2_def)

text \<open>
  C10, as amended. \<open>handleOAuthCallback\<close> checks no account status. Take a store whose
  values fit their columns, and an assertion that resolves to an existing account \<open>usr\<close>:
  through its linked identity, or, when its provider and subject are linked to no account
  and the subject has at most 255 characters, through its email. If the hash of the
  refresh token signed for \<open>usr\<close> at \<open>now\<close> is not stored yet, the call succeeds whatever
  \<open>u_status usr\<close> is: it returns the token pair and \<open>usr\<close> with \<open>isNewUser = false\<close>, stores
  the hash of the refresh token for \<open>usr\<close> with a 30-day expiry and sets the last login of
  \<open>usr\<close>. \<open>login\<close> fails with an \<open>UnauthorizedError\<close> for every account that is not active and
  stores no token; given the right password, the message is that the account is not
  active and nothing is written.
\<close>

theorem oauth_ignores_status:
  "(wf_cols s \<and>
    ((\<exists>e. find (\<lambda>r. op_provider r = p_provider p \<and> op_providerUserId r = p_providerId p)
                  (oauthProviders s) = Some e \<and>
                find (\<lambda>u. u_id u = op_userId e) (users s) = Some usr) \<or>
     (find (\<lambda>r. op_provider r = p_provider p \<and> op_providerUserId r = p_providerId p)
                  (oauthProviders s) = None \<and> length (p_providerId p) \<le> 255 \<and>
      find (\<lambda>u. u_email u = Some (p_email p)) (users s) = Some usr)) \<and>
    hashToken (generateRefreshToken cfg now (u_id usr) (u_email usr))
           \<notin> rt_tokenHash ` set (refreshTokens s) \<longrightarrow>
         (\<exists>s' x row. handleOAuthCallback cfg now p d s = (s', Inr x) \<and>
            res_user x = to_view usr \<and> \<not> res_isNewUser x \<and>
            res_accessToken x = generateAccessToken cfg now (u_id usr) (u_email usr) \<and>
            res_refreshToken x = generateRefreshToken cfg now (u_id usr) (u_email usr) \<and>
            refreshTokens s' = refreshTokens s @ [row] \<and> rt_userId row = u_id usr \<and>
            rt_tokenHash row = hashToken (res_refreshToken x) \<and>
            rt_expiresAt row = now + 30 * 24 * 60 * 60 * 1000 \<and> rt_revokedAt row = None \<and>
            users s' = map (\<lambda>u. if u_id u = u_id usr then u\<lparr>u_lastLoginAt := Some now\<rparr> else u)
                         (users s))) \<and>
   (find (\<lambda>u. u_email u = Some (ld_email data)) (users s) = Some usr \<and>
    u_status usr \<noteq> Active \<longrightarrow>
      (\<exists>m. snd (login cfg now data d s) = Inl (UnauthorizedError m)) \<and>
      refreshTokens (fst (login cfg now data d s)) = refreshTokens s) \<and>
   (find (\<lambda>u. u_email u = Some (ld_email data)) (users s) = Some usr \<and>
    u_passwordHash usr = Some h \<and> verifyPassword (ld_password data) h \<and>
    u_status usr \<noteq> Active \<longrightarrow>
      login cfg now data d s = (s, Inl (UnauthorizedError ''Account is not active'')))"
proof -
  have one: "\<exists>s' x row. handleOAuthCallback cfg now p d s = (s', Inr x) \<and>
            res_user x = to_view usr \<and> \<not> res_isNewUser x \<and>
            res_accessToken x = generateAccessToken cfg now (u_id usr) (u_email usr) \<and>
            res_refreshToken x = generateRefreshToken cfg now (u_id usr) (u_email usr) \<and>
            refreshTokens s' = refreshTokens s @ [row] \<and> rt_userId row = u_id usr \<and>
            rt_tokenHash row = hashToken (res_refreshToken x) \<and>
            rt_expiresAt row = now + 30 * 24 * 60 * 60 * 1000 \<and> rt_revokedAt row = None \<and>
            users s' = map (\<lambda>u. if u_id u = u_id usr then u\<lparr>u_lastLoginAt := Some now\<rparr> else u)
                         (users s)"
    if cols: "wf_cols s"
      and res: "(\<exists>e. find (\<lambda>r. op_provider r = p_provider p \<and> op_providerUserId r = p_providerId p)
                  (oauthProviders s) = Some e \<and>
                find (\<lambda>u. u_id u = op_userId e) (users s) = Some usr) \<or>
           (find (\<lambda>r. op_provider r = p_provider p \<and> op_providerUserId r = p_providerId p)
                  (oauthProviders s) = None \<and> length (p_providerId p) \<le> 255 \<and>
            find (\<lambda>u. u_email u = Some (p_email p)) (users s) = Some usr)"
      and fr: "hashToken (generateRefreshToken cfg now (u_id usr) (u_email usr))
           \<notin> rt_tokenHash ` set (refreshTokens s)"
  proof -
  have "\<exists>s1. resolve_user now p d s = (s1, Inr (Some usr, False)) \<and>
          refreshTokens s1 = refreshTokens s \<and> users s1 = users s"
    using res
  proof (elim disjE exE conjE)
    fix e
    assume "find (\<lambda>r. op_provider r = p_provider p \<and> op_providerUserId r = p_providerId p)
              (oauthProviders s) = Some e"
      and "find (\<lambda>u. u_id u = op_userId e) (users s) = Some usr"
    with resolve_linked[of p s e now d] show ?thesis by simp
  next
    assume nk: "find (\<lambda>r. op_provider r = p_provider p \<and> op_providerUserId r = p_providerId p)
              (oauthProviders s) = None"
      and len: "length (p_providerId p) \<le> 255"
      and em: "find (\<lambda>u. u_email u = Some (p_email p)) (users s) = Some usr"
    from email_fits[OF cols em] have "length (p_email p) \<le> 255" .
    from resolve_by_email[OF nk em len this, of now d] show ?thesis by simp
  qed
  then obtain s1 where rs: "resolve_user now p d s = (s1, Inr (Some usr, False))"
    and rt: "refreshTokens s1 = refreshTokens s" and us: "users s1 = users s" by blast
  from fr rt
  have fresh: "hashToken (generateRefreshToken cfg now (u_id usr) (u_email usr))
                 \<notin> rt_tokenHash ` set (refreshTokens s1)" by simp
  note ok = issue_ok[OF fresh, of d "[(''provider'', provider_name (p_provider p))]"]
  show ?thesis
    unfolding handle_resolved[OF rs] ok using rt us
    by (simp add: update_users_def)
  qed
  have two: "(\<exists>m. snd (login cfg now data d s) = Inl (UnauthorizedError m)) \<and>
            refreshTokens (fst (login cfg now data d s)) = refreshTokens s"
    if "find (\<lambda>u. u_email u = Some (ld_email data)) (users s) = Some usr" "u_status usr \<noteq> Active"
    using that by (simp add: login_def Let_def split: option.split)
  have three: "login cfg now data d s = (s, Inl (UnauthorizedError ''Account is not active''))"
    if "find (\<lambda>u. u_email u = Some (ld_email data)) (users s) = Some usr"
      "u_passwordHash usr = Some h" "verifyPassword (ld_password data) h" "u_status usr \<noteq> Active"
    using that by (simp add: login_def Let_def)
  show ?thesis
  proof (intro conjI impI)
    assume "wf_cols s \<and>
    ((\<exists>e. find (\<lambda>r. op_provider r = p_provider p \<and> op_providerUserId r = p_providerId p)
                  (oauthProviders s) = Some e \<and>
                find (\<lambda>u. u_id u = op_userId e) (users s) = Some usr) \<or>
     (find (\<lambda>r. op_provider r = p_provider p \<and> op_providerUserId r = p_providerId p)
                  (oauthProviders s) = None \<and> length (p_providerId p) \<le> 255 \<and>
      find (\<lambda>u. u_email u = Some (p_email p)) (users s) = Some usr)) \<and>
    hashToken (generateRefreshToken cfg now (u_id usr) (u_email usr))
           \<notin> rt_tokenHash ` set (refreshTokens s)"
    then show "\<exists>s' x row. handleOAuthCallback cfg now p d s = (s', Inr x) \<and>
            res_user x = to_view usr \<and> \<not> res_isNewUser x \<and>
            res_accessToken x = generateAccessToken cfg now (u_id usr) (u_email usr) \<and>
            res_refreshToken x = generateRefreshToken cfg now (u_id usr) (u_email usr) \<and>
            refreshTokens s' = refreshTokens s @ [row] \<and> rt_userId row = u_id usr \<and>
            rt_tokenHash row = hashToken (res_refreshToken x) \<and>
            rt_expiresAt row = now + 30 * 24 * 60 * 60 * 1000 \<and> rt_revokedAt row = None \<and>
            users s' = map (\<lambda>u. if u_id u = u_id usr then u\<lparr>u_lastLoginAt := Some now\<rparr> else u)
                         (users s)"
      using one by (elim conjE) (rule one)
  next
    assume a: "find (\<lambda>u. u_email u = Some (ld_email data)) (users s) = Some usr \<and>
               u_status usr \<noteq> Active"
    from a two show "\<exists>m. snd (login cfg now data d s) = Inl (UnauthorizedError m)" by simp
    from a two show "refreshTokens (fst (login cfg now data d s)) = refreshTokens s" by simp
  next
    assume "find (\<lambda>u. u_email u = Some (ld_email data)) (users s) = Some usr \<and>
            u_passwordHash usr = Some h \<and> verifyPassword (ld_password data) h \<and>
            u_status usr \<noteq> Active"
    with three show "login cfg now data d s = (s, Inl (UnauthorizedError ''Account is not active''))"
      by simp
  qed
qed

theorem oauth_ignores_status_witness:
  "wf_cols ex_suspended \<and>
   u_status (hd (users ex_suspended)) = Suspended \<and>
   find (\<lambda>r. op_provider r = p_provider ex_facebook \<and> op_providerUserId r = p_providerId ex_facebook)
     (oauthProviders ex_suspended) = None \<and>
   length (p_providerId ex_facebook) \<le> 255 \<and>
   find (\<lambda>u. u_email u = Some (p_email ex_facebook)) (users ex_suspended) =
     Some (hd (users ex_suspended)) \<and>
   hashToken (generateRefreshToken ex_cfg 2000 (u_id (hd (users ex_suspended)))
       (u_email (hd (users ex_suspended))))
     \<notin> rt_tokenHash ` set (refreshTokens ex_suspended) \<and>
   (\<exists>s' x. handleOAuthCallback ex_cfg 2000 ex_facebook None ex_suspended = (s', Inr x) \<and>
      res_user x = to_view (hd (users ex_suspended)) \<and> \<not> res_isNewUser x \<and>
      length (refreshTokens s') = Suc (length (refreshTokens ex_suspended))) \<and>
   login ex_cfg 2000 \<lparr>ld_email = ''a@x.com'', ld_password = ''Passw0rd!''\<rparr> None ex_suspended =
     (ex_suspended, Inl (UnauthorizedError ''Account is not active'')) \<and>
   (\<exists>m. snd (login ex_cfg 2000 \<lparr>ld_email = ''a@x.com'', ld_password = ''guess''\<rparr> None
            ex_suspended) = Inl (UnauthorizedError m)) \<and>
   wf_cols (fst ex_suspended1) \<and>
   u_status (hd (users (fst ex_suspended1))) = Suspended \<and>
   (\<exists>e. find (\<lambda>r. op_provider r = p_provider ex_facebook \<and>
                  op_providerUserId r = p_providerId ex_facebook)
          (oauthProviders (fst ex_suspended1)) = Some e \<and>
        find (\<lambda>u. u_id u = op_userId e) (users (fst ex_suspended1)) =
          Some (hd (users (fst ex_suspended1)))) \<and>
   hashToken (generateRefreshToken ex_cfg 3000 (u_id (hd (users (fst ex_suspended1))))
       (u_email (hd (users (fst ex_suspended1)))))
     \<notin> rt_tokenHash ` set (refreshTokens (fst ex_suspended1)) \<and>
   (\<exists>s' x. handleOAuthCallback ex_cfg 3000 ex_facebook None (fst ex_suspended1) = (s', Inr x) \<and>
      res_user x = to_view (hd (users (fst ex_suspended1))) \<and> \<not> res_isNewUser x \<and>
      length (refreshTokens s') = Suc (length (refreshTokens (fst ex_suspended1))))"
proof -
  let ?usr = "hd (users ex_suspended)"
  let ?data = "\<lparr>ld_email = ''a@x.com'', ld_password = ''Passw0rd!''\<rparr>"
  let ?guess = "\<lparr>ld_email = ''a@x.com'', ld_password = ''guess''\<rparr>"
  have wc: "wf_cols ex_suspended"
    by (simp add: eval_defs wf_cols_def ex_suspended_def)
  have st: "u_status ?usr = Suspended" by (simp add: eval_defs ex_facebook_def ex_suspended_def)
  have nk: "find (\<lambda>r. op_provider r = p_provider ex_facebook \<and>
                       op_providerUserId r = p_providerId ex_facebook)
              (oauthProviders ex_suspended) = None" by (simp add: eval_defs ex_facebook_def ex_suspended_def)
  have len: "length (p_providerId ex_facebook) \<le> 255" by (simp add: ex_facebook_def)
  have fe: "find (\<lambda>u. u_email u = Some (p_email ex_facebook)) (users ex_suspended) = Some ?usr"
    by (simp add: eval_defs ex_facebook_def ex_suspended_def)
  have fresh: "hashToken (generateRefreshToken ex_cfg 2000 (u_id ?usr) (u_email ?usr))
                 \<notin> rt_tokenHash ` set (refreshTokens ex_suspended)"
    by (simp add: eval_defs ex_facebook_def ex_suspended_def)
  have lg: "find (\<lambda>u. u_email u = Some (ld_email ?data)) (users ex_suspended) = Some ?usr"
    "u_passwordHash ?usr = Some (Bcrypt ''salt'' ''Passw0rd!'')"
    "verifyPassword (ld_password ?data) (Bcrypt ''salt'' ''Passw0rd!'')"
    "u_status ?usr \<noteq> Active"
    "find (\<lambda>u. u_email u = Some (ld_email ?guess)) (users ex_suspended) = Some ?usr"
    by (simp_all add: eval_defs ex_facebook_def ex_suspended_def)
  from nk len fe have res: "(\<exists>e. find (\<lambda>r. op_provider r = p_provider ex_facebook \<and>
                       op_providerUserId r = p_providerId ex_facebook)
                  (oauthProviders ex_suspended) = Some e \<and>
                find (\<lambda>u. u_id u = op_userId e) (users ex_suspended) = Some ?usr) \<or>
           (find (\<lambda>r. op_provider r = p_provider ex_facebook \<and>
                       op_providerUserId r = p_providerId ex_facebook)
                  (oauthProviders ex_suspended) = None \<and>
            length (p_providerId ex_facebook) \<le> 255 \<and>
            find (\<lambda>u. u_email u = Some (p_email ex_facebook)) (users ex_suspended) = Some ?usr)"
    by blast
  note t = oauth_ignores_status[where s = ex_suspended and p = ex_facebook
      and usr = ?usr and cfg = ex_cfg and now = 2000 and d = None and data = ?data
      and h = "Bcrypt ''salt'' ''Passw0rd!''"]
  note t1 = t[THEN conjunct1, THEN mp, OF conjI[OF wc conjI[OF res fresh]]]
  note t3 = t[THEN conjunct2, THEN conjunct2, THEN mp,
      OF conjI[OF lg(1) conjI[OF lg(2) conjI[OF lg(3) lg(4)]]]]
  note t2 = oauth_ignores_status[where s = ex_suspended and usr = ?usr and cfg = ex_cfg
      and now = 2000 and d = None and data = ?guess, THEN conjunct2, THEN conjunct1, THEN mp,
      OF conjI[OF lg(5) lg(4)], THEN conjunct1]
  from t1 obtain s' x row where
    "handleOAuthCallback ex_cfg 2000 ex_facebook None ex_suspended = (s', Inr x)"
    "res_user x = to_view ?usr" "\<not> res_isNewUser x"
    "refreshTokens s' = refreshTokens ex_suspended @ [row]"
    by blast
  then have c1: "\<exists>s' x. handleOAuthCallback ex_cfg 2000 ex_facebook None ex_suspended = (s', Inr x) \<and>
      res_user x = to_view ?usr \<and> \<not> res_isNewUser x \<and>
      length (refreshTokens s') = Suc (length (refreshTokens ex_suspended))"
    by simp
  let ?s1 = "fst ex_suspended1"
  let ?usr1 = "hd (users ?s1)"
  have wc1: "wf_cols ?s1"
    by (simp add: eval_defs wf_cols_def ex_facebook_def ex_suspended_def ex_suspended1_def)
  have st1: "u_status ?usr1 = Suspended"
    by (simp add: eval_defs ex_facebook_def ex_suspended_def ex_suspended1_def)
  have lk: "\<exists>e. find (\<lambda>r. op_provider r = p_provider ex_facebook \<and>
                  op_providerUserId r = p_providerId ex_facebook) (oauthProviders ?s1) = Some e \<and>
        find (\<lambda>u. u_id u = op_userId e) (users ?s1) = Some ?usr1"
    by (simp add: eval_defs ex_facebook_def ex_suspended_def ex_suspended1_def)
  have fresh1: "hashToken (generateRefreshToken ex_cfg 3000 (u_id ?usr1) (u_email ?usr1))
                 \<notin> rt_tokenHash ` set (refreshTokens ?s1)"
    by (simp add: eval_defs ex_facebook_def ex_suspended_def ex_suspended1_def)
  note t4 = oauth_ignores_status[where s = ?s1 and p = ex_facebook and usr = ?usr1
      and cfg = ex_cfg and now = 3000 and d = None, THEN conjunct1, THEN mp,
      OF conjI[OF wc1 conjI[OF disjI1[OF lk] fresh1]]]
  from t4 obtain s'' y row' where
    "handleOAuthCallback ex_cfg 3000 ex_facebook None ?s1 = (s'', Inr y)"
    "res_user y = to_view ?usr1" "\<not> res_isNewUser y"
    "refreshTokens s'' = refreshTokens ?s1 @ [row']"
    by blast
  then have c4: "\<exists>s' x. handleOAuthCallback ex_cfg 3000 ex_facebook None ?s1 = (s', Inr x) \<and>
      res_user x = to_view ?usr1 \<and> \<not> res_isNewUser x \<and>
      length (refreshTokens s') = Suc (length (refreshTokens ?s1))"
    by simp
  from wc st nk len fe fresh c1 t3 t2 wc1 st1 lk fresh1 c4 show ?thesis
    by (intro conjI) assumption+
qed

end
